(* ===== verification/Vita_Prelude.thy ===== *)
theory Vita_Prelude
  imports Main "HOL-Library.Word"
begin

text \<open>
  Shared vocabulary of the development: the C integer types of the 32-bit ARM target written as
  \<open>nat\<close>/\<open>int\<close> with their wrap-around, bit masks as arithmetic, byte buffers with
  bounds-checked access, and the first-fit search over fixed-size tables that the audio and the
  screen module repeat.  Facts the component proofs share are collected in \<open>c_arith\<close>
  (integer conversions and bit masks) and \<open>buf_simps\<close> (buffers).
\<close>

unbundle bit_operations_syntax

named_theorems c_arith
named_theorems buf_simps

subsection \<open>C integers of the target (ILP32)\<close>

definition to_u16 :: "int \<Rightarrow> int" where "to_u16 x = x mod 2 ^ 16"
definition to_u32 :: "int \<Rightarrow> int" where "to_u32 x = x mod 2 ^ 32"
definition to_s16 :: "int \<Rightarrow> int" where "to_s16 x = (x + 2 ^ 15) mod 2 ^ 16 - 2 ^ 15"
definition to_s32 :: "int \<Rightarrow> int" where "to_s32 x = (x + 2 ^ 31) mod 2 ^ 32 - 2 ^ 31"

text \<open>\<open>size_t\<close> arithmetic: 32 bits on the target, so a sum or a product is reduced.\<close>

definition size_t :: "nat \<Rightarrow> nat" where "size_t n = n mod 2 ^ 32"

lemma to_u32_id [c_arith]: "0 \<le> x \<Longrightarrow> x < 2 ^ 32 \<Longrightarrow> to_u32 x = x"
  by (simp add: to_u32_def)

lemma to_u16_id [c_arith]: "0 \<le> x \<Longrightarrow> x < 2 ^ 16 \<Longrightarrow> to_u16 x = x"
  by (simp add: to_u16_def)

lemma to_s32_id [c_arith]: "- (2 ^ 31) \<le> x \<Longrightarrow> x < 2 ^ 31 \<Longrightarrow> to_s32 x = x"
  by (simp add: to_s32_def)

lemma to_s16_id [c_arith]: "- (2 ^ 15) \<le> x \<Longrightarrow> x < 2 ^ 15 \<Longrightarrow> to_s16 x = x"
  by (simp add: to_s16_def)

lemma size_t_id [c_arith]: "n < 2 ^ 32 \<Longrightarrow> size_t n = n"
  by (simp add: size_t_def)

lemma to_s16_range: "- 32768 \<le> to_s16 x \<and> to_s16 x \<le> 32767"
proof -
  have "0 \<le> (x + 2 ^ 15) mod 2 ^ 16 \<and> (x + 2 ^ 15) mod 2 ^ 16 < 2 ^ 16" by simp
  then show ?thesis by (simp add: to_s16_def)
qed

lemma to_s32_range: "- (2 ^ 31) \<le> to_s32 x \<and> to_s32 x < 2 ^ 31"
proof -
  have "0 \<le> (x + 2 ^ 31) mod 2 ^ 32 \<and> (x + 2 ^ 31) mod 2 ^ 32 < 2 ^ 32" by simp
  then show ?thesis by (simp add: to_s32_def)
qed

subsection \<open>Bit masks as arithmetic\<close>

lemma and_push_mask: "(x::nat) AND push_bit k (mask m) = push_bit k (take_bit m (drop_bit k x))"
  by (rule bit_eqI) (auto simp: bit_simps)

lemma or_push_bit_low:
  assumes "(x::nat) < 2 ^ n"
  shows "push_bit n y OR x = y * 2 ^ n + x"
proof -
  have x: "x = take_bit n x" using assms by (simp add: take_bit_nat_eq_self)
  have "push_bit n y + take_bit n x = push_bit n y OR take_bit n x"
    by (rule disjunctive_add) (auto simp: bit_simps)
  with x show ?thesis by (simp add: push_bit_eq_mult)
qed

lemma and_low_mask: "(x::nat) AND mask m = x mod 2 ^ m"
  by (simp add: take_bit_eq_mask [symmetric] take_bit_eq_mod)

lemma and_1F [c_arith]: "(x::nat) AND 0x1F = x mod 32"
  using and_low_mask [of x 5] by (simp add: mask_eq_exp_minus_1)

lemma and_0F [c_arith]: "(x::nat) AND 0x0F = x mod 16"
  using and_low_mask [of x 4] by (simp add: mask_eq_exp_minus_1)

lemma and_07 [c_arith]: "(x::nat) AND 0x07 = x mod 8"
  using and_low_mask [of x 3] by (simp add: mask_eq_exp_minus_1)

lemma and_3F [c_arith]: "(x::nat) AND 0x3F = x mod 64"
  using and_low_mask [of x 6] by (simp add: mask_eq_exp_minus_1)

lemma and_3FF [c_arith]: "(x::nat) AND 0x3FF = x mod 1024"
  using and_low_mask [of x 10] by (simp add: mask_eq_exp_minus_1)

lemma and_E0 [c_arith]: "(x::nat) AND 0xE0 = 32 * (x div 32 mod 8)"
  using and_push_mask [of x 5 3]
  by (simp add: mask_eq_exp_minus_1 push_bit_eq_mult drop_bit_eq_div take_bit_eq_mod)

lemma and_C0 [c_arith]: "(x::nat) AND 0xC0 = 64 * (x div 64 mod 4)"
  using and_push_mask [of x 6 2]
  by (simp add: mask_eq_exp_minus_1 push_bit_eq_mult drop_bit_eq_div take_bit_eq_mod)

lemma and_F0 [c_arith]: "(x::nat) AND 0xF0 = 16 * (x div 16 mod 16)"
  using and_push_mask [of x 4 4]
  by (simp add: mask_eq_exp_minus_1 push_bit_eq_mult drop_bit_eq_div take_bit_eq_mod)

lemma and_F8 [c_arith]: "(x::nat) AND 0xF8 = 8 * (x div 8 mod 32)"
  using and_push_mask [of x 3 5]
  by (simp add: mask_eq_exp_minus_1 push_bit_eq_mult drop_bit_eq_div take_bit_eq_mod)

lemma or_C0 [c_arith]: "x < 64 \<Longrightarrow> (0xC0::nat) OR x = 0xC0 + x"
  using or_push_bit_low [of x 6 3] by (simp add: push_bit_eq_mult)

lemma or_80 [c_arith]: "x < 128 \<Longrightarrow> (0x80::nat) OR x = 0x80 + x"
  using or_push_bit_low [of x 7 1] by (simp add: push_bit_eq_mult)

lemma or_E0 [c_arith]: "x < 32 \<Longrightarrow> (0xE0::nat) OR x = 0xE0 + x"
  using or_push_bit_low [of x 5 7] by (simp add: push_bit_eq_mult)

lemma or_F0 [c_arith]: "x < 16 \<Longrightarrow> (0xF0::nat) OR x = 0xF0 + x"
  using or_push_bit_low [of x 4 15] by (simp add: push_bit_eq_mult)

subsection \<open>Buffers\<close>

text \<open>
  A buffer is a list of cells.  \<open>write_at\<close> is \<open>memcpy\<close> into a buffer: \<open>None\<close>
  when the copy would leave it, which is undefined behaviour in C.
\<close>

definition segment :: "nat \<Rightarrow> nat \<Rightarrow> 'a list \<Rightarrow> 'a list" where
  "segment off n xs = take n (drop off xs)"

definition write_at :: "'a list \<Rightarrow> nat \<Rightarrow> 'a list \<Rightarrow> 'a list option" where
  "write_at buf off src =
     (if off + length src \<le> length buf
      then Some (take off buf @ src @ drop (off + length src) buf) else None)"

lemma length_segment [buf_simps]: "length (segment off n xs) = min n (length xs - off)"
  by (simp add: segment_def)

lemma nth_segment [buf_simps]: "i < n \<Longrightarrow> off + i < length xs \<Longrightarrow> segment off n xs ! i = xs ! (off + i)"
  by (simp add: segment_def)

lemma write_at_length [buf_simps]: "write_at buf off src = Some b \<Longrightarrow> length b = length buf"
  by (auto simp: write_at_def split: if_splits)

lemma write_at_prefix [buf_simps]:
  "write_at buf off src = Some b \<Longrightarrow> take (off + length src) b = take off buf @ src"
  by (auto simp: write_at_def split: if_splits)

lemma write_at_in_bounds [buf_simps]: "off + length src \<le> length buf \<Longrightarrow> \<exists>b. write_at buf off src = Some b"
  by (simp add: write_at_def)

subsection \<open>First-fit search in a fixed-size table\<close>

text \<open>
  The loops \<open>for (i = 0; i < MAX; i++) if (free(i)) return i; return -1;\<close> of the audio
  module, on the list of the table's entries.
\<close>

fun scan_free :: "('a \<Rightarrow> bool) \<Rightarrow> 'a list \<Rightarrow> nat \<Rightarrow> int" where
  "scan_free busy [] i = - 1"
| "scan_free busy (x # xs) i = (if \<not> busy x then int i else scan_free busy xs (Suc i))"

lemma scan_free_none: "scan_free busy xs i < 0 \<longleftrightarrow> (\<forall>x\<in>set xs. busy x)"
  by (induction xs arbitrary: i) auto

lemma scan_free_some:
  assumes "0 \<le> scan_free busy xs i"
  shows "i \<le> nat (scan_free busy xs i) \<and> nat (scan_free busy xs i) - i < length xs
    \<and> \<not> busy (xs ! (nat (scan_free busy xs i) - i))
    \<and> (\<forall>j < nat (scan_free busy xs i) - i. busy (xs ! j))"
  using assms
proof (induction xs arbitrary: i)
  case Nil
  then show ?case by simp
next
  case (Cons x xs)
  show ?case
  proof (cases "busy x")
    case False
    then show ?thesis by simp
  next
    case True
    with Cons.prems have p: "0 \<le> scan_free busy xs (Suc i)" by simp
    let ?k = "nat (scan_free busy xs (Suc i))"
    from Cons.IH [OF p] have ih: "Suc i \<le> ?k" "?k - Suc i < length xs"
      "\<not> busy (xs ! (?k - Suc i))" "\<forall>j < ?k - Suc i. busy (xs ! j)" by auto
    have "busy ((x # xs) ! j)" if "j < ?k - i" for j
      using that True ih(1,4) by (cases j) auto
    with True ih show ?thesis by (auto simp: nth_Cons')
  qed
qed

text \<open>
  The contract of such a table search, and what its clients need: installing an entry at the
  slot it returns leaves every busy entry where it was.
\<close>

locale slot_table =
  fixes busy :: "'a \<Rightarrow> bool"
    and search :: "'a list \<Rightarrow> int"
  assumes search_full: "search xs < 0 \<longleftrightarrow> (\<forall>x\<in>set xs. busy x)"
    and search_slot: "0 \<le> search xs \<Longrightarrow>
      nat (search xs) < length xs \<and> \<not> busy (xs ! nat (search xs))"
    and search_first: "0 \<le> search xs \<Longrightarrow> j < nat (search xs) \<Longrightarrow> busy (xs ! j)"
begin

lemma search_in_range: "search xs < int (length xs)"
proof (cases "0 \<le> search xs")
  case True
  with search_slot [OF True] show ?thesis by (simp add: nat_less_iff)
next
  case False
  then show ?thesis by linarith
qed

lemma install_keeps_busy:
  assumes "0 \<le> search xs" and "j < length xs" and "busy (xs ! j)"
  shows "xs[nat (search xs) := x] ! j = xs ! j"
proof -
  from search_slot [OF assms(1)] assms(3) have "j \<noteq> nat (search xs)" by auto
  then show ?thesis by simp
qed

lemma install_found: "0 \<le> search xs \<Longrightarrow> xs[nat (search xs) := x] ! nat (search xs) = x"
  using search_slot by simp

lemma install_count:
  assumes "0 \<le> search xs" and "busy x"
  shows "length (filter busy (xs[nat (search xs) := x])) = Suc (length (filter busy xs))"
proof -
  let ?i = "nat (search xs)"
  from search_slot [OF assms(1)] have i: "?i < length xs" "\<not> busy (xs ! ?i)" by auto
  have "xs = take ?i xs @ xs ! ?i # drop (Suc ?i) xs" using i(1) by (simp add: id_take_nth_drop)
  then have "filter busy xs = filter busy (take ?i xs) @ filter busy (drop (Suc ?i) xs)"
    using i(2) by (metis filter.simps(2) filter_append)
  moreover have "filter busy (xs[?i := x]) = filter busy (take ?i xs) @ x # filter busy (drop (Suc ?i) xs)"
    using i(1) assms(2) by (simp add: upd_conv_take_nth_drop)
  ultimately show ?thesis by simp
qed

end

interpretation scan: slot_table busy "\<lambda>xs. scan_free busy xs 0" for busy :: "'a \<Rightarrow> bool"
proof unfold_locales
  fix xs :: "'a list"
  show "(scan_free busy xs 0 < 0) = (\<forall>x\<in>set xs. busy x)" by (rule scan_free_none)
next
  fix xs :: "'a list"
  assume "0 \<le> scan_free busy xs 0"
  from scan_free_some [OF this]
  show "nat (scan_free busy xs 0) < length xs \<and> \<not> busy (xs ! nat (scan_free busy xs 0))" by simp
next
  fix xs :: "'a list" and j
  assume "0 \<le> scan_free busy xs 0" "j < nat (scan_free busy xs 0)"
  with scan_free_some [of busy xs 0] show "busy (xs ! j)" by simp
qed

subsection \<open>Tables whose entries own resources\<close>

text \<open>
  A table entry may own a resource: a block of memory, an open file.  \<open>owns own good xs h\<close>
  says that the entries of \<open>xs\<close> own pairwise different resources, that these are exactly the
  live ones of \<open>h\<close>, and that each is \<open>good\<close> for its owner.  No resource is leaked and
  none has two owners.
\<close>

fun owns :: "('a \<Rightarrow> nat option) \<Rightarrow> ('a \<Rightarrow> 'v \<Rightarrow> bool) \<Rightarrow> 'a list \<Rightarrow> (nat \<Rightarrow> 'v option) \<Rightarrow> bool" where
  "owns own good [] h \<longleftrightarrow> h = Map.empty"
| "owns own good (x # xs) h \<longleftrightarrow>
     (case own x of None \<Rightarrow> owns own good xs h
      | Some b \<Rightarrow> (\<exists>v. h b = Some v \<and> good x v) \<and> owns own good xs (h(b := None)))"

lemma owns_good:
  "owns own good xs h \<Longrightarrow> x \<in> set xs \<Longrightarrow> own x = Some b \<Longrightarrow> \<exists>v. h b = Some v \<and> good x v"
  by (induction xs arbitrary: h) (fastforce split: option.splits if_splits)+

lemma owns_live: "owns own good xs h \<Longrightarrow> h b \<noteq> None \<longleftrightarrow> (\<exists>x\<in>set xs. own x = Some b)"
proof (induction xs arbitrary: h)
  case (Cons x xs)
  show ?case
  proof (cases "own x")
    case None
    with Cons show ?thesis by simp
  next
    case (Some a)
    with Cons.prems have "owns own good xs (h(a := None))" "h a \<noteq> None" by auto
    from Cons.IH [OF this(1)] this(2) Some show ?thesis by (cases "a = b") auto
  qed
qed simp

text \<open>The resources of a selection of owners are pairwise different.\<close>

lemma owns_distinct:
  assumes "owns own good xs h" and "\<And>x. x \<in> set xs \<Longrightarrow> sel x \<Longrightarrow> own x = Some (res x)"
  shows "distinct (map res (filter sel xs))"
  using assms
proof (induction xs arbitrary: h)
  case (Cons x xs)
  show ?case
  proof (cases "sel x")
    case False
    then show ?thesis using Cons.prems Cons.IH [of h] Cons.IH [of "h(b := None)" for b] by (auto split: option.splits simp del: fun_upd_apply)
  next
    case True
    then have o: "owns own good xs (h(res x := None))" using Cons.prems by (auto simp del: fun_upd_apply)
    have "res x \<noteq> res y" if "y \<in> set xs" "sel y" for y
      using owns_good [OF o that(1)] Cons.prems(2) [of y] that by auto
    then have "res x \<notin> res ` set (filter sel xs)" by auto
    with True Cons.IH [OF o] Cons.prems(2) show ?thesis by simp
  qed
qed simp

lemma owns_none: "\<forall>x\<in>set xs. own x = None \<Longrightarrow> owns own good xs h \<longleftrightarrow> h = Map.empty"
  by (induction xs) auto

lemma owns_cong:
  assumes "owns own good xs h" and "list_all2 (\<lambda>x y. own y = own x \<and> (\<forall>b v. own x = Some b \<and> h b = Some v \<and> good x v \<longrightarrow> good y v)) xs ys"
  shows "owns own good ys h"
  using assms
proof (induction xs arbitrary: ys h)
  case (Cons x xs)
  then obtain y ys' where ys: "ys = y # ys'" by (cases ys) auto
  show ?case
  proof (cases "own x")
    case None
    with Cons ys show ?thesis by auto
  next
    case (Some b)
    with Cons.prems ys have o: "\<exists>v. h b = Some v \<and> good y v" "owns own good xs (h(b := None))" "own y = Some b" by auto
    have "list_all2 (\<lambda>x y. own y = own x \<and> (\<forall>b' v. own x = Some b' \<and> (h(b := None)) b' = Some v \<and> good x v \<longrightarrow> good y v)) xs ys'"
      using Cons.prems(2) ys by (auto elim!: list_all2_mono split: if_splits)
    with o(2) have "owns own good ys' (h(b := None))" by (rule Cons.IH)
    with o(1,3) ys show ?thesis by (simp del: fun_upd_apply)
  qed
qed simp

text \<open>The operations on such a table, once for all of them: fill a slot, empty a slot, change an entry.\<close>

locale owned_table =
  fixes own :: "'a \<Rightarrow> nat option" and good :: "'a \<Rightarrow> 'v \<Rightarrow> bool" and blank :: 'a
  assumes blank_owns_nothing: "own blank = None"
begin

lemma install:
  assumes "owns own good xs h" and "i < length xs" and "own (xs ! i) = None" and "own x = Some b" and "h b = None" and "good x v"
  shows "owns own good (xs[i := x]) (h(b \<mapsto> v))"
  using assms(1-3,5)
proof (induction xs arbitrary: h i)
  case (Cons y ys)
  show ?case
  proof (cases i)
    case 0
    have "(h(b \<mapsto> v))(b := None) = h" using Cons.prems(4) by auto
    then have "owns own good ys ((h(b \<mapsto> v))(b := None))" using 0 Cons.prems by simp
    with 0 assms(4,6) show ?thesis by (simp del: fun_upd_apply) simp
  next
    case (Suc k)
    show ?thesis
    proof (cases "own y")
      case None
      with Suc Cons.prems Cons.IH [of h k] show ?thesis by simp
    next
      case (Some c)
      with Cons.prems have "c \<noteq> b" "owns own good ys (h(c := None))" by auto
      moreover from this Cons.prems Suc have "owns own good (ys[k := x]) ((h(c := None))(b \<mapsto> v))"
        by (intro Cons.IH) (assumption | simp)+
      ultimately have "owns own good (ys[k := x]) ((h(b \<mapsto> v))(c := None))" by (metis fun_upd_twist)
      moreover have "\<exists>w. (h(b \<mapsto> v)) c = Some w \<and> good y w" using Cons.prems(1) Some \<open>c \<noteq> b\<close> by simp
      ultimately show ?thesis using Suc Some by (simp del: fun_upd_apply)
    qed
  qed
qed simp

lemma clear:
  assumes "owns own good xs h" and "i < length xs" and "own (xs ! i) = Some b"
  shows "h b \<noteq> None \<and> owns own good (xs[i := blank]) (h(b := None))"
  using assms
proof (induction xs arbitrary: h i)
  case (Cons y ys)
  show ?case
  proof (cases i)
    case 0
    with Cons.prems show ?thesis by (auto simp: blank_owns_nothing simp del: fun_upd_apply)
  next
    case (Suc k)
    show ?thesis
    proof (cases "own y")
      case None
      with Suc Cons.prems Cons.IH [of h k] show ?thesis by simp
    next
      case (Some c)
      with Cons.prems have o: "owns own good ys (h(c := None))" "\<exists>v. h c = Some v \<and> good y v" by auto
      from Cons.IH [OF o(1), of k] Cons.prems Suc have ih: "(h(c := None)) b \<noteq> None"
          "owns own good (ys[k := blank]) ((h(c := None))(b := None))" by (simp_all del: fun_upd_apply)
      then have "c \<noteq> b" "h b \<noteq> None" by (auto split: if_splits)
      with ih(2) have "owns own good (ys[k := blank]) ((h(b := None))(c := None))" by (metis fun_upd_twist)
      moreover have "\<exists>v. (h(b := None)) c = Some v \<and> good y v" using o(2) \<open>c \<noteq> b\<close> by simp
      ultimately show ?thesis using \<open>h b \<noteq> None\<close> Suc Some by (simp del: fun_upd_apply)
    qed
  qed
qed simp

lemma change:
  assumes "owns own good xs h" and "i < length xs" and "own x = own (xs ! i)"
    and "\<And>b v. own (xs ! i) = Some b \<Longrightarrow> h b = Some v \<Longrightarrow> good (xs ! i) v \<Longrightarrow> good x v"
  shows "owns own good (xs[i := x]) h"
proof (rule owns_cong [OF assms(1)])
  show "list_all2 (\<lambda>x y. own y = own x \<and> (\<forall>b v. own x = Some b \<and> h b = Some v \<and> good x v \<longrightarrow> good y v)) xs (xs[i := x])"
    using assms(2-) by (auto simp: list_all2_conv_all_nth nth_list_update)
qed

lemma clear_nothing: "owns own good xs h \<Longrightarrow> i < length xs \<Longrightarrow> own (xs ! i) = None \<Longrightarrow> owns own good (xs[i := blank]) h"
  by (rule change) (auto simp: blank_owns_nothing)

lemma blank_table: "owns own good (replicate n blank) h \<longleftrightarrow> h = Map.empty"
  by (rule owns_none) (simp add: blank_owns_nothing)

end

subsection \<open>Ledgers\<close>

text \<open>
  Owners with several resources each.  \<open>ledger owned F xs live\<close>: the live resources are those
  of the owners in \<open>F\<close> and those in the list \<open>xs\<close> that a function holds for the moment,
  each in one place only.
\<close>

definition ledger :: "('o \<Rightarrow> 'r list) \<Rightarrow> ('k \<Rightarrow> 'o option) \<Rightarrow> 'r list \<Rightarrow> ('r \<Rightarrow> bool) \<Rightarrow> bool" where
  "ledger owned F xs live \<longleftrightarrow> distinct xs \<and>
     (\<forall>k d. F k = Some d \<longrightarrow> distinct (owned d)) \<and>
     (\<forall>k d r. F k = Some d \<longrightarrow> r \<in> set (owned d) \<longrightarrow> r \<notin> set xs) \<and>
     (\<forall>k k' d d' r. F k = Some d \<longrightarrow> F k' = Some d' \<longrightarrow> r \<in> set (owned d) \<longrightarrow> r \<in> set (owned d') \<longrightarrow> k = k') \<and>
     (\<forall>r. live r \<longleftrightarrow> r \<in> set xs \<or> (\<exists>k d. F k = Some d \<and> r \<in> set (owned d)))"

lemma ledgerI:
  assumes "distinct xs" and "\<And>k d. F k = Some d \<Longrightarrow> distinct (owned d)"
    and "\<And>k d r. F k = Some d \<Longrightarrow> r \<in> set (owned d) \<Longrightarrow> r \<notin> set xs"
    and "\<And>k k' d d' r. F k = Some d \<Longrightarrow> F k' = Some d' \<Longrightarrow> r \<in> set (owned d) \<Longrightarrow> r \<in> set (owned d') \<Longrightarrow> k = k'"
    and "\<And>r. live r \<longleftrightarrow> r \<in> set xs \<or> (\<exists>k d. F k = Some d \<and> r \<in> set (owned d))"
  shows "ledger owned F xs live"
  unfolding ledger_def using assms by blast

lemma ledgerD:
  assumes "ledger owned F xs live"
  shows "distinct xs" and "F k = Some d \<Longrightarrow> distinct (owned d)" and "F k = Some d \<Longrightarrow> r \<in> set (owned d) \<Longrightarrow> r \<notin> set xs"
    and "F k = Some d \<Longrightarrow> F k' = Some d' \<Longrightarrow> r \<in> set (owned d) \<Longrightarrow> r \<in> set (owned d') \<Longrightarrow> k = k'"
    and "live r \<longleftrightarrow> r \<in> set xs \<or> (\<exists>k d. F k = Some d \<and> r \<in> set (owned d))"
  using assms unfolding ledger_def by blast+

lemma ledger_start: "ledger owned Map.empty [] (\<lambda>_. False)"
  by (simp add: ledger_def)

lemma ledger_free:
  assumes "ledger owned F (r # xs) live"
  shows "live r \<and> ledger owned F xs (live(r := False))"
proof -
  note l = ledgerD [OF assms]
  have own: "r \<notin> set (owned d)" if "F k = Some d" for k d using l(3) [OF that, of r] by auto
  have "ledger owned F xs (live(r := False))"
    using l(1) l(2) l(3) l(4) l(5) own by (intro ledgerI) auto
  moreover have "live r" using l(5) [of r] by simp
  ultimately show ?thesis by simp
qed

lemma ledger_new:
  assumes "ledger owned F xs live" and "\<not> live r"
  shows "ledger owned F (r # xs) (live(r := True))"
proof -
  note l = ledgerD [OF assms(1)]
  have own: "r \<notin> set xs" "\<And>k d. F k = Some d \<Longrightarrow> r \<notin> set (owned d)" using l(5) [of r] assms(2) by auto
  show ?thesis using l(1) l(2) l(3) l(4) l(5) own by (intro ledgerI) auto
qed

text \<open>What an owner holds may be moved to the list, and back to an owner.\<close>

lemma ledger_detach:
  assumes "ledger owned F xs live" and "F k = Some d"
  shows "ledger owned (F(k := None)) (owned d @ xs) live"
proof (rule ledgerI)
  note l = ledgerD [OF assms(1)]
  show "distinct (owned d @ xs)" using l(1) l(2) l(3) assms(2) by auto
  show "distinct (owned d')" if "(F(k := None)) k' = Some d'" for k' d' using l(2) that by (auto split: if_splits)
  show "r \<notin> set (owned d @ xs)" if "(F(k := None)) k' = Some d'" "r \<in> set (owned d')" for k' d' r
  proof -
    have k': "k' \<noteq> k" "F k' = Some d'" using that(1) by (simp_all split: if_splits)
    with l(3) [OF k'(2) that(2)] l(4) [OF assms(2) k'(2) _ that(2)] show ?thesis by auto
  qed
  show "k1 = k2" if "(F(k := None)) k1 = Some d1" "(F(k := None)) k2 = Some d2" "r \<in> set (owned d1)" "r \<in> set (owned d2)" for k1 k2 d1 d2 r
    using that l(4) by (metis fun_upd_other fun_upd_same option.distinct(1))
  show "live r \<longleftrightarrow> r \<in> set (owned d @ xs) \<or> (\<exists>k' d'. (F(k := None)) k' = Some d' \<and> r \<in> set (owned d'))" for r
  proof -
    have "(\<exists>k' d'. F k' = Some d' \<and> r \<in> set (owned d')) \<longleftrightarrow> r \<in> set (owned d) \<or> (\<exists>k' d'. (F(k := None)) k' = Some d' \<and> r \<in> set (owned d'))"
      using assms(2) by (metis fun_upd_other fun_upd_same option.distinct(1) option.inject)
    then show ?thesis using l(5) by auto
  qed
qed

lemma ledger_attach:
  assumes "ledger owned F (ys @ xs) live" and "F k = None" and "distinct (owned d)" and "set (owned d) = set ys"
  shows "ledger owned (F(k \<mapsto> d)) xs live"
proof (rule ledgerI)
  note l = ledgerD [OF assms(1)]
  show "distinct xs" using l(1) by simp
  show "distinct (owned d')" if "(F(k \<mapsto> d)) k' = Some d'" for k' d' using l(2) assms(3) that by (auto split: if_splits)
  show "r \<notin> set xs" if "(F(k \<mapsto> d)) k' = Some d'" "r \<in> set (owned d')" for k' d' r
    using that l(1) l(3) assms(4) by (auto split: if_splits)
  show "k1 = k2" if "(F(k \<mapsto> d)) k1 = Some d1" "(F(k \<mapsto> d)) k2 = Some d2" "r \<in> set (owned d1)" "r \<in> set (owned d2)" for k1 k2 d1 d2 r
  proof (cases "k1 = k \<or> k2 = k")
    case True
    have "r \<notin> set (owned d')" if "F k' = Some d'" "r \<in> set ys" for k' d' using l(3) that by auto
    with True that assms(4) show ?thesis by (auto split: if_splits)
  next
    case False
    with that l(4) show ?thesis by auto
  qed
  show "live r \<longleftrightarrow> r \<in> set xs \<or> (\<exists>k' d'. (F(k \<mapsto> d)) k' = Some d' \<and> r \<in> set (owned d'))" for r
  proof -
    have "(\<exists>k' d'. (F(k \<mapsto> d)) k' = Some d' \<and> r \<in> set (owned d')) \<longleftrightarrow> r \<in> set ys \<or> (\<exists>k' d'. F k' = Some d' \<and> r \<in> set (owned d'))"
      using assms(2,4) by (metis fun_upd_other fun_upd_same option.distinct(1) option.inject)
    then show ?thesis using l(5) by auto
  qed
qed

lemma ledger_swap: "ledger owned F (x # y # xs) live \<Longrightarrow> ledger owned F (y # x # xs) live"
  unfolding ledger_def by simp blast

subsection \<open>Modules as transition systems\<close>

text \<open>
  A native module is a start state and the steps its operations make.  What every step keeps
  holds in every state the module can reach; each module interprets this contract with its own
  invariant.
\<close>

locale module_inv =
  fixes start :: 's
    and step :: "'s \<Rightarrow> 's \<Rightarrow> bool"
    and inv :: "'s \<Rightarrow> bool"
  assumes inv_start: "inv start"
    and inv_step: "step s t \<Longrightarrow> inv s \<Longrightarrow> inv t"
begin

lemma inv_steps: "step\<^sup>*\<^sup>* s t \<Longrightarrow> inv s \<Longrightarrow> inv t"
  by (induction rule: rtranclp_induct) (auto intro: inv_step)

lemma inv_reachable: "step\<^sup>*\<^sup>* start s \<Longrightarrow> inv s"
  using inv_steps inv_start by blast

end

subsection \<open>Hexadecimal error codes\<close>

text \<open>The \<open>0x%08X\<close> conversion of the error messages, applied to the unsigned 32-bit value.\<close>

definition hex_digit :: "nat \<Rightarrow> char" where
  "hex_digit d = ''0123456789ABCDEF'' ! d"

definition hex08 :: "int \<Rightarrow> string" where
  "hex08 code = map (\<lambda>k. hex_digit (nat (to_u32 code) div 16 ^ k mod 16)) [7, 6, 5, 4, 3, 2, 1, 0]"

lemma length_hex08 [simp]: "length (hex08 c) = 8"
  by (simp add: hex08_def)

subsection \<open>Decimal numbers in messages\<close>

function dec_digits :: "nat \<Rightarrow> string" where
  "dec_digits n = (if n < 10 then [hex_digit n] else dec_digits (n div 10) @ [hex_digit (n mod 10)])"
  by pat_completeness auto
termination
  by (relation "measure id") auto

declare dec_digits.simps [simp del]

text \<open>The \<open>%d\<close> conversion.\<close>

definition dec :: "int \<Rightarrow> string" where
  "dec n = (if n < 0 then ''-'' @ dec_digits (nat (- n)) else dec_digits (nat n))"

end
