(* ===== verification/C_Float.thy ===== *)
theory C_Float
  imports Complex_Main Vita_Prelude
begin

text \<open>
  The C floating-point arithmetic the audio module computes with: \<open>float\<close> and
  \<open>double\<close> are IEEE binary32 and binary64 with round-to-nearest-even, which is what the
  target's VFP unit does.  A value is not-a-number, an infinity or a rational; every operation
  computes the exact rational result and rounds it once.  The sign of zero is not represented:
  no comparison, sum, product or conversion of the modelled code depends on it.

  The interface locale \<open>float_format\<close> states what the client proofs use: rounding never
  crosses an integer the format represents.  It is interpreted for both formats.
\<close>

datatype flt = NaN | Inf bool | Fin rat

subsection \<open>Rounding\<close>

definition p2 :: "int \<Rightarrow> rat" where
  "p2 k = (if 0 \<le> k then 2 ^ nat k else 1 / 2 ^ nat (- k))"

function ibits :: "int \<Rightarrow> nat" where
  "ibits n = (if n \<le> 0 then 0 else Suc (ibits (n div 2)))"
  by pat_completeness auto
termination
  by (relation "measure nat") auto

declare ibits.simps [simp del]

definition ilog2 :: "rat \<Rightarrow> int" where
  "ilog2 x = (let (a, b) = quotient_of \<bar>x\<bar>; k = int (ibits a) - int (ibits b)
              in if p2 k \<le> \<bar>x\<bar> then k else k - 1)"

definition round_even :: "rat \<Rightarrow> int" where
  "round_even q = (let f = \<lfloor>q\<rfloor>; d = q - of_int f
                   in if d < 1 / 2 then f else if 1 / 2 < d then f + 1
                      else if even f then f else f + 1)"

definition fround :: "nat \<Rightarrow> int \<Rightarrow> int \<Rightarrow> rat \<Rightarrow> flt" where
  "fround p emin emax x =
     (if x = 0 then Fin 0
      else let e = max (ilog2 x - int p + 1) emin;
               y = of_int (round_even (x / p2 e)) * p2 e
           in if p2 emax \<le> \<bar>y\<bar> then Inf (y < 0) else Fin y)"

definition f32 :: "rat \<Rightarrow> flt" where "f32 = fround 24 (- 149) 128"
definition f64 :: "rat \<Rightarrow> flt" where "f64 = fround 53 (- 1074) 1024"

subsection \<open>Operations\<close>

fun fneg :: "flt \<Rightarrow> flt" where
  "fneg NaN = NaN"
| "fneg (Inf s) = Inf (\<not> s)"
| "fneg (Fin x) = Fin (- x)"

fun fadd :: "(rat \<Rightarrow> flt) \<Rightarrow> flt \<Rightarrow> flt \<Rightarrow> flt" where
  "fadd r (Fin x) (Fin y) = r (x + y)"
| "fadd r NaN b = NaN"
| "fadd r a NaN = NaN"
| "fadd r (Inf s) (Inf t) = (if s = t then Inf s else NaN)"
| "fadd r (Inf s) b = Inf s"
| "fadd r a (Inf t) = Inf t"

definition fsub :: "(rat \<Rightarrow> flt) \<Rightarrow> flt \<Rightarrow> flt \<Rightarrow> flt" where
  "fsub r a b = fadd r a (fneg b)"

fun fmul :: "(rat \<Rightarrow> flt) \<Rightarrow> flt \<Rightarrow> flt \<Rightarrow> flt" where
  "fmul r (Fin x) (Fin y) = r (x * y)"
| "fmul r NaN b = NaN"
| "fmul r a NaN = NaN"
| "fmul r (Inf s) (Inf t) = Inf (s \<noteq> t)"
| "fmul r (Inf s) (Fin y) = (if y = 0 then NaN else Inf (s \<noteq> (y < 0)))"
| "fmul r (Fin x) (Inf t) = (if x = 0 then NaN else Inf (t \<noteq> (x < 0)))"

fun fdiv :: "(rat \<Rightarrow> flt) \<Rightarrow> flt \<Rightarrow> flt \<Rightarrow> flt" where
  "fdiv r (Fin x) (Fin y) = (if y = 0 then (if x = 0 then NaN else Inf (x < 0)) else r (x / y))"
| "fdiv r NaN b = NaN"
| "fdiv r a NaN = NaN"
| "fdiv r (Inf s) (Inf t) = NaN"
| "fdiv r (Inf s) (Fin y) = Inf (s \<noteq> (y < 0))"
| "fdiv r (Fin x) (Inf t) = Fin 0"

text \<open>Conversion between the formats, and of an integer to a format.\<close>

fun fcvt :: "(rat \<Rightarrow> flt) \<Rightarrow> flt \<Rightarrow> flt" where
  "fcvt r (Fin x) = r x"
| "fcvt r a = a"

definition of_c_int :: "(rat \<Rightarrow> flt) \<Rightarrow> int \<Rightarrow> flt" where
  "of_c_int r n = r (of_int n)"

text \<open>Ordered comparisons: false as soon as an operand is not a number.\<close>

fun flt_less :: "flt \<Rightarrow> flt \<Rightarrow> bool" where
  "flt_less (Fin x) (Fin y) = (x < y)"
| "flt_less NaN b = False"
| "flt_less a NaN = False"
| "flt_less (Inf s) (Inf t) = (s \<and> \<not> t)"
| "flt_less (Inf s) (Fin y) = s"
| "flt_less (Fin x) (Inf t) = (\<not> t)"

fun flt_ge :: "flt \<Rightarrow> flt \<Rightarrow> bool" where
  "flt_ge NaN b = False"
| "flt_ge a NaN = False"
| "flt_ge a b = (\<not> flt_less a b)"

text \<open>
  Conversion to an integer type truncates towards zero.  It is undefined when the truncated
  value is not representable; \<open>None\<close> stands for that.
\<close>

definition rtrunc :: "rat \<Rightarrow> int" where
  "rtrunc x = (if 0 \<le> x then \<lfloor>x\<rfloor> else - \<lfloor>- x\<rfloor>)"

fun to_c_int :: "int \<Rightarrow> int \<Rightarrow> flt \<Rightarrow> int option" where
  "to_c_int lo hi (Fin x) = (if lo \<le> rtrunc x \<and> rtrunc x \<le> hi then Some (rtrunc x) else None)"
| "to_c_int lo hi a = None"

definition to_int32 :: "flt \<Rightarrow> int option" where
  "to_int32 = to_c_int (- (2 ^ 31)) (2 ^ 31 - 1)"

definition to_uint32 :: "flt \<Rightarrow> int option" where
  "to_uint32 = to_c_int 0 (2 ^ 32 - 1)"

definition to_int64 :: "flt \<Rightarrow> int option" where
  "to_int64 = to_c_int (- (2 ^ 63)) (2 ^ 63 - 1)"

subsection \<open>Facts about rounding\<close>

lemma p2_pos [simp]: "0 < p2 k"
  by (simp add: p2_def)

lemma p2_nonneg_int: "e \<le> 0 \<Longrightarrow> of_int n / p2 e = of_int (n * 2 ^ nat (- e))"
  by (auto simp: p2_def)

lemma ibits_bounds: "0 < n \<Longrightarrow> 2 ^ ibits n \<le> 2 * n \<and> n < 2 ^ ibits n"
proof (induction n rule: ibits.induct)
  case (1 n)
  show ?case
  proof (cases "n = 1")
    case True
    then show ?thesis by (simp add: ibits.simps [of 1] ibits.simps [of 0])
  next
    case False
    with "1.prems" have "0 < n div 2" by linarith
    with "1.IH" "1.prems" have ih: "2 ^ ibits (n div 2) \<le> 2 * (n div 2) \<and> n div 2 < 2 ^ ibits (n div 2)"
      by simp
    have "n < 2 * 2 ^ ibits (n div 2)" using ih by linarith
    moreover have "2 * 2 ^ ibits (n div 2) \<le> 2 * n" using ih by linarith
    ultimately show ?thesis using "1.prems" by (simp add: ibits.simps [of n])
  qed
qed

lemma p2_diff: "p2 (int a - int b) = 2 ^ a / 2 ^ b"
proof (cases "b \<le> a")
  case True
  then have "nat (int a - int b) = a - b" by simp
  with True show ?thesis by (simp add: p2_def power_diff)
next
  case False
  then have "nat (- (int a - int b)) = b - a" by simp
  with False show ?thesis by (simp add: p2_def power_diff)
qed

lemma p2_half: "p2 (k - 1) = p2 k / 2"
proof (cases "1 \<le> k")
  case True
  then have "nat k = Suc (nat (k - 1))" by simp
  with True show ?thesis by (simp add: p2_def)
next
  case False
  then have "nat (- (k - 1)) = Suc (nat (- k))" by simp
  with False show ?thesis by (auto simp: p2_def)
qed

lemma p2_mono: "i \<le> j \<Longrightarrow> p2 i \<le> p2 j"
proof (induction "nat (j - i)" arbitrary: j)
  case 0
  then show ?case by simp
next
  case (Suc n)
  then have "n = nat (j - 1 - i)" "i \<le> j - 1" by linarith+
  then have "p2 i \<le> p2 (j - 1)" by (rule Suc.hyps(1))
  also have "\<dots> \<le> p2 j" by (simp add: p2_half)
  finally show ?case .
qed

lemma ilog2_lower: "x \<noteq> 0 \<Longrightarrow> p2 (ilog2 x) \<le> \<bar>x\<bar>"
proof -
  assume "x \<noteq> 0"
  obtain a b where ab: "quotient_of \<bar>x\<bar> = (a, b)" by fastforce
  have b: "0 < b" using ab by (rule quotient_of_denom_pos)
  have xe: "\<bar>x\<bar> = of_int a / of_int b" using ab by (rule quotient_of_div)
  have a: "0 < a" using xe b \<open>x \<noteq> 0\<close>
    by (metis divide_less_0_iff div_0 linorder_neqE_linordered_idom of_int_0 of_int_0_less_iff
        of_int_less_0_iff zero_less_abs_iff order_less_asym)
  define k where "k = int (ibits a) - int (ibits b)"
  show ?thesis
  proof (cases "p2 k \<le> \<bar>x\<bar>")
    case True
    then show ?thesis by (simp add: ilog2_def ab k_def Let_def)
  next
    case False
    have "(2::rat) ^ ibits a \<le> 2 * of_int a" and "(of_int b :: rat) \<le> 2 ^ ibits b"
      using ibits_bounds [OF a] ibits_bounds [OF b]
      by (metis of_int_le_iff of_int_mult of_int_numeral of_int_power)
        (metis ibits_bounds b of_int_le_iff of_int_numeral of_int_power order_less_imp_le)
    then have "(2::rat) ^ ibits a / 2 ^ ibits b \<le> 2 * of_int a / of_int b"
      using a b by (intro frac_le) auto
    then have "p2 (k - 1) \<le> \<bar>x\<bar>" by (simp add: k_def p2_half p2_diff xe)
    with False show ?thesis by (simp add: ilog2_def ab k_def Let_def)
  qed
qed

lemma ilog2_less: "x \<noteq> 0 \<Longrightarrow> \<bar>x\<bar> < 2 ^ p \<Longrightarrow> ilog2 x < int p"
proof (rule ccontr)
  assume x: "x \<noteq> 0" "\<bar>x\<bar> < 2 ^ p" and "\<not> ilog2 x < int p"
  then have "p2 (int p) \<le> p2 (ilog2 x)" by (simp add: p2_mono)
  also have "\<dots> \<le> \<bar>x\<bar>" using x(1) by (rule ilog2_lower)
  finally show False using x(2) by (simp add: p2_def)
qed

lemma round_even_le: "q \<le> of_int m \<Longrightarrow> round_even q \<le> m"
proof -
  assume q: "q \<le> of_int m"
  then have "\<lfloor>q\<rfloor> \<le> m" by (simp add: floor_le_iff)
  moreover have "q = of_int m" if "\<lfloor>q\<rfloor> = m" using that q by (metis dual_order.antisym of_int_floor_le)
  ultimately show ?thesis
    by (cases "\<lfloor>q\<rfloor> = m") (auto simp: round_even_def Let_def)
qed

lemma round_even_ge: "of_int m \<le> q \<Longrightarrow> m \<le> round_even q"
proof -
  assume "of_int m \<le> q"
  then have "m \<le> \<lfloor>q\<rfloor>" by (simp add: le_floor_iff)
  then show ?thesis by (auto simp: round_even_def Let_def)
qed

locale float_format =
  fixes p :: nat and emin emax :: int
  assumes p_pos: "0 < p" and emin_neg: "emin \<le> 0" and emax_big: "int p < emax"
begin

lemma exponent_nonpos:
  "x \<noteq> 0 \<Longrightarrow> \<bar>x\<bar> < 2 ^ p \<Longrightarrow> max (ilog2 x - int p + 1) emin \<le> 0"
  using ilog2_less [of x p] emin_neg by simp

text \<open>Rounding a value between two integers stays between them.\<close>

lemma fround_between:
  assumes "of_int m \<le> x" and "x \<le> of_int n" and "\<bar>m\<bar> \<le> 2 ^ p" and "\<bar>n\<bar> \<le> 2 ^ p"
    and "\<bar>x\<bar> < 2 ^ p"
  shows "\<exists>y. fround p emin emax x = Fin y \<and> of_int m \<le> y \<and> y \<le> of_int n"
proof (cases "x = 0")
  case True
  with assms(1,2) show ?thesis by (simp add: fround_def)
next
  case False
  define e where "e = max (ilog2 x - int p + 1) emin"
  have e: "e \<le> 0" unfolding e_def using False assms(5) by (rule exponent_nonpos)
  define y where "y = of_int (round_even (x / p2 e)) * p2 e"
  have up: "y \<le> of_int k" if "x \<le> of_int k" for k
  proof -
    have "x / p2 e \<le> of_int (k * 2 ^ nat (- e))"
      by (simp only: p2_nonneg_int [OF e, symmetric]) (intro divide_right_mono that less_imp_le p2_pos)
    from round_even_le [OF this] have "(of_int (round_even (x / p2 e)) :: rat) \<le> of_int k / p2 e"
      using e by (simp only: p2_nonneg_int of_int_le_iff)
    then show ?thesis by (simp add: y_def pos_le_divide_eq)
  qed
  have lo: "of_int k \<le> y" if "of_int k \<le> x" for k
  proof -
    have "of_int (k * 2 ^ nat (- e)) \<le> x / p2 e"
      by (simp only: p2_nonneg_int [OF e, symmetric]) (intro divide_right_mono that less_imp_le p2_pos)
    from round_even_ge [OF this] have "of_int k / p2 e \<le> (of_int (round_even (x / p2 e)) :: rat)"
      using e by (simp only: p2_nonneg_int of_int_le_iff)
    then show ?thesis by (simp add: y_def pos_divide_le_eq)
  qed
  have b: "of_int m \<le> y" "y \<le> of_int n" using assms(1,2) up lo by blast+
  have "\<bar>y\<bar> \<le> 2 ^ p"
  proof -
    have "(of_int n :: rat) \<le> of_int (2 ^ p)" "(of_int (- (2 ^ p)) :: rat) \<le> of_int m"
      using assms(3,4) by (simp_all only: of_int_le_iff)
    then have "of_int n \<le> (2 ^ p :: rat)" "- (2 ^ p :: rat) \<le> of_int m" by simp_all
    with b show ?thesis by linarith
  qed
  also have "\<dots> < p2 emax"
  proof -
    have "p2 (int p + 1) = 2 * p2 (int p)" using p2_half [of "int p + 1"] by simp
    then have "p2 (int p) < p2 (int p + 1)" using p2_pos [of "int p"] by linarith
    also have "\<dots> \<le> p2 emax" using emax_big by (simp add: p2_mono)
    finally show ?thesis by (simp add: p2_def)
  qed
  finally have "\<not> p2 emax \<le> \<bar>y\<bar>" by simp
  then have "fround p emin emax x = Fin y"
    using False by (simp add: fround_def Let_def e_def [symmetric] y_def [symmetric])
  with b show ?thesis by blast
qed

lemma fround_int: "\<bar>n\<bar> < 2 ^ p \<Longrightarrow> fround p emin emax (of_int n) = Fin (of_int n)"
proof -
  assume n: "\<bar>n\<bar> < 2 ^ p"
  have "\<bar>of_int n :: rat\<bar> < 2 ^ p"
    using n by (metis of_int_abs of_int_less_iff of_int_numeral of_int_power)
  from fround_between [OF order_refl order_refl _ _ this] n show ?thesis by force
qed

lemma fround_unit:
  assumes "0 \<le> x" and "x \<le> 1"
  shows "\<exists>y. fround p emin emax x = Fin y \<and> 0 \<le> y \<and> y \<le> 1"
proof -
  have "(1::rat) < 2 ^ p" using p_pos by (simp add: one_less_power)
  with assms have "\<bar>x\<bar> < 2 ^ p" by simp
  with fround_between [of 0 x 1] assms show ?thesis by simp
qed

end

text \<open>Rounding gives a number or an infinity of the same sign, never a NaN.\<close>

lemma fround_cases:
  obtains (finite) y where "fround p emin emax x = Fin y" "0 \<le> x \<longrightarrow> 0 \<le> y"
    | (infinite) s where "fround p emin emax x = Inf s" "0 \<le> x \<longrightarrow> \<not> s"
proof -
  let ?y = "\<lambda>e. of_int (round_even (x / p2 e)) * p2 e"
  have "0 \<le> ?y e" if "0 \<le> x" for e
    using that round_even_ge [of 0 "x / p2 e"] by (simp add: less_imp_le)
  then have "(\<exists>y. fround p emin emax x = Fin y \<and> (0 \<le> x \<longrightarrow> 0 \<le> y)) \<or> (\<exists>s. fround p emin emax x = Inf s \<and> (0 \<le> x \<longrightarrow> \<not> s))"
    by (simp add: fround_def Let_def not_less)
  then show thesis using that by blast
qed

interpretation b32: float_format 24 "- 149" 128
  rewrites "fround 24 (- 149) 128 = f32"
  by unfold_locales (simp_all add: f32_def)

interpretation b64: float_format 53 "- 1074" 1024
  rewrites "fround 53 (- 1074) 1024 = f64"
  by unfold_locales (simp_all add: f64_def)

lemma rtrunc_between: "of_int m \<le> x \<Longrightarrow> x \<le> of_int n \<Longrightarrow> m \<le> rtrunc x \<and> rtrunc x \<le> n"
proof -
  assume a: "of_int m \<le> x" "x \<le> of_int n"
  show ?thesis
  proof (cases "0 \<le> x")
    case True
    with a show ?thesis by (simp add: rtrunc_def le_floor_iff floor_le_iff)
  next
    case False
    from a have "of_int (- n) \<le> - x" "- x \<le> of_int (- m)" by simp_all
    then have "- n \<le> \<lfloor>- x\<rfloor>" "\<lfloor>- x\<rfloor> \<le> - m" by (simp_all add: le_floor_iff floor_le_iff)
    with False show ?thesis by (simp add: rtrunc_def)
  qed
qed

lemma rtrunc_floor: "0 \<le> x \<Longrightarrow> rtrunc x = \<lfloor>x\<rfloor>"
  by (simp add: rtrunc_def)

lemma rtrunc_of_int [simp]: "rtrunc (of_int n) = n"
  by (simp add: rtrunc_def)

text \<open>Values that are at least zero, infinity included.\<close>

fun fnonneg :: "flt \<Rightarrow> bool" where
  "fnonneg NaN = False"
| "fnonneg (Inf s) = (\<not> s)"
| "fnonneg (Fin x) = (0 \<le> x)"

lemma fround_nonneg: "0 \<le> x \<Longrightarrow> fnonneg (fround p emin emax x)"
  by (rule fround_cases [of p emin emax x]) auto

lemma f64_nonneg: "0 \<le> x \<Longrightarrow> fnonneg (f64 x)"
  by (simp add: f64_def fround_nonneg)

lemma fround_not_nan: "fround p emin emax x \<noteq> NaN"
  by (rule fround_cases [of p emin emax x]) auto

lemma fcvt_not_nan: "x \<noteq> NaN \<Longrightarrow> fcvt f32 x \<noteq> NaN"
  by (cases x) (simp_all add: f32_def fround_not_nan)

lemma fmul_nonneg: "fnonneg a \<Longrightarrow> 0 < y \<Longrightarrow> fnonneg (fmul f64 a (Fin y))"
  by (cases a) (simp_all add: f64_nonneg)

end
