(* ===== verification/Js_Api.thy ===== *)
theory Js_Api
  imports C_Float
begin

text \<open>
  The boundary between the native modules and their surroundings.

  \<^item> QuickJS: a native function gets its arguments as \<open>jsval\<close>s and returns a value or an
    error.  The conversions (\<open>JS_ToInt32\<close>, \<open>JS_ToCString\<close>, property reads, \<dots>) are
    operations of the engine, fields of the record \<open>js_engine\<close> that every function that
    converts an argument takes as its first parameter; \<open>None\<close> means that the engine has
    raised an exception, which the native code passes on as \<open>JS_EXCEPTION\<close>
    (\<open>Pending\<close> below).
  \<^item> The PS Vita system libraries: a module's state keeps the list of the calls it has made so
    far, newest first, and the answer to a call is a function of that history, a parameter of
    the model.  Nothing is assumed of the answers unless a theorem says so.
\<close>

datatype js_error =
    SyntaxError string
  | TypeError string
  | RangeError string
  | InternalError string
  | OutOfMemory
  | Pending

datatype jsval =
    JUndefined
  | JNull
  | JBool bool
  | JInt int
  | JFloat flt
  | JString string
  | JObject "(string \<times> jsval) list"
  | JArray "jsval list"
  | JBuffer "nat list"
  | JRef nat
  | JException

type_synonym 'a js_result = "js_error + 'a"

record js_engine =
  ToInt32 :: "jsval \<Rightarrow> int option"
  ToUint32 :: "jsval \<Rightarrow> nat option"
  ToFloat64 :: "jsval \<Rightarrow> flt option"
  ToBool :: "jsval \<Rightarrow> bool option"
  ToCString :: "jsval \<Rightarrow> string option"
  GetPropertyStr :: "jsval \<Rightarrow> string \<Rightarrow> jsval"

text \<open>
  What the C types of the conversions promise, whatever the engine does.  A \<open>string\<close> of
  \<open>ToCString\<close> is the C string up to its terminator, so no character of it is zero.
\<close>

definition engine_typed :: "js_engine \<Rightarrow> bool" where
  "engine_typed js \<longleftrightarrow>
     (\<forall>v n. ToInt32 js v = Some n \<longrightarrow> - (2 ^ 31) \<le> n \<and> n < 2 ^ 31) \<and>
     (\<forall>v n. ToUint32 js v = Some n \<longrightarrow> n < 2 ^ 32) \<and>
     (\<forall>v s. ToCString js v = Some s \<longrightarrow> CHR 0x00 \<notin> set s)"

fun js_is_object :: "jsval \<Rightarrow> bool" where
  "js_is_object (JObject _) = True"
| "js_is_object (JArray _) = True"
| "js_is_object (JBuffer _) = True"
| "js_is_object (JRef _) = True"
| "js_is_object _ = False"

text \<open>\<open>JS_IsUndefined(v) || JS_IsNull(v)\<close>, the test for an option that was not given.\<close>

definition absent :: "jsval \<Rightarrow> bool" where
  "absent v \<longleftrightarrow> v = JUndefined \<or> v = JNull"

text \<open>\<open>throw_sce_error\<close> of the modules: \<open>"%s failed: 0x%08X"\<close>.\<close>

definition throw_sce_error :: "string \<Rightarrow> int \<Rightarrow> 'a js_result" where
  "throw_sce_error name code = Inl (InternalError (name @ '' failed: 0x'' @ hex08 code))"

subsection \<open>Histories of system calls\<close>

record 'c traced =
  trace :: "'c list"

text \<open>\<open>ask\<close> is the answer to a call made now; \<open>did\<close> records that it was made.\<close>

definition ask :: "('c list \<Rightarrow> 'c \<Rightarrow> 'r) \<Rightarrow> ('c, 's) traced_scheme \<Rightarrow> 'c \<Rightarrow> 'r" where
  "ask env s c = env (trace s) c"

definition did :: "'c \<Rightarrow> ('c, 's) traced_scheme \<Rightarrow> ('c, 's) traced_scheme" where
  "did c s = s\<lparr>trace := c # trace s\<rparr>"

lemma trace_did [simp]: "trace (did c s) = c # trace s"
  by (simp add: did_def)

lemma more_did [simp]: "traced.more (did c s) = traced.more s"
  by (simp add: did_def)

subsection \<open>An engine for evaluation\<close>

text \<open>
  The conversions of the primitive values as QuickJS does them where no JavaScript code runs:
  used to evaluate the model on concrete arguments.
\<close>

fun prim_int32 :: "jsval \<Rightarrow> int option" where
  "prim_int32 (JInt n) = Some n"
| "prim_int32 (JBool b) = Some (if b then 1 else 0)"
| "prim_int32 JUndefined = Some 0"
| "prim_int32 JNull = Some 0"
| "prim_int32 _ = None"

fun prim_float64 :: "jsval \<Rightarrow> flt option" where
  "prim_float64 (JInt n) = Some (Fin (of_int n))"
| "prim_float64 (JFloat x) = Some x"
| "prim_float64 (JBool b) = Some (Fin (if b then 1 else 0))"
| "prim_float64 JUndefined = Some NaN"
| "prim_float64 JNull = Some (Fin 0)"
| "prim_float64 _ = None"

fun prim_cstring :: "jsval \<Rightarrow> string option" where
  "prim_cstring (JString s) = Some (takeWhile (\<lambda>c. c \<noteq> CHR 0x00) s)"
| "prim_cstring JUndefined = Some ''undefined''"
| "prim_cstring JNull = Some ''null''"
| "prim_cstring _ = None"

fun prim_bool :: "jsval \<Rightarrow> bool option" where
  "prim_bool (JBool b) = Some b"
| "prim_bool (JInt n) = Some (n \<noteq> 0)"
| "prim_bool JUndefined = Some False"
| "prim_bool JNull = Some False"
| "prim_bool (JString s) = Some (s \<noteq> [])"
| "prim_bool JException = None"
| "prim_bool _ = Some True"

fun prim_get :: "jsval \<Rightarrow> string \<Rightarrow> jsval" where
  "prim_get (JObject ps) k = (case map_of ps k of None \<Rightarrow> JUndefined | Some v \<Rightarrow> v)"
| "prim_get _ k = JUndefined"

definition js_prim :: js_engine where
  "js_prim = \<lparr>ToInt32 = (\<lambda>v. map_option to_s32 (prim_int32 v)),
              ToUint32 = (\<lambda>v. map_option (\<lambda>n. nat (to_u32 n)) (prim_int32 v)),
              ToFloat64 = prim_float64, ToBool = prim_bool, ToCString = prim_cstring,
              GetPropertyStr = prim_get\<rparr>"

lemma prim_cstring_terminated: "prim_cstring v = Some s \<Longrightarrow> CHR 0x00 \<notin> set s"
  by (induction v rule: prim_cstring.induct) (auto dest: set_takeWhileD)

lemma engine_typed_prim: "engine_typed js_prim"
proof -
  have "nat (to_u32 x) < 2 ^ 32" for x
    by (simp add: to_u32_def nat_less_iff)
  then show ?thesis
    using to_s32_range prim_cstring_terminated by (auto simp: engine_typed_def js_prim_def)
qed

end
