(* ===== verification/Utf_Conv.thy ===== *)
theory Utf_Conv
  imports Vita_Prelude
begin

text \<open>
  The text conversions of the dialog module (src/src/modules/dialog.c, \<open>utf8_to_utf16\<close> and
  \<open>utf16_to_utf8\<close>).  A C string is the list of its bytes without the terminator, a
  \<open>SceWChar16\<close> buffer the list of its units.  Each conversion returns the cells it writes, with
  the terminator; what \<open>utf16_to_utf8\<close> reads past the end of its source buffer is
  \<open>None\<close>.

  Specification: the encoding forms of RFC 3629 and RFC 2781, \<open>rfc_utf8\<close> and
  \<open>rfc_utf16\<close>, over lists of Unicode scalar values.
\<close>

subsection \<open>The conversions\<close>

definition utf8_decode1 :: "nat list \<Rightarrow> nat \<times> nat" where
  "utf8_decode1 s =
     (let s0 = s ! 0; remaining = length s in
      if s0 < 0x80 then (s0, 1)
      else if 2 \<le> remaining \<and> s0 AND 0xE0 = 0xC0 \<and> s ! 1 AND 0xC0 = 0x80 then
        (let cp = push_bit 6 (s0 AND 0x1F) OR (s ! 1 AND 0x3F)
         in if cp < 0x80 then (0xFFFD, 1) else (cp, 2))
      else if 3 \<le> remaining \<and> s0 AND 0xF0 = 0xE0 \<and> s ! 1 AND 0xC0 = 0x80 \<and> s ! 2 AND 0xC0 = 0x80 then
        (let cp = push_bit 12 (s0 AND 0x0F) OR (push_bit 6 (s ! 1 AND 0x3F) OR (s ! 2 AND 0x3F))
         in if cp < 0x800 \<or> (0xD800 \<le> cp \<and> cp \<le> 0xDFFF) then (0xFFFD, 1) else (cp, 3))
      else if 4 \<le> remaining \<and> s0 AND 0xF8 = 0xF0 \<and> s ! 1 AND 0xC0 = 0x80 \<and> s ! 2 AND 0xC0 = 0x80
              \<and> s ! 3 AND 0xC0 = 0x80 then
        (let cp = push_bit 18 (s0 AND 0x07) OR (push_bit 12 (s ! 1 AND 0x3F)
                    OR (push_bit 6 (s ! 2 AND 0x3F) OR (s ! 3 AND 0x3F)))
         in if cp < 0x10000 \<or> 0x10FFFF < cp then (0xFFFD, 1) else (cp, 4))
      else (0xFFFD, 1))"

lemma utf8_decode1_consumes: "0 < snd (utf8_decode1 s)"
  by (simp add: utf8_decode1_def Let_def)

function utf8_to_utf16_loop :: "nat \<Rightarrow> nat list \<Rightarrow> nat list \<Rightarrow> nat list" where
  "utf8_to_utf16_loop cap s out =
     (if s \<noteq> [] \<and> length out + 1 < cap then
        (let cp = fst (utf8_decode1 s); s' = drop (snd (utf8_decode1 s)) s in
         if cp \<le> 0xFFFF then utf8_to_utf16_loop cap s' (out @ [cp])
         else if cap \<le> length out + 2 then out
         else (let c = cp - 0x10000 in
               utf8_to_utf16_loop cap s' (out @ [0xD800 + drop_bit 10 c, 0xDC00 + (c AND 0x3FF)])))
      else out)"
  by pat_completeness auto
termination
  by (relation "measure (\<lambda>(cap, s, out). length s)")
    (auto simp: utf8_decode1_consumes diff_less)

declare utf8_to_utf16_loop.simps [simp del]

definition utf8_to_utf16 :: "nat list \<Rightarrow> nat \<Rightarrow> nat list" where
  "utf8_to_utf16 src dst_capacity =
     (if dst_capacity = 0 then [] else utf8_to_utf16_loop dst_capacity src [] @ [0])"

definition utf8_encode1 :: "nat \<Rightarrow> nat list" where
  "utf8_encode1 cp =
     (if cp < 0x80 then [cp]
      else if cp < 0x800 then [0xC0 OR drop_bit 6 cp, 0x80 OR (cp AND 0x3F)]
      else if cp < 0x10000 then
        [0xE0 OR drop_bit 12 cp, 0x80 OR (drop_bit 6 cp AND 0x3F), 0x80 OR (cp AND 0x3F)]
      else [0xF0 OR drop_bit 18 cp, 0x80 OR (drop_bit 12 cp AND 0x3F),
            0x80 OR (drop_bit 6 cp AND 0x3F), 0x80 OR (cp AND 0x3F)])"

fun utf16_to_utf8_loop :: "nat \<Rightarrow> nat list \<Rightarrow> nat list \<Rightarrow> nat list option" where
  "utf16_to_utf8_loop cap [] out = None"
| "utf16_to_utf8_loop cap (u # src) out =
     (if u = 0 then Some out
      else if 0xD800 \<le> u \<and> u \<le> 0xDBFF then
        (case src of
           [] \<Rightarrow> None
         | low # src' \<Rightarrow>
             if 0xDC00 \<le> low \<and> low \<le> 0xDFFF then
               (let e = utf8_encode1 (0x10000 + (push_bit 10 (u - 0xD800) OR (low - 0xDC00))) in
                if cap \<le> length out + length e then Some out
                else utf16_to_utf8_loop cap src' (out @ e))
             else
               (let e = utf8_encode1 0xFFFD in
                if cap \<le> length out + length e then Some out
                else utf16_to_utf8_loop cap (low # src') (out @ e)))
      else
        (let e = utf8_encode1 (if 0xDC00 \<le> u \<and> u \<le> 0xDFFF then 0xFFFD else u) in
         if cap \<le> length out + length e then Some out
         else utf16_to_utf8_loop cap src (out @ e)))"

definition utf16_to_utf8 :: "nat list \<Rightarrow> nat \<Rightarrow> nat list option" where
  "utf16_to_utf8 src dst_capacity =
     (if dst_capacity = 0 then Some []
      else map_option (\<lambda>out. out @ [0]) (utf16_to_utf8_loop dst_capacity src []))"

subsection \<open>Specification: Unicode encoding forms\<close>

definition scalar :: "nat \<Rightarrow> bool" where
  "scalar cp \<longleftrightarrow> 0 < cp \<and> (cp < 0xD800 \<or> (0xE000 \<le> cp \<and> cp \<le> 0x10FFFF))"

definition rfc_utf8 :: "nat \<Rightarrow> nat list" where
  "rfc_utf8 cp =
     (if cp < 0x80 then [cp]
      else if cp < 0x800 then [0xC0 + cp div 64, 0x80 + cp mod 64]
      else if cp < 0x10000 then [0xE0 + cp div 4096, 0x80 + cp div 64 mod 64, 0x80 + cp mod 64]
      else [0xF0 + cp div 262144, 0x80 + cp div 4096 mod 64, 0x80 + cp div 64 mod 64, 0x80 + cp mod 64])"

definition rfc_utf16 :: "nat \<Rightarrow> nat list" where
  "rfc_utf16 cp =
     (if cp < 0x10000 then [cp]
      else [0xD800 + (cp - 0x10000) div 1024, 0xDC00 + (cp - 0x10000) mod 1024])"

definition utf8_of :: "nat list \<Rightarrow> nat list" where
  "utf8_of cps = concat (map rfc_utf8 cps)"

definition utf16_of :: "nat list \<Rightarrow> nat list" where
  "utf16_of cps = concat (map rfc_utf16 cps)"

lemma utf8_of_simps [simp]: "utf8_of [] = []" "utf8_of (c # cs) = rfc_utf8 c @ utf8_of cs"
  "utf8_of (xs @ ys) = utf8_of xs @ utf8_of ys"
  by (simp_all add: utf8_of_def)

lemma utf16_of_simps [simp]: "utf16_of [] = []" "utf16_of (c # cs) = rfc_utf16 c @ utf16_of cs"
  "utf16_of (xs @ ys) = utf16_of xs @ utf16_of ys"
  by (simp_all add: utf16_of_def)

subsection \<open>One code point\<close>

lemma utf8_encode1_rfc: "cp \<le> 0x10FFFF \<Longrightarrow> utf8_encode1 cp = rfc_utf8 cp"
  by (auto simp: utf8_encode1_def rfc_utf8_def c_arith drop_bit_eq_div)

lemma or_two: "y < 64 \<Longrightarrow> push_bit 6 x OR y = x * 64 + (y::nat)"
  using or_push_bit_low [of y 6 x] by simp

lemma or_three: "y < 64 \<Longrightarrow> z < 64 \<Longrightarrow>
    push_bit 12 x OR (push_bit 6 y OR z) = x * 4096 + y * 64 + (z::nat)"
  using or_push_bit_low [of "y * 64 + z" 12 x] by (simp add: or_two)

lemma or_four: "y < 64 \<Longrightarrow> z < 64 \<Longrightarrow> w < 64 \<Longrightarrow>
    push_bit 18 x OR (push_bit 12 y OR (push_bit 6 z OR w)) = x * 262144 + y * 4096 + z * 64 + (w::nat)"
  using or_push_bit_low [of "y * 4096 + z * 64 + w" 18 x] by (simp add: or_three)

lemmas utf8_decode1_arith =
  utf8_decode1_def [unfolded and_1F and_0F and_07 and_3F and_E0 and_C0 and_F0 and_F8]

text \<open>The bits of lead and continuation bytes.\<close>

lemma div_mod_base: "b < n \<Longrightarrow> (q * n + b) div n = q \<and> (q * n + b) mod n = (b::nat)"
  by simp

lemma cont_byte: "b < 64 \<Longrightarrow> (0x80 + b) div 64 = (2::nat) \<and> (0x80 + b) mod 64 = b"
  using div_mod_base [of b 64 2] by simp

lemma lead2: "a < 32 \<Longrightarrow> (0xC0 + a) div 32 = (6::nat) \<and> (0xC0 + a) mod 32 = a"
  using div_mod_base [of a 32 6] by simp

lemma lead3: "a < 16 \<Longrightarrow>
    (0xE0 + a) div 32 = (7::nat) \<and> (0xE0 + a) div 16 = 14 \<and> (0xE0 + a) mod 16 = a"
  using div_mod_base [of a 16 14] div_mod_base [of a 32 7] by simp

lemma lead4: "a < 8 \<Longrightarrow> (0xF0 + a) div 32 = (7::nat) \<and> (0xF0 + a) div 16 = 15 \<and>
    (0xF0 + a) div 8 = 30 \<and> (0xF0 + a) mod 8 = a"
  using div_mod_base [of a 8 30] div_mod_base [of a 16 15] div_mod_base [of "16 + a" 32 7] by simp

lemma split3: "cp div 4096 * 4096 + cp div 64 mod 64 * 64 + cp mod 64 = (cp::nat)"
proof -
  have "cp div 4096 * 64 + cp div 64 mod 64 = cp div 64"
    using div_mult_mod_eq [of "cp div 64" 64] by (simp add: div_mult2_eq [symmetric])
  then show ?thesis using div_mult_mod_eq [of cp 64] by linarith
qed

lemma split4:
  "cp div 262144 * 262144 + cp div 4096 mod 64 * 4096 + cp div 64 mod 64 * 64 + cp mod 64 = (cp::nat)"
proof -
  have "cp div 262144 * 64 + cp div 4096 mod 64 = cp div 4096"
    using div_mult_mod_eq [of "cp div 4096" 64] by (simp add: div_mult2_eq [symmetric])
  then show ?thesis using split3 [of cp] by linarith
qed

lemma utf8_decode1_rfc:
  assumes "scalar cp"
  shows "utf8_decode1 (rfc_utf8 cp @ rest) = (cp, length (rfc_utf8 cp))"
proof -
  have m: "cp mod 64 < 64" "cp div 64 mod 64 < 64" "cp div 4096 mod 64 < 64" by simp_all
  note c = m [THEN cont_byte]
  consider "cp < 0x80" | "0x80 \<le> cp" "cp < 0x800" | "0x800 \<le> cp" "cp < 0x10000" | "0x10000 \<le> cp"
    by linarith
  then show ?thesis
  proof cases
    case 1
    then show ?thesis by (simp add: rfc_utf8_def utf8_decode1_def)
  next
    case 2
    then have "cp div 64 < 32" by linarith
    with 2 c show ?thesis
      by (simp add: rfc_utf8_def utf8_decode1_arith Let_def or_two lead2)
  next
    case 3
    have "\<not> (0xD800 \<le> cp \<and> cp \<le> 0xDFFF)" using assms by (auto simp: scalar_def)
    moreover from 3 have "cp div 4096 < 16" by linarith
    ultimately show ?thesis using 3 c
      by (simp add: rfc_utf8_def utf8_decode1_arith Let_def or_three lead3 split3)
  next
    case 4
    have "cp \<le> 0x10FFFF" using assms 4 by (auto simp: scalar_def)
    moreover from this have "cp div 262144 < 8" by linarith
    ultimately show ?thesis using 4 c
      by (simp add: rfc_utf8_def utf8_decode1_arith Let_def or_four lead4 split4)
  qed
qed

text \<open>Whatever the bytes are, the decoder yields a scalar value.\<close>

lemma or_bounds:
  "push_bit 6 (s0 mod 32) OR (s1 mod 64) < (0x800::nat)"
  "push_bit 12 (s0 mod 16) OR (push_bit 6 (s1 mod 64) OR (s2 mod 64)) < (0x10000::nat)"
proof -
  have m: "s0 mod 32 \<le> 31" "s0 mod 16 \<le> 15" "s1 mod 64 \<le> 63" "s2 mod 64 \<le> 63"
    by (simp_all add: less_Suc_eq_le [symmetric])
  have "push_bit 6 (s0 mod 32) OR (s1 mod 64) = s0 mod 32 * 64 + s1 mod 64" by (rule or_two) simp
  then show "push_bit 6 (s0 mod 32) OR (s1 mod 64) < 0x800" using m by linarith
  have "push_bit 12 (s0 mod 16) OR (push_bit 6 (s1 mod 64) OR (s2 mod 64))
      = s0 mod 16 * 4096 + s1 mod 64 * 64 + s2 mod 64" by (rule or_three) simp_all
  then show "push_bit 12 (s0 mod 16) OR (push_bit 6 (s1 mod 64) OR (s2 mod 64)) < 0x10000"
    using m by linarith
qed

lemma scalar_decision:
  assumes "0 < s0" and "c2 < 0x800" and "c3 < 0x10000"
  shows "scalar (fst (if s0 < 0x80 then (s0, 1::nat)
      else if b2 then (if c2 < 0x80 then (0xFFFD, 1) else (c2, 2))
      else if b3 then (if c3 < 0x800 \<or> (0xD800 \<le> c3 \<and> c3 \<le> 0xDFFF) then (0xFFFD, 1) else (c3, 3))
      else if b4 then (if c4 < 0x10000 \<or> 0x10FFFF < c4 then (0xFFFD, 1) else (c4, 4))
      else (0xFFFD, 1)))"
  using assms by (auto simp: scalar_def)

lemma utf8_decode1_scalar: "s ! 0 \<noteq> 0 \<Longrightarrow> scalar (fst (utf8_decode1 s))"
  unfolding utf8_decode1_arith Let_def by (rule scalar_decision) (auto intro: or_bounds)

subsection \<open>Whole strings\<close>

lemma rfc_utf8_not_Nil [simp]: "rfc_utf8 cp \<noteq> []"
  by (simp add: rfc_utf8_def)

lemma rfc_utf8_nonzero: "scalar cp \<Longrightarrow> 0 \<notin> set (rfc_utf8 cp)"
  by (auto simp: rfc_utf8_def scalar_def)

lemma length_rfc_utf16: "length (rfc_utf16 cp) = (if cp < 0x10000 then 1 else 2)"
  by (simp add: rfc_utf16_def)

text \<open>The surrogate pair the code writes is the one of the encoding form.\<close>

lemma surrogate_pair:
  "0xFFFF < cp \<Longrightarrow> [0xD800 + drop_bit 10 (cp - 0x10000), 0xDC00 + ((cp - 0x10000) AND 0x3FF)] = rfc_utf16 cp"
  by (simp add: rfc_utf16_def drop_bit_eq_div and_3FF)

lemma utf8_to_utf16_loop_step:
  assumes "s \<noteq> []" and "length out + 1 < cap" and "utf8_decode1 s = (cp, n)"
  shows "utf8_to_utf16_loop cap s out =
    (if cap \<le> length out + length (rfc_utf16 cp) then out
     else utf8_to_utf16_loop cap (drop n s) (out @ rfc_utf16 cp))"
proof (cases "cp \<le> 0xFFFF")
  case True
  with assms show ?thesis
    by (subst utf8_to_utf16_loop.simps) (simp add: rfc_utf16_def)
next
  case False
  then have "length (rfc_utf16 cp) = 2" by (simp add: rfc_utf16_def)
  with False assms surrogate_pair [of cp] show ?thesis
    by (subst utf8_to_utf16_loop.simps) (simp add: Let_def)
qed

text \<open>
  The scalar values a byte string stands for, ill-formed input replaced by U+FFFD: the decoder
  run over the whole string, without a destination buffer.
\<close>

function u8_scalars :: "nat list \<Rightarrow> nat list" where
  "u8_scalars s = (if s = [] then [] else fst (utf8_decode1 s) # u8_scalars (drop (snd (utf8_decode1 s)) s))"
  by pat_completeness auto
termination
  by (relation "measure length") (auto simp: utf8_decode1_consumes diff_less)

declare u8_scalars.simps [simp del]

lemma u8_scalars_scalar: "0 \<notin> set s \<Longrightarrow> \<forall>cp\<in>set (u8_scalars s). scalar cp"
proof (induction s rule: u8_scalars.induct)
  case (1 s)
  show ?case
  proof (cases "s = []")
    case True
    then show ?thesis by (simp add: u8_scalars.simps [of "[]"])
  next
    case False
    then have "s ! 0 \<noteq> 0" using "1.prems" by (metis length_greater_0_conv nth_mem)
    then have "scalar (fst (utf8_decode1 s))" by (rule utf8_decode1_scalar)
    moreover have "\<forall>cp\<in>set (u8_scalars (drop (snd (utf8_decode1 s)) s)). scalar cp"
      using "1.IH" [OF False] "1.prems" by (meson in_set_dropD)
    ultimately show ?thesis using False by (simp add: u8_scalars.simps [of s])
  qed
qed

lemma u8_scalars_utf8_of: "\<forall>cp\<in>set cps. scalar cp \<Longrightarrow> u8_scalars (utf8_of cps) = cps"
proof (induction cps)
  case Nil
  then show ?case by (simp add: u8_scalars.simps)
next
  case (Cons c cs)
  then have "utf8_decode1 (rfc_utf8 c @ utf8_of cs) = (c, length (rfc_utf8 c))"
    by (simp add: utf8_decode1_rfc)
  with Cons show ?case by (simp add: u8_scalars.simps [of "rfc_utf8 c @ utf8_of cs"])
qed

text \<open>The loop encodes a prefix of those scalar values, all of them when there is room.\<close>

lemma utf8_to_utf16_loop_prefix:
  "length out < cap \<Longrightarrow>
   \<exists>k \<le> length (u8_scalars s). utf8_to_utf16_loop cap s out = out @ utf16_of (take k (u8_scalars s)) \<and>
     length out + length (utf16_of (take k (u8_scalars s))) < cap \<and>
     (length out + length (utf16_of (u8_scalars s)) < cap \<longrightarrow> k = length (u8_scalars s))"
proof (induction s arbitrary: out rule: u8_scalars.induct)
  case (1 s)
  obtain cp n where d: "utf8_decode1 s = (cp, n)" by fastforce
  show ?case
  proof (cases "s = [] \<or> \<not> length out + 1 < cap")
    case True
    then have "utf8_to_utf16_loop cap s out = out" by (subst utf8_to_utf16_loop.simps) auto
    moreover have "u8_scalars s = []" if "length out + length (utf16_of (u8_scalars s)) < cap"
    proof (rule ccontr)
      assume "u8_scalars s \<noteq> []"
      then have "s \<noteq> []" and "1 \<le> length (utf16_of (u8_scalars s))"
        using d by (auto simp: u8_scalars.simps [of s] length_rfc_utf16 split: if_splits)
      with that True show False by simp
    qed
    ultimately show ?thesis using "1.prems" by (intro exI [of _ 0]) auto
  next
    case False
    then have us: "u8_scalars s = cp # u8_scalars (drop n s)" using d by (simp add: u8_scalars.simps [of s])
    note step = utf8_to_utf16_loop_step [OF _ _ d, of out cap]
    show ?thesis
    proof (cases "cap \<le> length out + length (rfc_utf16 cp)")
      case True
      with False step "1.prems" us show ?thesis by (intro exI [of _ 0]) auto
    next
      case room: False
      with "1.IH" [of "out @ rfc_utf16 cp"] False d obtain k where
        "k \<le> length (u8_scalars (drop n s))"
        "utf8_to_utf16_loop cap (drop n s) (out @ rfc_utf16 cp)
           = out @ rfc_utf16 cp @ utf16_of (take k (u8_scalars (drop n s)))"
        "length out + length (rfc_utf16 cp) + length (utf16_of (take k (u8_scalars (drop n s)))) < cap"
        "length out + length (rfc_utf16 cp) + length (utf16_of (u8_scalars (drop n s))) < cap \<longrightarrow>
           k = length (u8_scalars (drop n s))" by auto
      with False step room us show ?thesis by (intro exI [of _ "Suc k"]) auto
    qed
  qed
qed

subsection \<open>From UTF-16 back\<close>

text \<open>The scalar values of a terminated buffer, unpaired surrogates replaced by U+FFFD.\<close>

fun u16_scalars :: "nat list \<Rightarrow> nat list" where
  "u16_scalars [] = []"
| "u16_scalars [u] = (if u = 0 then [] else if 0xD800 \<le> u \<and> u \<le> 0xDFFF then [0xFFFD] else [u])"
| "u16_scalars (u # low # src) =
     (if u = 0 then []
      else if 0xD800 \<le> u \<and> u \<le> 0xDBFF \<and> 0xDC00 \<le> low \<and> low \<le> 0xDFFF
        then (0x10000 + ((u - 0xD800) * 1024 + (low - 0xDC00))) # u16_scalars src
      else if 0xD800 \<le> u \<and> u \<le> 0xDFFF then 0xFFFD # u16_scalars (low # src)
      else u # u16_scalars (low # src))"

lemma or_surrogates: "0xDC00 \<le> low \<Longrightarrow> low \<le> 0xDFFF \<Longrightarrow>
    push_bit 10 x OR (low - 0xDC00) = x * 1024 + (low - (0xDC00::nat))"
  using or_push_bit_low [of "low - 0xDC00" 10 x] by simp

lemma u16_scalars_scalar: "\<forall>u\<in>set src. u < 0x10000 \<Longrightarrow> \<forall>cp\<in>set (u16_scalars src). scalar cp"
  by (induction src rule: u16_scalars.induct) (auto simp: scalar_def)

lemma u16_scalars_utf16_of:
  "\<forall>cp\<in>set cps. scalar cp \<Longrightarrow> u16_scalars (utf16_of cps @ 0 # rest) = cps"
proof (induction cps)
  case Nil
  show ?case by (cases rest) simp_all
next
  case (Cons c cs)
  show ?case
  proof (cases "c < 0x10000")
    case True
    obtain x xs where "utf16_of cs @ 0 # rest = x # xs" by (cases "utf16_of cs @ 0 # rest") auto
    with True Cons show ?thesis by (auto simp: rfc_utf16_def scalar_def)
  next
    case False
    with Cons.prems have c: "0x10000 \<le> c" "c \<le> 0x10FFFF" by (auto simp: scalar_def)
    have m: "(c - 0x10000) mod 1024 < 1024" by simp
    have "(c - 0x10000) div 1024 < 1024" using c by (simp add: less_mult_imp_div_less)
    moreover have "0x10000 + ((c - 0x10000) div 1024 * 1024 + (c - 0x10000) mod 1024) = c"
      using c(1) by (simp add: div_mult_mod_eq)
    ultimately show ?thesis using False Cons m by (simp add: rfc_utf16_def)
  qed
qed

text \<open>One round of the loop, on a source that still has a unit and its successor.\<close>

lemma utf16_loop_nil [simp]: "utf16_to_utf8_loop cap (0 # src) out = Some out"
  by simp

lemma u16_scalars_nil [simp]: "u16_scalars (0 # src) = []"
  by (cases src) simp_all

lemma utf16_loop_step:
  assumes "u \<noteq> 0" and "\<forall>x\<in>set (u # low # src). x < 0x10000"
  shows "\<exists>cp rest. u16_scalars (u # low # src) = cp # u16_scalars rest \<and>
      length rest < length (u # low # src) \<and> set rest \<subseteq> set (low # src) \<and>
      (0 \<in> set (low # src) \<longrightarrow> 0 \<in> set rest) \<and>
      utf16_to_utf8_loop cap (u # low # src) out =
        (if cap \<le> length out + length (rfc_utf8 cp) then Some out
         else utf16_to_utf8_loop cap rest (out @ rfc_utf8 cp))"
proof -
  note unf = utf16_to_utf8_loop.simps(2) [of cap u "low # src" out] u16_scalars.simps(3) [of u low src]
  have enc: "utf8_encode1 0xFFFD = rfc_utf8 0xFFFD" by (rule utf8_encode1_rfc) simp
  consider (pair) "0xD800 \<le> u" "u \<le> 0xDBFF" "0xDC00 \<le> low" "low \<le> 0xDFFF"
    | (lone) "0xD800 \<le> u" "u \<le> 0xDFFF" "\<not> (u \<le> 0xDBFF \<and> 0xDC00 \<le> low \<and> low \<le> 0xDFFF)"
    | (bmp) "u < 0xD800 \<or> 0xDFFF < u" by linarith
  then show ?thesis
  proof cases
    case pair
    define cp where "cp = 0x10000 + ((u - 0xD800) * 1024 + (low - 0xDC00))"
    have "utf8_encode1 cp = rfc_utf8 cp" using pair by (intro utf8_encode1_rfc) (simp add: cp_def)
    with pair assms show ?thesis
      by (intro exI [of _ cp] exI [of _ src]) (auto simp: unf cp_def or_surrogates Let_def simp del: utf16_to_utf8_loop.simps u16_scalars.simps)
  next
    case lone
    with assms enc show ?thesis
      by (intro exI [of _ "0xFFFD"] exI [of _ "low # src"]) (auto simp: unf Let_def simp del: utf16_to_utf8_loop.simps u16_scalars.simps)
  next
    case bmp
    have "utf8_encode1 u = rfc_utf8 u" using assms by (intro utf8_encode1_rfc) simp
    with bmp assms show ?thesis
      by (intro exI [of _ u] exI [of _ "low # src"]) (auto simp: unf Let_def simp del: utf16_to_utf8_loop.simps u16_scalars.simps)
  qed
qed

lemma utf16_to_utf8_loop_prefix:
  "0 \<in> set src \<Longrightarrow> \<forall>u\<in>set src. u < 0x10000 \<Longrightarrow> length out < cap \<Longrightarrow>
   \<exists>k \<le> length (u16_scalars src). utf16_to_utf8_loop cap src out = Some (out @ utf8_of (take k (u16_scalars src))) \<and>
     length out + length (utf8_of (take k (u16_scalars src))) < cap \<and>
     (length out + length (utf8_of (u16_scalars src)) < cap \<longrightarrow> k = length (u16_scalars src))"
proof (induction "length src" arbitrary: src out rule: less_induct)
  case less
  show ?case
  proof (cases "src ! 0 = 0")
    case True
    with less.prems(1) obtain xs where "src = 0 # xs" by (cases src) auto
    with less.prems show ?thesis by simp
  next
    case False
    with less.prems(1) obtain u low xs where src: "src = u # low # xs" "u \<noteq> 0" "0 \<in> set (low # xs)"
      by (cases src; cases "tl src") auto
    from utf16_loop_step [of u low xs cap out] src less.prems(2) obtain cp rest where
      st: "u16_scalars src = cp # u16_scalars rest" "length rest < length src" "set rest \<subseteq> set (low # xs)"
        "0 \<in> set rest" "utf16_to_utf8_loop cap src out =
          (if cap \<le> length out + length (rfc_utf8 cp) then Some out
           else utf16_to_utf8_loop cap rest (out @ rfc_utf8 cp))" by auto
    show ?thesis
    proof (cases "cap \<le> length out + length (rfc_utf8 cp)")
      case True
      with st less.prems(3) show ?thesis by (intro exI [of _ 0]) auto
    next
      case room: False
      have "\<forall>u\<in>set rest. u < 0x10000" using st(3) src(1) less.prems(2) by auto
      with less.hyps [OF st(2,4), of "out @ rfc_utf8 cp"] room obtain k where
        "k \<le> length (u16_scalars rest)"
        "utf16_to_utf8_loop cap rest (out @ rfc_utf8 cp) = Some (out @ rfc_utf8 cp @ utf8_of (take k (u16_scalars rest)))"
        "length out + length (rfc_utf8 cp) + length (utf8_of (take k (u16_scalars rest))) < cap"
        "length out + length (rfc_utf8 cp) + length (utf8_of (u16_scalars rest)) < cap \<longrightarrow>
           k = length (u16_scalars rest)" by auto
      with st room show ?thesis by (intro exI [of _ "Suc k"]) auto
    qed
  qed
qed

text \<open>A unit needs at most three bytes; a pair of surrogates four.\<close>

lemma length_utf8_of_u16: "\<forall>u\<in>set src. u < 0x10000 \<Longrightarrow>
    length (utf8_of (u16_scalars src)) \<le> 3 * length (takeWhile (\<lambda>u. u \<noteq> 0) src)"
  by (induction src rule: u16_scalars.induct) (auto simp: rfc_utf8_def)

text \<open>On the encoding of a string the loop is the encoder, whatever follows the terminator.\<close>

lemma utf16_loop_utf16_of:
  assumes "\<forall>cp\<in>set cps. scalar cp" and "length out + length (utf8_of cps) < n"
  shows "utf16_to_utf8_loop n (utf16_of cps @ 0 # r) out = Some (out @ utf8_of cps)"
  using assms
proof (induction cps arbitrary: out)
  case Nil
  then show ?case by simp
next
  case (Cons c cs)
  have s: "scalar c" and room: "\<not> n \<le> length out + length (rfc_utf8 c)" using Cons.prems by auto
  have ih: "utf16_to_utf8_loop n (utf16_of cs @ 0 # r) (out @ rfc_utf8 c) = Some ((out @ rfc_utf8 c) @ utf8_of cs)"
    using Cons.prems by (intro Cons.IH) auto
  have enc: "utf8_encode1 c = rfc_utf8 c" using s by (intro utf8_encode1_rfc) (auto simp: scalar_def)
  show ?case
  proof (cases "c < 0x10000")
    case True
    with s enc room ih show ?thesis by (auto simp: rfc_utf16_def scalar_def Let_def)
  next
    case False
    define h where "h = (c - 0x10000) div 1024"
    define l where "l = (c - 0x10000) mod 1024"
    have hl: "h < 1024" "l < 1024" "0x10000 + (h * 1024 + l) = c"
      using False s by (auto simp: h_def l_def scalar_def less_mult_imp_div_less)
    then have "0x10000 + (push_bit 10 h OR l) = c" using or_push_bit_low [of l 10 h] by simp
    with False hl enc room ih show ?thesis
      by (simp add: rfc_utf16_def h_def [symmetric] l_def [symmetric] Let_def)
  qed
qed

subsection \<open>Properties\<close>

text \<open>
  C19.  Whatever bytes a JavaScript string converts to, \<open>utf8_to_utf16\<close> writes at most
  \<open>dst_capacity\<close> units, the last one the terminator, and what it writes is well-formed UTF-16:
  the encoding of a prefix of the string's scalar values (ill-formed sequences replaced by
  U+FFFD), the whole of them when the buffer is large enough.  Truncation never splits a
  surrogate pair.
\<close>

theorem utf8_to_utf16_wellformed:
  assumes "0 \<notin> set src" and "0 < cap"
  shows "\<exists>k \<le> length (u8_scalars src).
    utf8_to_utf16 src cap = utf16_of (take k (u8_scalars src)) @ [0] \<and>
    length (utf8_to_utf16 src cap) \<le> cap \<and> (\<forall>cp\<in>set (take k (u8_scalars src)). scalar cp) \<and>
    (length (utf16_of (u8_scalars src)) < cap \<longrightarrow> k = length (u8_scalars src))"
proof -
  from utf8_to_utf16_loop_prefix [of "[]" cap src] assms(2) obtain k where k: "k \<le> length (u8_scalars src)"
    "utf8_to_utf16_loop cap src [] = utf16_of (take k (u8_scalars src))"
    "length (utf16_of (take k (u8_scalars src))) < cap"
    "length (utf16_of (u8_scalars src)) < cap \<longrightarrow> k = length (u8_scalars src)" by auto
  moreover have "\<forall>cp\<in>set (take k (u8_scalars src)). scalar cp"
    using u8_scalars_scalar [OF assms(1)] by (meson in_set_takeD)
  ultimately show ?thesis using assms(2) by (auto simp: utf8_to_utf16_def)
qed

theorem utf8_to_utf16_wellformed_witness:
  "\<exists>k \<le> length (u8_scalars [0x41, 0xF0, 0x9F, 0x98, 0x80]).
    utf8_to_utf16 [0x41, 0xF0, 0x9F, 0x98, 0x80] 3 = utf16_of (take k (u8_scalars [0x41, 0xF0, 0x9F, 0x98, 0x80])) @ [0]
    \<and> length (utf8_to_utf16 [0x41, 0xF0, 0x9F, 0x98, 0x80] 3) \<le> 3"
  using utf8_to_utf16_wellformed [of "[0x41, 0xF0, 0x9F, 0x98, 0x80]" 3] by force

text \<open>
  C20.  Reading a terminated buffer of 16-bit units, \<open>utf16_to_utf8\<close> never reads past the
  terminator, writes at most \<open>dst_capacity\<close> bytes with the terminator last, and what it writes
  is well-formed UTF-8: the encoding of a prefix of the buffer's scalar values (unpaired
  surrogates replaced by U+FFFD), the whole of them when there is room.  Truncation never splits
  a multi-byte sequence.
\<close>

theorem utf16_to_utf8_wellformed:
  assumes "0 \<in> set src" and "\<forall>u\<in>set src. u < 0x10000" and "0 < cap"
  shows "\<exists>k \<le> length (u16_scalars src).
    utf16_to_utf8 src cap = Some (utf8_of (take k (u16_scalars src)) @ [0]) \<and>
    length (utf8_of (take k (u16_scalars src))) < cap \<and> (\<forall>cp\<in>set (take k (u16_scalars src)). scalar cp) \<and>
    (length (utf8_of (u16_scalars src)) < cap \<longrightarrow> k = length (u16_scalars src))"
proof -
  from utf16_to_utf8_loop_prefix [OF assms(1,2), of "[]" cap] assms(3) obtain k where
    "k \<le> length (u16_scalars src)"
    "utf16_to_utf8_loop cap src [] = Some (utf8_of (take k (u16_scalars src)))"
    "length (utf8_of (take k (u16_scalars src))) < cap"
    "length (utf8_of (u16_scalars src)) < cap \<longrightarrow> k = length (u16_scalars src)" by auto
  moreover have "\<forall>cp\<in>set (take k (u16_scalars src)). scalar cp"
    using u16_scalars_scalar [OF assms(2)] by (meson in_set_takeD)
  ultimately show ?thesis using assms(3) by (auto simp: utf16_to_utf8_def)
qed

theorem utf16_to_utf8_wellformed_witness:
  "\<exists>k \<le> length (u16_scalars [0xD83D, 0xDE00, 0x41, 0]).
    utf16_to_utf8 [0xD83D, 0xDE00, 0x41, 0] 4 = Some (utf8_of (take k (u16_scalars [0xD83D, 0xDE00, 0x41, 0])) @ [0])"
  using utf16_to_utf8_wellformed [of "[0xD83D, 0xDE00, 0x41, 0]" 4] by force

text \<open>
  C11.  The two conversions are inverse to each other on text: for a string of scalar values and
  buffers that hold its encodings, UTF-8 to UTF-16 and back is the identity, and so is UTF-16 to
  UTF-8 and back, whatever follows the terminator in the source buffer.
\<close>

theorem utf_conversions_roundtrip:
  assumes "\<forall>cp\<in>set cps. scalar cp" and "length (utf16_of cps) < m" and "length (utf8_of cps) < n"
  shows "utf16_to_utf8 (utf8_to_utf16 (utf8_of cps) m) n = Some (utf8_of cps @ [0]) \<and>
    map_option (\<lambda>bs. utf8_to_utf16 (butlast bs) m) (utf16_to_utf8 (utf16_of cps @ 0 # rest) n)
      = Some (utf16_of cps @ [0])"
proof -
  have there: "utf8_to_utf16 (utf8_of cps) m = utf16_of cps @ [0]"
    using utf8_to_utf16_loop_prefix [of "[]" m "utf8_of cps"] assms(1,2)
    by (auto simp: utf8_to_utf16_def u8_scalars_utf8_of)
  have bck: "utf16_to_utf8 (utf16_of cps @ 0 # r) n = Some (utf8_of cps @ [0])" for r
  proof -
    from utf16_loop_utf16_of [OF assms(1), of "[]" n r] assms(3) show ?thesis by (auto simp: utf16_to_utf8_def)
  qed
  show ?thesis using there bck [of "[]"] bck [of rest] by simp
qed

theorem utf_conversions_roundtrip_witness:
  "utf16_to_utf8 (utf8_to_utf16 (utf8_of [0x41, 0x1F600]) 8) 8 = Some (utf8_of [0x41, 0x1F600] @ [0])"
  using utf_conversions_roundtrip [of "[0x41, 0x1F600]" 8 8]
  by (simp add: scalar_def rfc_utf16_def rfc_utf8_def)

end
