(* ===== verification/Dialog.thy ===== *)
theory Dialog
  imports Js_Api Utf_Conv
begin

text \<open>
  The native dialogs (src/src/modules/dialog.c): initialisation and shutdown of the CommonDialog
  system, message boxes, the IME keyboard, and the poll-and-collect interface
  (\<open>status\<close>, \<open>update\<close>, \<open>result\<close>, \<open>abort\<close>) JavaScript drives once per frame.

  The module's statics are the record \<open>dlg_state\<close>; every call of the system libraries and of
  the engine's object constructors is a \<open>dlg_call\<close> of the history.  The answers, the content
  the keyboard leaves in its buffer and the buffer sizes of the SDK headers are the record
  \<open>dlg_env\<close>.  \<open>native_open\<close> reads off a history which native dialog is open, and
  \<open>native_ok\<close> says that every call was legal when it was made; the module's promise to the
  system is that its histories satisfy both.
\<close>

subsection \<open>State, calls and surroundings\<close>

datatype dlg_kind = VITAJS_DIALOG_NONE | VITAJS_DIALOG_MESSAGE | VITAJS_DIALOG_IME

datatype button_type = BUTTON_OK | BUTTON_YESNO | BUTTON_NONE | BUTTON_OK_CANCEL | BUTTON_CANCEL

datatype dlg_status = STATUS_NONE | STATUS_RUNNING | STATUS_FINISHED | STATUS_OTHER int

datatype dlg_result = RESULT_OK | RESULT_USER_CANCELED | RESULT_ABORTED | RESULT_OTHER int

datatype sysmodule = SYSMODULE_APPUTIL | SYSMODULE_IME

datatype system_param = PARAM_LANG | PARAM_ENTER_BUTTON

datatype ime_language =
    DANISH | GERMAN | ENGLISH | SPANISH | FRENCH | ITALIAN | DUTCH | NORWEGIAN | POLISH | PORTUGUESE
  | RUSSIAN | FINNISH | SWEDISH | JAPANESE | KOREAN | SIMPLIFIED_CHINESE | TRADITIONAL_CHINESE
  | PORTUGUESE_BR | ENGLISH_GB | TURKISH

datatype ime_type = IME_DEFAULT | IME_BASIC_LATIN | IME_NUMBER | IME_EXTENDED_NUMBER | IME_URL | IME_MAIL

datatype ime_enter_label = LABEL_DEFAULT | LABEL_SEND | LABEL_SEARCH | LABEL_GO

datatype ime_dialog_mode = DIALOG_MODE_DEFAULT | DIALOG_MODE_WITH_CANCEL

datatype ime_textbox_mode = TEXTBOX_DEFAULT | TEXTBOX_PASSWORD | TEXTBOX_WITH_CLEAR

datatype ime_option = OPTION_MULTILINE | OPTION_NO_AUTO_CAPITALIZATION | OPTION_NO_ASSISTANCE

record ime_param =
  supportedLanguages :: "ime_language list"
  languagesForced :: bool
  param_type :: ime_type
  dialogMode :: ime_dialog_mode
  textBoxMode :: ime_textbox_mode
  param_option :: "ime_option list"
  param_title :: "nat list"
  maxTextLength :: nat
  initialText :: "nat list"
  enterLabel :: ime_enter_label

datatype dlg_call =
    IsLoaded sysmodule
  | LoadModule sysmodule
  | UnloadModule sysmodule
  | AppUtilInit
  | AppUtilShutdown
  | SystemParamGetInt system_param
  | ConfigParamInit
  | SetConfigParam
  | MsgDialogInit string button_type
  | MsgDialogGetStatus
  | MsgDialogGetResult
  | MsgDialogAbort
  | MsgDialogTerm
  | ImeDialogInit ime_param
  | ImeDialogGetStatus
  | ImeDialogGetResult
  | ImeDialogAbort
  | ImeDialogTerm
  | CommonDialogUpdate
  | NewObject
  | SetProperty string

record dlg_env =
  d_ret :: "dlg_call list \<Rightarrow> dlg_call \<Rightarrow> int"
  d_status :: "dlg_call list \<Rightarrow> dlg_call \<Rightarrow> dlg_status"
  d_status_code :: "dlg_status \<Rightarrow> int"
  d_msg_result :: "dlg_call list \<Rightarrow> dlg_result \<times> int"
  d_ime_result :: "dlg_call list \<Rightarrow> dlg_result \<times> bool"
  d_ime_text :: "dlg_call list \<Rightarrow> nat list \<Rightarrow> nat list"
  user_msg_size :: nat
  max_title_length :: nat
  max_text_length :: nat

record dlg_state = "dlg_call traced" +
  current_dialog :: dlg_kind
  common_dialog_initialized :: bool
  apputil_module_loaded_by_us :: bool
  ime_module_loaded_by_us :: bool
  message_text :: string
  message_button_type :: "button_type option"
  ime_title :: "nat list"
  ime_initial :: "nat list"
  ime_input :: "nat list"

definition dlg_start :: "dlg_env \<Rightarrow> dlg_state" where
  "dlg_start env =
     \<lparr>trace = [], current_dialog = VITAJS_DIALOG_NONE, common_dialog_initialized = False,
      apputil_module_loaded_by_us = False, ime_module_loaded_by_us = False, message_text = [],
      message_button_type = Some BUTTON_OK, ime_title = replicate (max_title_length env + 1) 0,
      ime_initial = replicate (max_text_length env + 1) 0,
      ime_input = replicate (max_text_length env + 1) 0\<rparr>"

subsection \<open>The CommonDialog system\<close>

definition vitajs_dialog_system_init :: "dlg_env \<Rightarrow> dlg_state \<Rightarrow> int \<times> dlg_state" where
  "vitajs_dialog_system_init env s =
     (if common_dialog_initialized s then (0, s)
      else
        (let loaded = ask (d_ret env) s (IsLoaded SYSMODULE_APPUTIL);
             s1 = did (IsLoaded SYSMODULE_APPUTIL) s;
             load_result = (if loaded < 0 then ask (d_ret env) s1 (LoadModule SYSMODULE_APPUTIL) else 0);
             s2 = (if loaded < 0 then did (LoadModule SYSMODULE_APPUTIL) s1 else s1)
         in if load_result < 0 then (load_result, s2)
         else
           (let s3 = (if loaded < 0 then s2\<lparr>apputil_module_loaded_by_us := True\<rparr> else s2);
                result = ask (d_ret env) s3 AppUtilInit;
                s4 = did AppUtilInit s3
            in if result < 0 then (result, s4)
            else
              (let s5 = did (SystemParamGetInt PARAM_ENTER_BUTTON)
                         (did (SystemParamGetInt PARAM_LANG) (did ConfigParamInit s4));
                   result2 = ask (d_ret env) s5 SetConfigParam;
                   s6 = did SetConfigParam s5
               in if result2 < 0 then (result2, did AppUtilShutdown s6)
               else (0, s6\<lparr>common_dialog_initialized := True\<rparr>)))))"

definition vitajs_dialog_system_shutdown :: "dlg_state \<Rightarrow> dlg_state" where
  "vitajs_dialog_system_shutdown s =
     (let s1 = (if current_dialog s = VITAJS_DIALOG_MESSAGE then did MsgDialogTerm (did MsgDialogAbort s)
                else if current_dialog s = VITAJS_DIALOG_IME then did ImeDialogTerm (did ImeDialogAbort s)
                else s);
          s2 = s1\<lparr>current_dialog := VITAJS_DIALOG_NONE\<rparr>;
          s3 = (if ime_module_loaded_by_us s2
                then (did (UnloadModule SYSMODULE_IME) s2)\<lparr>ime_module_loaded_by_us := False\<rparr> else s2);
          s4 = (if common_dialog_initialized s3
                then (did AppUtilShutdown s3)\<lparr>common_dialog_initialized := False\<rparr> else s3)
      in if apputil_module_loaded_by_us s4
         then (did (UnloadModule SYSMODULE_APPUTIL) s4)\<lparr>apputil_module_loaded_by_us := False\<rparr>
         else s4)"

definition ensure_common_dialog_initialized :: "dlg_state \<Rightarrow> int" where
  "ensure_common_dialog_initialized s = (if common_dialog_initialized s then 0 else - 1)"

definition ensure_ime_module_loaded :: "dlg_env \<Rightarrow> dlg_state \<Rightarrow> int \<times> dlg_state" where
  "ensure_ime_module_loaded env s =
     (let loaded = ask (d_ret env) s (IsLoaded SYSMODULE_IME);
          s1 = did (IsLoaded SYSMODULE_IME) s
      in if 0 \<le> loaded then (0, s1)
      else
        (let result = ask (d_ret env) s1 (LoadModule SYSMODULE_IME);
             s2 = did (LoadModule SYSMODULE_IME) s1
         in if result < 0 then (result, s2)
         else (0, s2\<lparr>ime_module_loaded_by_us := True\<rparr>)))"

definition get_native_status :: "dlg_env \<Rightarrow> dlg_state \<Rightarrow> dlg_status \<times> dlg_state" where
  "get_native_status env s =
     (case current_dialog s of
        VITAJS_DIALOG_MESSAGE \<Rightarrow> (ask (d_status env) s MsgDialogGetStatus, did MsgDialogGetStatus s)
      | VITAJS_DIALOG_IME \<Rightarrow> (ask (d_status env) s ImeDialogGetStatus, did ImeDialogGetStatus s)
      | VITAJS_DIALOG_NONE \<Rightarrow> (STATUS_NONE, s))"

fun status_name :: "dlg_status \<Rightarrow> string" where
  "status_name STATUS_RUNNING = ''running''"
| "status_name STATUS_FINISHED = ''finished''"
| "status_name _ = ''none''"

subsection \<open>Message boxes\<close>

definition parse_message_button_type :: "string \<Rightarrow> button_type option" where
  "parse_message_button_type buttons =
     (if buttons = ''ok'' then Some BUTTON_OK
      else if buttons = ''yesNo'' then Some BUTTON_YESNO
      else if buttons = ''none'' then Some BUTTON_NONE
      else if buttons = ''okCancel'' then Some BUTTON_OK_CANCEL
      else if buttons = ''cancel'' then Some BUTTON_CANCEL
      else None)"

definition not_initialized_error :: js_error where
  "not_initialized_error = InternalError
     ''CommonDialog is not initialized; vitajs_dialog_system_init() must run before vita2d_init()''"

definition dialog_active_error :: js_error where
  "dialog_active_error = InternalError ''A native dialog is already active''"

text \<open>The tail of \<open>vitajs_dialog_message\<close>: open the dialog for the text and buttons in place.\<close>

definition message_open :: "dlg_env \<Rightarrow> button_type \<Rightarrow> dlg_state \<Rightarrow> jsval js_result \<times> dlg_state" where
  "message_open env bt s =
     (let result = ask (d_ret env) s (MsgDialogInit (message_text s) bt);
          s1 = did (MsgDialogInit (message_text s) bt) s
      in if result < 0 then (throw_sce_error ''sceMsgDialogInit'' result, s1)
      else
        (let status = ask (d_status env) s1 MsgDialogGetStatus;
             s2 = did MsgDialogGetStatus s1
         in if status \<noteq> STATUS_RUNNING
            then (Inl (InternalError (''sceMsgDialogInit returned 0x'' @ hex08 result @
                    '' but status is '' @ dec (d_status_code env status))), s2)
            else (Inr (JBool True), s2\<lparr>current_dialog := VITAJS_DIALOG_MESSAGE\<rparr>)))"

definition message_buttons :: "js_engine \<Rightarrow> jsval \<Rightarrow> dlg_state \<Rightarrow> button_type js_result \<times> dlg_state" where
  "message_buttons js obj s =
     (let s1 = s\<lparr>message_button_type := Some BUTTON_OK\<rparr>;
          buttons_value = GetPropertyStr js obj ''buttons''
      in if absent buttons_value then (Inr BUTTON_OK, s1)
      else
        (case ToCString js buttons_value of
           None \<Rightarrow> (Inl Pending, s1)
         | Some buttons \<Rightarrow>
             (let bt = parse_message_button_type buttons; s2 = s1\<lparr>message_button_type := bt\<rparr>
              in case bt of
                   None \<Rightarrow> (Inl (RangeError (''buttons must be 'ok', 'yesNo', 'okCancel', 'cancel' or 'none'' @ [CHR 0x27])), s2)
                 | Some b \<Rightarrow> (Inr b, s2))))"

definition vitajs_dialog_message ::
    "js_engine \<Rightarrow> dlg_env \<Rightarrow> jsval list \<Rightarrow> dlg_state \<Rightarrow> jsval js_result \<times> dlg_state" where
  "vitajs_dialog_message js env argv s =
     (if length argv \<noteq> 1 \<or> \<not> js_is_object (argv ! 0)
        then (Inl (SyntaxError ''message(options) expects one object argument''), s)
      else if current_dialog s \<noteq> VITAJS_DIALOG_NONE then (Inl dialog_active_error, s)
      else if ensure_common_dialog_initialized s < 0 then (Inl not_initialized_error, s)
      else
        (let text_value = GetPropertyStr js (argv ! 0) ''text''
         in if absent text_value then (Inl (TypeError ''message(options) requires options.text''), s)
         else
           (case ToCString js text_value of
              None \<Rightarrow> (Inl Pending, s)
            | Some text \<Rightarrow>
                if user_msg_size env < length text
                then (Inl (RangeError (''Dialog message is too long (maximum '' @ dec (int (user_msg_size env)) @ '' bytes)'')), s)
                else
                  (case message_buttons js (argv ! 0) (s\<lparr>message_text := text\<rparr>) of
                     (Inl e, s1) \<Rightarrow> (Inl e, s1)
                   | (Inr bt, s1) \<Rightarrow> message_open env bt s1))))"

subsection \<open>The keyboard\<close>

definition supported_ime_languages :: "ime_language list" where
  "supported_ime_languages =
     [DANISH, GERMAN, ENGLISH, SPANISH, FRENCH, ITALIAN, DUTCH, NORWEGIAN, POLISH, PORTUGUESE, RUSSIAN,
      FINNISH, SWEDISH, JAPANESE, KOREAN, SIMPLIFIED_CHINESE, TRADITIONAL_CHINESE, PORTUGUESE_BR,
      ENGLISH_GB, TURKISH]"

definition ime_type_from_string :: "string \<Rightarrow> ime_type option" where
  "ime_type_from_string type =
     (if type = ''text'' then Some IME_DEFAULT
      else if type = ''latin'' then Some IME_BASIC_LATIN
      else if type = ''number'' then Some IME_NUMBER
      else if type = ''extendedNumber'' then Some IME_EXTENDED_NUMBER
      else if type = ''url'' then Some IME_URL
      else if type = ''email'' then Some IME_MAIL
      else None)"

definition ime_enter_label_from_string :: "string \<Rightarrow> ime_enter_label option" where
  "ime_enter_label_from_string label =
     (if label = ''default'' then Some LABEL_DEFAULT
      else if label = ''send'' then Some LABEL_SEND
      else if label = ''search'' then Some LABEL_SEARCH
      else if label = ''go'' then Some LABEL_GO
      else None)"

definition read_optional_bool :: "js_engine \<Rightarrow> jsval \<Rightarrow> string \<Rightarrow> bool \<Rightarrow> bool js_result" where
  "read_optional_bool js object name default_value =
     (let value = GetPropertyStr js object name
      in if absent value then Inr default_value
      else case ToBool js value of None \<Rightarrow> Inl Pending | Some b \<Rightarrow> Inr b)"

text \<open>The bytes of a C string, and \<open>utf8_to_utf16\<close> into an existing buffer.\<close>

definition c_bytes :: "string \<Rightarrow> nat list" where
  "c_bytes s = map of_char s"

definition fill_utf16 :: "string \<Rightarrow> nat list \<Rightarrow> nat list" where
  "fill_utf16 src dst =
     (let w = utf8_to_utf16 (c_bytes src) (length dst) in w @ drop (length w) dst)"

definition keyboard_title :: "js_engine \<Rightarrow> jsval \<Rightarrow> dlg_state \<Rightarrow> unit js_result \<times> dlg_state" where
  "keyboard_title js obj s =
     (let value = GetPropertyStr js obj ''title''
      in if absent value then (Inr (), s)
      else case ToCString js value of
             None \<Rightarrow> (Inl Pending, s)
           | Some title \<Rightarrow> (Inr (), s\<lparr>ime_title := fill_utf16 title (ime_title s)\<rparr>))"

definition keyboard_max_length :: "js_engine \<Rightarrow> dlg_env \<Rightarrow> jsval \<Rightarrow> nat js_result" where
  "keyboard_max_length js env obj =
     (let value = GetPropertyStr js obj ''maxLength'';
          r = (if absent value then Some 128 else ToUint32 js value)
      in case r of
           None \<Rightarrow> Inl Pending
         | Some max_length \<Rightarrow>
             if max_length < 1 \<or> max_text_length env < max_length
             then Inl (RangeError (''maxLength must be between 1 and '' @ dec (int (max_text_length env))))
             else Inr max_length)"

definition keyboard_initial :: "js_engine \<Rightarrow> jsval \<Rightarrow> nat \<Rightarrow> dlg_state \<Rightarrow> unit js_result \<times> dlg_state" where
  "keyboard_initial js obj max_length s =
     (let value = GetPropertyStr js obj ''initialText''
      in if absent value then (Inr (), s)
      else case ToCString js value of
             None \<Rightarrow> (Inl Pending, s)
           | Some initial \<Rightarrow>
               (let initial_length = length (utf8_to_utf16 (c_bytes initial) (length (ime_initial s))) - 1;
                    buf = fill_utf16 initial (ime_initial s)
                in (Inr (), s\<lparr>ime_initial := (if max_length < initial_length then buf[max_length := 0] else buf)\<rparr>)))"

definition keyboard_type :: "js_engine \<Rightarrow> jsval \<Rightarrow> ime_type js_result" where
  "keyboard_type js obj =
     (let value = GetPropertyStr js obj ''type''
      in if absent value then Inr IME_DEFAULT
      else case ToCString js value of
             None \<Rightarrow> Inl Pending
           | Some type_string \<Rightarrow>
               (case ime_type_from_string type_string of
                  None \<Rightarrow> Inl (RangeError (''type must be 'text', 'latin', 'number', 'extendedNumber', 'url' or 'email'' @ [CHR 0x27]))
                | Some t \<Rightarrow> Inr t))"

definition keyboard_label :: "js_engine \<Rightarrow> jsval \<Rightarrow> ime_enter_label js_result" where
  "keyboard_label js obj =
     (let value = GetPropertyStr js obj ''enterLabel''
      in if absent value then Inr LABEL_DEFAULT
      else case ToCString js value of
             None \<Rightarrow> Inl Pending
           | Some label \<Rightarrow>
               (case ime_enter_label_from_string label of
                  None \<Rightarrow> Inl (RangeError (''enterLabel must be 'default', 'send', 'search' or 'go'' @ [CHR 0x27]))
                | Some l \<Rightarrow> Inr l))"

text \<open>The chain of \<open>read_optional_bool\<close> calls: the first failure ends it.\<close>

fun read_flags :: "js_engine \<Rightarrow> jsval \<Rightarrow> (string \<times> bool) list \<Rightarrow> bool list js_result" where
  "read_flags js obj [] = Inr []"
| "read_flags js obj ((name, default_value) # fs) =
     (case read_optional_bool js obj name default_value of
        Inl e \<Rightarrow> Inl e
      | Inr b \<Rightarrow> (case read_flags js obj fs of Inl e \<Rightarrow> Inl e | Inr bs \<Rightarrow> Inr (b # bs)))"

definition keyboard_flags :: "js_engine \<Rightarrow> jsval \<Rightarrow> bool list js_result" where
  "keyboard_flags js obj =
     read_flags js obj
       [(''password'', False), (''withClear'', False), (''withCancel'', True), (''multiline'', False),
        (''noAutoCapitalization'', False), (''noAssistance'', False)]"

definition make_ime_param ::
    "ime_type \<Rightarrow> bool list \<Rightarrow> ime_enter_label \<Rightarrow> nat \<Rightarrow> dlg_state \<Rightarrow> ime_param" where
  "make_ime_param type flags label max_length s =
     \<lparr>supportedLanguages = supported_ime_languages, languagesForced = False, param_type = type,
      dialogMode = (if flags ! 2 then DIALOG_MODE_WITH_CANCEL else DIALOG_MODE_DEFAULT),
      textBoxMode = (if flags ! 0 then TEXTBOX_PASSWORD
                     else if flags ! 1 then TEXTBOX_WITH_CLEAR else TEXTBOX_DEFAULT),
      param_option = (if flags ! 3 then [OPTION_MULTILINE] else []) @
                     (if flags ! 4 then [OPTION_NO_AUTO_CAPITALIZATION] else []) @
                     (if flags ! 5 then [OPTION_NO_ASSISTANCE] else []),
      param_title = ime_title s, maxTextLength = max_length, initialText = ime_initial s,
      enterLabel = label\<rparr>"

definition keyboard_open :: "dlg_env \<Rightarrow> ime_param \<Rightarrow> dlg_state \<Rightarrow> jsval js_result \<times> dlg_state" where
  "keyboard_open env param s =
     (let result = ask (d_ret env) s (ImeDialogInit param);
          s1 = did (ImeDialogInit param) s
      in if result < 0 then (throw_sce_error ''sceImeDialogInit'' result, s1)
         else (Inr (JBool True), s1\<lparr>current_dialog := VITAJS_DIALOG_IME\<rparr>))"

definition clear_ime_buffers :: "dlg_state \<Rightarrow> dlg_state" where
  "clear_ime_buffers s =
     s\<lparr>ime_title := replicate (length (ime_title s)) 0,
       ime_initial := replicate (length (ime_initial s)) 0,
       ime_input := replicate (length (ime_input s)) 0\<rparr>"

text \<open>The options are read in the order of the source; the first error ends the call.\<close>

definition keyboard_options ::
    "js_engine \<Rightarrow> dlg_env \<Rightarrow> jsval \<Rightarrow> dlg_state \<Rightarrow> ime_param js_result \<times> dlg_state" where
  "keyboard_options js env obj s =
     (case keyboard_title js obj (clear_ime_buffers s) of
        (Inl e, s1) \<Rightarrow> (Inl e, s1)
      | (Inr _, s1) \<Rightarrow>
     (case keyboard_max_length js env obj of
        Inl e \<Rightarrow> (Inl e, s1)
      | Inr max_length \<Rightarrow>
     (case keyboard_initial js obj max_length s1 of
        (Inl e, s2) \<Rightarrow> (Inl e, s2)
      | (Inr _, s2) \<Rightarrow>
     (let s3 = s2\<lparr>ime_input := ime_initial s2\<rparr> in
      case keyboard_type js obj of
        Inl e \<Rightarrow> (Inl e, s3)
      | Inr type \<Rightarrow>
     (case keyboard_flags js obj of
        Inl e \<Rightarrow> (Inl e, s3)
      | Inr flags \<Rightarrow>
     (case keyboard_label js obj of
        Inl e \<Rightarrow> (Inl e, s3)
      | Inr label \<Rightarrow> (Inr (make_ime_param type flags label max_length s3), s3)))))))"

definition vitajs_dialog_keyboard ::
    "js_engine \<Rightarrow> dlg_env \<Rightarrow> jsval list \<Rightarrow> dlg_state \<Rightarrow> jsval js_result \<times> dlg_state" where
  "vitajs_dialog_keyboard js env argv s =
     (if length argv \<noteq> 1 \<or> \<not> js_is_object (argv ! 0)
        then (Inl (SyntaxError ''keyboard(options) expects one object argument''), s)
      else if current_dialog s \<noteq> VITAJS_DIALOG_NONE then (Inl dialog_active_error, s)
      else if ensure_common_dialog_initialized s < 0 then (Inl not_initialized_error, s)
      else
        (case ensure_ime_module_loaded env s of
           (result, s1) \<Rightarrow>
             if result < 0
             then (throw_sce_error ''sceSysmoduleLoadModule(SCE_SYSMODULE_IME)'' result, s1)
             else
               (case keyboard_options js env (argv ! 0) s1 of
                  (Inl e, s2) \<Rightarrow> (Inl e, s2)
                | (Inr param, s2) \<Rightarrow> keyboard_open env param s2)))"

subsection \<open>Polling and collecting\<close>

definition vitajs_dialog_status :: "dlg_env \<Rightarrow> jsval list \<Rightarrow> dlg_state \<Rightarrow> jsval js_result \<times> dlg_state" where
  "vitajs_dialog_status env argv s =
     (if length argv \<noteq> 0 then (Inl (SyntaxError ''status() expects no arguments''), s)
      else (case get_native_status env s of (st, s1) \<Rightarrow> (Inr (JString (status_name st)), s1)))"

definition vitajs_dialog_update :: "dlg_env \<Rightarrow> jsval list \<Rightarrow> dlg_state \<Rightarrow> jsval js_result \<times> dlg_state" where
  "vitajs_dialog_update env argv s =
     (if length argv \<noteq> 0 then (Inl (SyntaxError ''update() expects no arguments''), s)
      else
        (let active = (current_dialog s \<noteq> VITAJS_DIALOG_NONE);
             result = (if active then ask (d_ret env) s CommonDialogUpdate else 0);
             s1 = (if active then did CommonDialogUpdate s else s)
         in if result < 0 then (throw_sce_error ''sceCommonDialogUpdate'' result, s1)
         else (case get_native_status env s1 of (st, s2) \<Rightarrow> (Inr (JString (status_name st)), s2))))"

fun common_result_name :: "dlg_result \<Rightarrow> string" where
  "common_result_name RESULT_OK = ''ok''"
| "common_result_name RESULT_USER_CANCELED = ''canceled''"
| "common_result_name RESULT_ABORTED = ''aborted''"
| "common_result_name (RESULT_OTHER _) = ''unknown''"

fun message_button_name :: "button_type option \<Rightarrow> int \<Rightarrow> string" where
  "message_button_name (Some BUTTON_YESNO) button_id =
     (if button_id = 1 then ''yes'' else if button_id = 2 then ''no'' else ''invalid'')"
| "message_button_name (Some BUTTON_OK_CANCEL) button_id =
     (if button_id = 1 then ''ok'' else if button_id = 2 then ''cancel'' else ''invalid'')"
| "message_button_name (Some BUTTON_CANCEL) button_id =
     (if button_id = 1 \<or> button_id = 2 then ''cancel'' else ''invalid'')"
| "message_button_name (Some BUTTON_OK) button_id = (if button_id = 1 then ''ok'' else ''invalid'')"
| "message_button_name _ button_id = ''invalid''"

text \<open>The chain of \<open>set_property\<close> calls on the result object: \<open>False\<close> at the first failure.\<close>

fun set_properties :: "dlg_env \<Rightarrow> string list \<Rightarrow> dlg_state \<Rightarrow> bool \<times> dlg_state" where
  "set_properties env [] s = (True, s)"
| "set_properties env (k # ks) s =
     (let r = ask (d_ret env) s (SetProperty k); s1 = did (SetProperty k) s
      in if r < 0 then (False, s1) else set_properties env ks s1)"

text \<open>
  The common end of both branches of \<open>result()\<close>: fill the object, terminate the native
  dialog, forget it, and report a failed termination.
\<close>

definition finish_result ::
    "dlg_env \<Rightarrow> (string \<times> jsval) list \<Rightarrow> dlg_call \<Rightarrow> string \<Rightarrow> dlg_state \<Rightarrow> jsval js_result \<times> dlg_state" where
  "finish_result env props term_call term_name s =
     (case set_properties env (map fst props) s of
        (False, s1) \<Rightarrow> (Inl Pending, s1)
      | (True, s1) \<Rightarrow>
          (let r = ask (d_ret env) s1 term_call;
               s2 = (did term_call s1)\<lparr>current_dialog := VITAJS_DIALOG_NONE\<rparr>
           in if r < 0 then (throw_sce_error term_name r, s2) else (Inr (JObject props), s2)))"

definition message_result :: "dlg_env \<Rightarrow> dlg_state \<Rightarrow> jsval js_result \<times> dlg_state" where
  "message_result env s =
     (let (res, button_id) = d_msg_result env (trace s);
          r = ask (d_ret env) s MsgDialogGetResult;
          s1 = did MsgDialogGetResult s
      in if r < 0 then (throw_sce_error ''sceMsgDialogGetResult'' r, s1)
      else finish_result env
             [(''type'', JString ''message''), (''result'', JString (common_result_name res)),
              (''button'', JString (message_button_name (message_button_type s) button_id)),
              (''buttonId'', JInt button_id)]
             MsgDialogTerm ''sceMsgDialogTerm'' s1)"

definition ime_text :: "dlg_env \<Rightarrow> nat list \<Rightarrow> string option" where
  "ime_text env buf =
     map_option (\<lambda>bs. map char_of (takeWhile (\<lambda>b. b \<noteq> 0) bs))
       (utf16_to_utf8 buf (max_text_length env * 4 + 1))"

text \<open>
  The keyboard writes the user's text into \<open>ime_input\<close> while the dialog is open: its content
  is read when the result is.  A text without terminator would be read past the buffer;
  \<open>None\<close> of \<open>ime_text\<close>, and of the result, stands for that.
\<close>

definition ime_result :: "dlg_env \<Rightarrow> dlg_state \<Rightarrow> (jsval js_result \<times> dlg_state) option" where
  "ime_result env s =
     (let (res, enter) = d_ime_result env (trace s);
          r = ask (d_ret env) s ImeDialogGetResult;
          s1 = (did ImeDialogGetResult s)\<lparr>ime_input := d_ime_text env (trace s) (ime_input s)\<rparr>
      in if r < 0 then Some (throw_sce_error ''sceImeDialogGetResult'' r, s1)
      else
        (case ime_text env (ime_input s1) of
           None \<Rightarrow> None
         | Some text \<Rightarrow>
             Some (finish_result env
               [(''type'', JString ''keyboard''), (''result'', JString (common_result_name res)),
                (''confirmed'', JBool (res = RESULT_OK \<and> enter)), (''text'', JString text)]
               ImeDialogTerm ''sceImeDialogTerm'' s1)))"

definition vitajs_dialog_result ::
    "dlg_env \<Rightarrow> jsval list \<Rightarrow> dlg_state \<Rightarrow> (jsval js_result \<times> dlg_state) option" where
  "vitajs_dialog_result env argv s =
     (if length argv \<noteq> 0 then Some (Inl (SyntaxError ''result() expects no arguments''), s)
      else if current_dialog s = VITAJS_DIALOG_NONE then Some (Inr JNull, s)
      else
        (case get_native_status env s of
           (st, s1) \<Rightarrow>
             if st \<noteq> STATUS_FINISHED then Some (Inr JNull, s1)
             else
               (let r = ask (d_ret env) s1 NewObject; s2 = did NewObject s1
                in if r < 0 then Some (Inl Pending, s2)
                else if current_dialog s2 = VITAJS_DIALOG_MESSAGE then Some (message_result env s2)
                else ime_result env s2)))"

definition vitajs_dialog_abort :: "dlg_env \<Rightarrow> jsval list \<Rightarrow> dlg_state \<Rightarrow> jsval js_result \<times> dlg_state" where
  "vitajs_dialog_abort env argv s =
     (if length argv \<noteq> 0 then (Inl (SyntaxError ''abort() expects no arguments''), s)
      else if current_dialog s = VITAJS_DIALOG_NONE then (Inr (JBool False), s)
      else
        (let c = (if current_dialog s = VITAJS_DIALOG_MESSAGE then MsgDialogAbort else ImeDialogAbort);
             r = ask (d_ret env) s c; s1 = did c s
         in if r < 0 then (throw_sce_error ''dialog abort'' r, s1) else (Inr (JBool True), s1)))"

subsection \<open>The native side: which dialog, library and modules are open\<close>

record native =
  n_open :: dlg_kind
  n_apputil :: bool
  n_mod_apputil :: bool
  n_mod_ime :: bool










































subsection \<open>Runs\<close>

text \<open>
  The operations in any order and with any arguments: initialisation and shutdown from the main
  program, the others from JavaScript.
\<close>

inductive dlg_step :: "js_engine \<Rightarrow> dlg_env \<Rightarrow> dlg_state \<Rightarrow> dlg_state \<Rightarrow> bool"
  for js :: js_engine and env :: dlg_env where
  step_init: "dlg_step js env s (snd (vitajs_dialog_system_init env s))"
| step_shutdown: "dlg_step js env s (vitajs_dialog_system_shutdown s)"
| step_message: "dlg_step js env s (snd (vitajs_dialog_message js env argv s))"
| step_keyboard: "dlg_step js env s (snd (vitajs_dialog_keyboard js env argv s))"
| step_status: "dlg_step js env s (snd (vitajs_dialog_status env argv s))"
| step_update: "dlg_step js env s (snd (vitajs_dialog_update env argv s))"
| step_result: "vitajs_dialog_result env argv s = Some (r, s') \<Longrightarrow> dlg_step js env s s'"
| step_abort: "dlg_step js env s (snd (vitajs_dialog_abort env argv s))"



subsection \<open>Properties\<close>

text \<open>
  A concrete surrounding in which every call succeeds: module queries answer "not loaded", a
  dialog is running when it is asked right after its initialisation and finished later.
\<close>

definition demo_dlg_env :: dlg_env where
  "demo_dlg_env =
     \<lparr>d_ret = (\<lambda>h c. case c of IsLoaded m \<Rightarrow> - 1 | _ \<Rightarrow> 0),
      d_status = (\<lambda>h c. case h of MsgDialogInit t b # _ \<Rightarrow> STATUS_RUNNING | _ \<Rightarrow> STATUS_FINISHED),
      d_status_code = (\<lambda>st. 0), d_msg_result = (\<lambda>h. (RESULT_OK, 1)),
      d_ime_result = (\<lambda>h. (RESULT_OK, True)), d_ime_text = (\<lambda>h b. b),
      user_msg_size = 16, max_title_length = 4, max_text_length = 4\<rparr>"

definition demo_message_args :: "jsval list" where
  "demo_message_args = [JObject [(''text'', JString ''hi''), (''buttons'', JString ''yesNo'')]]"

definition demo_message_state :: dlg_state where
  "demo_message_state =
     snd (vitajs_dialog_message js_prim demo_dlg_env demo_message_args
       (snd (vitajs_dialog_system_init demo_dlg_env (dlg_start demo_dlg_env))))"



lemmas demo_dlg_eval =
  demo_message_state_def demo_dlg_env_def demo_message_args_def js_prim_def dlg_start_def
  vitajs_dialog_system_init_def vitajs_dialog_message_def ensure_common_dialog_initialized_def
  message_buttons_def message_open_def parse_message_button_type_def absent_def ask_def did_def Let_def





text \<open>
  C22.  Collecting a finished message box: when every native answer is a success, \<open>result()\<close>
  returns the object with the outcome and the name of the pressed button for the button set the
  dialog was opened with, terminates the native dialog exactly once, and leaves the module free
  for the next dialog.
\<close>

theorem message_result_collects:
  assumes "current_dialog s = VITAJS_DIALOG_MESSAGE"
    and "d_status env (trace s) MsgDialogGetStatus = STATUS_FINISHED" and "\<forall>h c. 0 \<le> d_ret env h c"
  shows "\<exists>s' res button_id. vitajs_dialog_result env [] s = Some (Inr (JObject
      [(''type'', JString ''message''), (''result'', JString (common_result_name res)),
       (''button'', JString (message_button_name (message_button_type s) button_id)),
       (''buttonId'', JInt button_id)]), s') \<and>
    (res, button_id) = d_msg_result env (NewObject # MsgDialogGetStatus # trace s) \<and>
    current_dialog s' = VITAJS_DIALOG_NONE \<and>
    count_list (trace s') MsgDialogTerm = Suc (count_list (trace s) MsgDialogTerm)"
proof -
  have nn: "\<not> d_ret env h c < 0" for h c using assms(3) by (simp add: not_less)
  obtain res button_id where "d_msg_result env (NewObject # MsgDialogGetStatus # trace s) = (res, button_id)"
    by fastforce
  with assms(1,2) nn show ?thesis
    by (simp add: vitajs_dialog_result_def get_native_status_def message_result_def finish_result_def
        ask_def did_def Let_def)
qed

definition demo_finished_env :: dlg_env where
  "demo_finished_env = demo_dlg_env\<lparr>d_ret := (\<lambda>h c. 0), d_status := (\<lambda>h c. STATUS_FINISHED)\<rparr>"

theorem message_result_collects_witness:
  "\<exists>s' res button_id. vitajs_dialog_result demo_finished_env [] demo_message_state = Some (Inr (JObject
      [(''type'', JString ''message''), (''result'', JString (common_result_name res)),
       (''button'', JString (message_button_name (message_button_type demo_message_state) button_id)),
       (''buttonId'', JInt button_id)]), s') \<and> current_dialog s' = VITAJS_DIALOG_NONE"
proof -
  have "current_dialog demo_message_state = VITAJS_DIALOG_MESSAGE" by (simp add: demo_dlg_eval)
  then show ?thesis
    using message_result_collects [of demo_message_state demo_finished_env]
    by (fastforce simp: demo_finished_env_def)
qed

text \<open>
  The text of a finished keyboard dialog is never truncated and never read past its buffer:
  for any content of the input buffer with a terminator, the byte buffer of
  \<open>4 * SCE_IME_DIALOG_MAX_TEXT_LENGTH + 1\<close> bytes holds the UTF-8 encoding of all of it.
\<close>

theorem keyboard_text_complete:
  assumes "length buf = max_text_length env + 1" and "0 \<in> set buf" and "\<forall>u\<in>set buf. u < 0x10000"
  shows "ime_text env buf = Some (map char_of (utf8_of (u16_scalars buf)))"
proof -
  let ?cap = "max_text_length env * 4 + 1"
  have "takeWhile (\<lambda>u. u \<noteq> 0) buf \<noteq> buf" using assms(2) by (metis (full_types) set_takeWhileD)
  then have "length (takeWhile (\<lambda>u. u \<noteq> 0) buf) < length buf"
    by (metis append.right_neutral length_takeWhile_le order_le_imp_less_or_eq
        takeWhile_dropWhile_id length_append length_0_conv add_cancel_right_right)
  then have "length (utf8_of (u16_scalars buf)) < ?cap"
    using length_utf8_of_u16 [OF assms(3)] assms(1) by linarith
  with utf16_to_utf8_loop_prefix [OF assms(2,3), of "[]" ?cap]
  have r: "utf16_to_utf8 buf ?cap = Some (utf8_of (u16_scalars buf) @ [0])"
    by (auto simp: utf16_to_utf8_def)
  have "0 \<notin> set (utf8_of (u16_scalars buf))"
    using u16_scalars_scalar [OF assms(3)] rfc_utf8_nonzero by (fastforce simp: utf8_of_def)
  then have "takeWhile (\<lambda>b. b \<noteq> 0) (utf8_of (u16_scalars buf) @ [0]) = utf8_of (u16_scalars buf)"
    by (subst takeWhile_append2) (auto intro!: gr0I)
  with r show ?thesis by (simp add: ime_text_def)
qed

theorem keyboard_text_complete_witness:
  "ime_text demo_dlg_env [0x41, 0x20AC, 0, 0, 0] = Some (map char_of (utf8_of (u16_scalars [0x41, 0x20AC, 0, 0, 0])))"
  using keyboard_text_complete [of "[0x41, 0x20AC, 0, 0, 0]" demo_dlg_env] by (simp add: demo_dlg_env_def)

text \<open>
  While a dialog is active, opening another one is refused: \<open>message\<close> and
  \<open>keyboard\<close> raise an error whatever their arguments are, and make no native call and no
  change to the state.
\<close>

theorem dialog_busy_refused:
  assumes "current_dialog s \<noteq> VITAJS_DIALOG_NONE"
  shows "(\<exists>e. vitajs_dialog_message js env argv s = (Inl e, s)) \<and>
    (\<exists>e. vitajs_dialog_keyboard js env argv s = (Inl e, s))"
  using assms by (simp add: vitajs_dialog_message_def vitajs_dialog_keyboard_def)

theorem dialog_busy_refused_witness:
  "\<exists>e. vitajs_dialog_keyboard js_prim demo_dlg_env demo_message_args demo_message_state = (Inl e, demo_message_state)"
proof -
  have "current_dialog demo_message_state \<noteq> VITAJS_DIALOG_NONE" by (simp add: demo_dlg_eval)
  then show ?thesis using dialog_busy_refused by blast
qed




text \<open>
  Limiting the initial text to \<open>maxLength\<close> units can split a surrogate pair: with the
  initial text U+1F600 and \<open>maxLength\<close> 1 the keyboard is given a buffer that holds a lone
  high surrogate.
\<close>

theorem keyboard_initial_can_split_pair:
  "ime_initial (snd (keyboard_initial js_prim
     (JObject [(''initialText'', JString [CHR 0xF0, CHR 0x9F, CHR 0x98, CHR 0x80])]) 1
     (dlg_start demo_dlg_env))) = [0xD83D, 0, 0, 0, 0]"
proof -
  have "utf8_to_utf16 (utf8_of [0x1F600]) 5 = utf16_of [0x1F600] @ [0]"
    using utf8_to_utf16_loop_prefix [of "[]" 5 "utf8_of [0x1F600]"] u8_scalars_utf8_of [of "[0x1F600]"]
    by (auto simp: utf8_to_utf16_def scalar_def rfc_utf16_def)
  then have "utf8_to_utf16 [0xF0, 0x9F, 0x98, 0x80] 5 = [0xD83D, 0xDE00, 0]"
    by (simp add: rfc_utf8_def rfc_utf16_def)
  moreover have r2: "replicate 2 (0::nat) = [0, 0]" by (simp add: numeral_2_eq_2)
  ultimately show ?thesis
    by (simp add: keyboard_initial_def fill_utf16_def c_bytes_def js_prim_def absent_def dlg_start_def
        demo_dlg_env_def Let_def r2)
qed

end
