(* ===== verification/Http_Client.thy ===== *)
theory Http_Client
  imports Js_Api
begin

text \<open>
  The HTTP client code that src/src/modules/net.c and src/src/modules/net_async.c share line by
  line: opening a template, a connection and a request, sending it, and reading the response
  into a buffer that grows by doubling up to 8 MB.

  Every call of the system libraries and of the allocator is a \<open>net_call\<close> of the module's
  history; the answers are the record \<open>net_env\<close>.  What the code acquires and gives back is
  read off a history as a stack of \<open>resource\<close>s (\<open>res_of\<close>), and \<open>res_ok\<close>
  says that every release named the resource on top of it: a leak, a double release, a release
  of something never acquired and a release out of order all break it.
\<close>

subsection \<open>Calls and surroundings\<close>

datatype http_method = METHOD_GET | METHOD_POST | METHOD_PUT | METHOD_DELETE | METHOD_HEAD | METHOD_OPTIONS

datatype net_module = SYSMODULE_NET | SYSMODULE_HTTP

text \<open>A C string: made by \<open>JS_ToCString\<close> from an argument, or a literal of the program.\<close>

datatype cstr = FromArg (arg_index: nat) (c_text: string) | Literal (c_text: string)

datatype net_call =
    SysmoduleLoadModule net_module
  | SysmoduleUnloadModule net_module
  | MallocPool
  | FreePool
  | NetInit
  | NetTerm
  | NetCtlInit
  | NetCtlTerm
  | HttpInit
  | HttpTerm
  | CreateTemplate
  | CreateConnectionWithURL int string
  | CreateRequestWithURL int http_method string nat
  | SetAutoRedirect int
  | AddRequestHeader int string string
  | SendRequest int "string option" nat
  | GetStatusCode int
  | ReadData int
  | ReallocBody bool nat
  | FreeBody
  | DeleteRequest int
  | DeleteConnection int
  | DeleteTemplate int
  | InetGetState
  | InetGetInfo
  | JsToCString cstr
  | JsFreeCString cstr
  | JsNewObject
  | JsSetProperty string
  | KernelCreateMutex
  | KernelCreateThread
  | KernelStartThread int
  | KernelDeleteThread int
  | StrdupUrl string
  | JsNewPromise
  | JsNewError

text \<open>
  \<open>n_ret\<close>: the integer a call returns (an identifier or an error code);
  \<open>n_alloc\<close>: whether an allocation succeeds; \<open>n_status\<close>, \<open>n_chunk\<close>,
  \<open>n_state\<close>, \<open>n_ip\<close>: what a call writes through its pointer argument.
\<close>

record net_env =
  n_ret :: "net_call list \<Rightarrow> net_call \<Rightarrow> int"
  n_alloc :: "net_call list \<Rightarrow> net_call \<Rightarrow> bool"
  n_status :: "net_call list \<Rightarrow> int"
  n_chunk :: "net_call list \<Rightarrow> nat \<Rightarrow> nat"
  n_state :: "net_call list \<Rightarrow> int"
  n_ip :: "net_call list \<Rightarrow> string"
  http_error_already_inited :: int
  netctl_state_connected :: int

type_synonym 's net_traced = "(net_call, 's) traced_scheme"

subsection \<open>Constants\<close>

definition VITAJS_HTTP_READ_CHUNK :: nat where "VITAJS_HTTP_READ_CHUNK = 16 * 1024"
definition VITAJS_HTTP_MAX_RESPONSE :: nat where "VITAJS_HTTP_MAX_RESPONSE = 8 * 1024 * 1024"

lemmas http_consts = VITAJS_HTTP_READ_CHUNK_def VITAJS_HTTP_MAX_RESPONSE_def

subsection \<open>Opening and sending\<close>

text \<open>
  \<open>tpl\<close>, \<open>conn\<close> and \<open>req\<close> start as -1 and keep the last identifier or error code.
  A failure carries the name of the operation and the code, as \<open>failed_operation\<close> and
  \<open>ret\<close> do.
\<close>

record http_handles =
  tpl :: int
  conn :: int
  req :: int

definition http_open ::
  "net_env \<Rightarrow> http_method \<Rightarrow> string \<Rightarrow> nat \<Rightarrow> 's net_traced \<Rightarrow> (string \<times> int) option \<times> http_handles \<times> 's net_traced" where
  "http_open env method url body_length s =
     (let t = ask (n_ret env) s CreateTemplate; s = did CreateTemplate s in
      if t < 0 then (Some (''sceHttpCreateTemplate'', t), \<lparr>tpl = t, conn = - 1, req = - 1\<rparr>, s)
      else let call = CreateConnectionWithURL t url; c = ask (n_ret env) s call; s = did call s in
      if c < 0 then (Some (''sceHttpCreateConnectionWithURL'', c), \<lparr>tpl = t, conn = c, req = - 1\<rparr>, s)
      else let call = CreateRequestWithURL c method url body_length; r = ask (n_ret env) s call; s = did call s in
      (if r < 0 then Some (''sceHttpCreateRequestWithURL'', r) else None, \<lparr>tpl = t, conn = c, req = r\<rparr>, s))"

text \<open>
  The calls of the request proper, each checked for an error: \<open>http_checked\<close> runs them in
  order and stops at the first that fails.
\<close>

fun http_checked :: "net_env \<Rightarrow> (net_call \<times> string) list \<Rightarrow> 's net_traced \<Rightarrow> (string \<times> int) option \<times> 's net_traced" where
  "http_checked env [] s = (None, s)"
| "http_checked env ((call, name) # calls) s =
     (let ret = ask (n_ret env) s call; s = did call s in
      if ret < 0 then (Some (name, ret), s) else http_checked env calls s)"

subsection \<open>Reading the response\<close>

text \<open>
  \<open>response_body\<close> is NULL or a heap block whose cells are bytes, \<open>None\<close> where
  nothing has been written yet.
\<close>

record body_buffer =
  response_body :: "nat option list option"
  response_length :: nat
  response_capacity :: nat

definition empty_buffer :: body_buffer where
  "empty_buffer = \<lparr>response_body = None, response_length = 0, response_capacity = 0\<rparr>"

text \<open>\<open>while (new_capacity < required) new_capacity *= 2;\<close>\<close>

partial_function (option) grow_capacity :: "nat \<Rightarrow> nat \<Rightarrow> nat option" where
  "grow_capacity new_capacity required =
     (if new_capacity < required then grow_capacity (size_t (new_capacity * 2)) required
      else Some new_capacity)"

text \<open>\<open>realloc\<close>: the old content, and indeterminate bytes after it.\<close>

definition realloc_block :: "nat option list option \<Rightarrow> nat \<Rightarrow> nat option list" where
  "realloc_block old n =
     (let b = (case old of None \<Rightarrow> [] | Some b \<Rightarrow> b) in take n b @ replicate (n - length b) None)"

text \<open>
  Makes room for \<open>required\<close> bytes.  The outer option is the divergence of the doubling loop,
  the boolean of the result tells whether \<open>realloc\<close> succeeded.
\<close>

definition ensure_capacity ::
  "net_env \<Rightarrow> nat \<Rightarrow> body_buffer \<Rightarrow> 's net_traced \<Rightarrow> (bool \<times> body_buffer \<times> 's net_traced) option" where
  "ensure_capacity env required buf s =
     (if required \<le> response_capacity buf then Some (True, buf, s)
      else let start = (if response_capacity buf = 0 then VITAJS_HTTP_READ_CHUNK
                        else size_t (response_capacity buf * 2)) in
      case grow_capacity start required of
        None \<Rightarrow> None
      | Some cap \<Rightarrow>
          let cap = (if cap > VITAJS_HTTP_MAX_RESPONSE + 1 then VITAJS_HTTP_MAX_RESPONSE + 1 else cap);
              call = ReallocBody (response_body buf = None) cap;
              ok = ask (n_alloc env) s call; s = did call s in
          if ok then Some (True, buf\<lparr>response_body := Some (realloc_block (response_body buf) cap),
                                     response_capacity := cap\<rparr>, s)
          else Some (False, buf, s))"

datatype read_error = ReadFailed int | ResponseTooLarge | ReadOutOfMemory

text \<open>
  One pass of the read loop and the loop.  \<open>None\<close>: undefined behaviour (a copy out of the
  bounds of \<open>chunk\<close> or of the response buffer, a write through NULL) or no end.
\<close>

definition copy_chunk :: "net_env \<Rightarrow> net_call list \<Rightarrow> nat \<Rightarrow> body_buffer \<Rightarrow> body_buffer option" where
  "copy_chunk env h n buf =
     (if n > VITAJS_HTTP_READ_CHUNK then None
      else case response_body buf of
        None \<Rightarrow> None
      | Some b \<Rightarrow> map_option (\<lambda>b. buf\<lparr>response_body := Some b, response_length := size_t (response_length buf + n)\<rparr>)
          (write_at b (response_length buf) (map (\<lambda>i. Some (n_chunk env h i)) [0..<n])))"

datatype 's read_pass = ReadMore body_buffer 's | ReadEnd body_buffer 's | ReadStop read_error body_buffer 's

definition read_pass :: "net_env \<Rightarrow> int \<Rightarrow> body_buffer \<Rightarrow> 's net_traced \<Rightarrow> 's net_traced read_pass option" where
  "read_pass env r buf s =
     (let h = trace s; bytes_read = ask (n_ret env) s (ReadData r); s = did (ReadData r) s in
      if bytes_read < 0 then Some (ReadStop (ReadFailed bytes_read) buf s)
      else if bytes_read = 0 then Some (ReadEnd buf s)
      else let n = nat bytes_read; required = size_t (response_length buf + n + 1) in
      if required > VITAJS_HTTP_MAX_RESPONSE + 1 then Some (ReadStop ResponseTooLarge buf s)
      else case ensure_capacity env required buf s of
        None \<Rightarrow> None
      | Some (ok, buf, s) \<Rightarrow>
          if \<not> ok then Some (ReadStop ReadOutOfMemory buf s)
          else map_option (\<lambda>buf. ReadMore buf s) (copy_chunk env h n buf))"

partial_function (option) read_loop ::
  "net_env \<Rightarrow> int \<Rightarrow> body_buffer \<Rightarrow> 's net_traced \<Rightarrow> (read_error option \<times> body_buffer \<times> 's net_traced) option" where
  "read_loop env r buf s =
     Option.bind (read_pass env r buf s) (\<lambda>p. case p of
         ReadStop e buf s \<Rightarrow> Some (Some e, buf, s)
       | ReadEnd buf s \<Rightarrow> Some (None, buf, s)
       | ReadMore buf s \<Rightarrow> read_loop env r buf s)"

text \<open>\<open>if (response_body) response_body[response_length] = '\0'\<close>, and the bytes handed on.\<close>

definition terminate_body :: "body_buffer \<Rightarrow> body_buffer option" where
  "terminate_body buf =
     (case response_body buf of
        None \<Rightarrow> Some buf
      | Some b \<Rightarrow> map_option (\<lambda>b. buf\<lparr>response_body := Some b\<rparr>) (write_at b (response_length buf) [Some 0]))"

definition body_bytes :: "body_buffer \<Rightarrow> nat list option" where
  "body_bytes buf =
     (case response_body buf of
        None \<Rightarrow> (if response_length buf = 0 then Some [] else None)
      | Some b \<Rightarrow> (if response_length buf \<le> length b \<and> None \<notin> set (take (response_length buf) b)
                  then Some (map the (take (response_length buf) b)) else None))"

subsection \<open>A whole transfer\<close>

datatype http_failure = OpFailed string int | BodyFailed read_error

text \<open>
  From the template to the terminated response buffer: \<open>calls\<close> are the checked calls between
  opening the request and asking for its status.  Nothing is released here; the two clients do
  that in different ways.
\<close>

definition http_transfer ::
  "net_env \<Rightarrow> http_method \<Rightarrow> string \<Rightarrow> nat \<Rightarrow> (int \<Rightarrow> (net_call \<times> string) list) \<Rightarrow> 's net_traced \<Rightarrow>
   ((http_failure + int) \<times> http_handles \<times> body_buffer \<times> 's net_traced) option" where
  "http_transfer env method url body_length calls s =
     (case http_open env method url body_length s of
        (Some (op, ret), hs, s) \<Rightarrow> Some (Inl (OpFailed op ret), hs, empty_buffer, s)
      | (None, hs, s) \<Rightarrow> (case http_checked env (calls (req hs)) s of
          (Some (op, ret), s) \<Rightarrow> Some (Inl (OpFailed op ret), hs, empty_buffer, s)
        | (None, s) \<Rightarrow>
            let call = GetStatusCode (req hs); ret = ask (n_ret env) s call;
                status = n_status env (trace s); s = did call s in
            if ret < 0 then Some (Inl (OpFailed ''sceHttpGetStatusCode'' ret), hs, empty_buffer, s)
            else case read_loop env (req hs) empty_buffer s of
              None \<Rightarrow> None
            | Some (Some e, buf, s) \<Rightarrow> Some (Inl (BodyFailed e), hs, buf, s)
            | Some (None, buf, s) \<Rightarrow> map_option (\<lambda>buf. (Inr status, hs, buf, s)) (terminate_body buf)))"

text \<open>\<open>if (req >= 0) sceHttpDeleteRequest(req);\<close> and so on.\<close>

definition http_delete_handles :: "http_handles \<Rightarrow> 's net_traced \<Rightarrow> 's net_traced" where
  "http_delete_handles hs s =
     (let s = (if 0 \<le> req hs then did (DeleteRequest (req hs)) s else s);
          s = (if 0 \<le> conn hs then did (DeleteConnection (conn hs)) s else s)
      in if 0 \<le> tpl hs then did (DeleteTemplate (tpl hs)) s else s)"

subsection \<open>Resources\<close>

datatype resource =
    R_Module net_module | R_Pool | R_Net | R_NetCtl | R_Http
  | R_Template int | R_Connection int | R_Request int

fun acquires :: "net_env \<Rightarrow> net_call list \<Rightarrow> net_call \<Rightarrow> resource option" where
  "acquires env h (SysmoduleLoadModule m) = (if n_ret env h (SysmoduleLoadModule m) < 0 then None else Some (R_Module m))"
| "acquires env h MallocPool = (if n_alloc env h MallocPool then Some R_Pool else None)"
| "acquires env h NetInit = (if n_ret env h NetInit < 0 then None else Some R_Net)"
| "acquires env h NetCtlInit = (if n_ret env h NetCtlInit < 0 then None else Some R_NetCtl)"
| "acquires env h HttpInit =
     (if n_ret env h HttpInit < 0 \<and> n_ret env h HttpInit \<noteq> http_error_already_inited env then None else Some R_Http)"
| "acquires env h CreateTemplate =
     (if n_ret env h CreateTemplate < 0 then None else Some (R_Template (n_ret env h CreateTemplate)))"
| "acquires env h (CreateConnectionWithURL t u) =
     (if n_ret env h (CreateConnectionWithURL t u) < 0 then None
      else Some (R_Connection (n_ret env h (CreateConnectionWithURL t u))))"
| "acquires env h (CreateRequestWithURL c m u n) =
     (if n_ret env h (CreateRequestWithURL c m u n) < 0 then None
      else Some (R_Request (n_ret env h (CreateRequestWithURL c m u n))))"
| "acquires env h _ = None"

fun releases :: "net_call \<Rightarrow> resource option" where
  "releases (SysmoduleUnloadModule m) = Some (R_Module m)"
| "releases FreePool = Some R_Pool"
| "releases NetTerm = Some R_Net"
| "releases NetCtlTerm = Some R_NetCtl"
| "releases HttpTerm = Some R_Http"
| "releases (DeleteTemplate t) = Some (R_Template t)"
| "releases (DeleteConnection c) = Some (R_Connection c)"
| "releases (DeleteRequest r) = Some (R_Request r)"
| "releases _ = None"

text \<open>What has to be open for a call to be allowed.\<close>

fun requires :: "net_call \<Rightarrow> resource list" where
  "requires MallocPool = [R_Module SYSMODULE_NET]"
| "requires NetInit = [R_Module SYSMODULE_NET, R_Pool]"
| "requires NetCtlInit = [R_Net]"
| "requires HttpInit = [R_Module SYSMODULE_HTTP, R_Net]"
| "requires CreateTemplate = [R_Http]"
| "requires (CreateConnectionWithURL t u) = [R_Http, R_Template t]"
| "requires (CreateRequestWithURL c m u n) = [R_Http, R_Connection c]"
| "requires (SetAutoRedirect r) = [R_Http, R_Request r]"
| "requires (AddRequestHeader r k v) = [R_Http, R_Request r]"
| "requires (SendRequest r b n) = [R_Http, R_Request r]"
| "requires (GetStatusCode r) = [R_Http, R_Request r]"
| "requires (ReadData r) = [R_Http, R_Request r]"
| "requires InetGetState = [R_NetCtl]"
| "requires InetGetInfo = [R_NetCtl]"
| "requires _ = []"

text \<open>The stack of open resources after a history.\<close>

fun res_of :: "net_env \<Rightarrow> net_call list \<Rightarrow> resource list" where
  "res_of env [] = []"
| "res_of env (c # h) =
     (case releases c of
        Some x \<Rightarrow> tl (res_of env h)
      | None \<Rightarrow> (case acquires env h c of None \<Rightarrow> res_of env h | Some x \<Rightarrow> x # res_of env h))"

definition call_legal :: "net_call \<Rightarrow> resource list \<Rightarrow> bool" where
  "call_legal c st \<longleftrightarrow>
     (case releases c of None \<Rightarrow> True | Some x \<Rightarrow> st \<noteq> [] \<and> hd st = x) \<and> list_all (\<lambda>x. x \<in> set st) (requires c)"

text \<open>The C strings obtained from the engine and not given back, a stack of their own.\<close>

fun strs_of :: "net_call list \<Rightarrow> cstr list" where
  "strs_of [] = []"
| "strs_of (JsToCString c # h) = c # strs_of h"
| "strs_of (JsFreeCString c # h) = tl (strs_of h)"
| "strs_of (_ # h) = strs_of h"

fun string_legal :: "net_call \<Rightarrow> cstr list \<Rightarrow> bool" where
  "string_legal (JsFreeCString c) ss \<longleftrightarrow> ss \<noteq> [] \<and> hd ss = c"
| "string_legal _ ss \<longleftrightarrow> True"

text \<open>
  The heap block of the response: whether one is allocated.  A \<open>realloc\<close> says whether its
  argument is NULL, which has to be so exactly when there is no block.
\<close>

fun body_of :: "net_env \<Rightarrow> net_call list \<Rightarrow> bool" where
  "body_of env [] = False"
| "body_of env (ReallocBody null n # h) = (n_alloc env h (ReallocBody null n) \<or> body_of env h)"
| "body_of env (FreeBody # h) = False"
| "body_of env (_ # h) = body_of env h"

fun body_legal :: "net_call \<Rightarrow> bool \<Rightarrow> bool" where
  "body_legal (ReallocBody null n) b \<longleftrightarrow> null = (\<not> b)"
| "body_legal FreeBody b \<longleftrightarrow> b"
| "body_legal _ b \<longleftrightarrow> True"

fun heap_call :: "net_call \<Rightarrow> bool" where
  "heap_call (JsToCString c) = True"
| "heap_call (JsFreeCString c) = True"
| "heap_call (ReallocBody null n) = True"
| "heap_call FreeBody = True"
| "heap_call _ = False"

lemma heap_other [simp]:
  assumes "\<not> heap_call c"
  shows "strs_of (c # h) = strs_of h" and "string_legal c ss"
    and "body_of env (c # h) = body_of env h" and "body_legal c b"
  using assms by (cases c; simp)+

fun res_ok :: "net_env \<Rightarrow> net_call list \<Rightarrow> bool" where
  "res_ok env [] = True"
| "res_ok env (c # h) \<longleftrightarrow> res_ok env h \<and> call_legal c (res_of env h) \<and> string_legal c (strs_of h) \<and>
     body_legal c (body_of env h)"

text \<open>The bytes the server has delivered in a history.\<close>

fun received :: "net_env \<Rightarrow> net_call list \<Rightarrow> nat list" where
  "received env [] = []"
| "received env (ReadData r # h) =
     received env h @ map (n_chunk env h) [0..<nat (n_ret env h (ReadData r))]"
| "received env (_ # h) = received env h"

text \<open>
  \<open>stacked env st b ss s\<close>: the history of \<open>s\<close> is legal and leaves exactly the
  resources \<open>st\<close>, the response block (if \<open>b\<close>) and the strings \<open>ss\<close> open.
\<close>

definition stacked :: "net_env \<Rightarrow> resource list \<Rightarrow> bool \<Rightarrow> cstr list \<Rightarrow> 's net_traced \<Rightarrow> bool" where
  "stacked env st b ss s \<longleftrightarrow>
     res_ok env (trace s) \<and> res_of env (trace s) = st \<and> body_of env (trace s) = b \<and> strs_of (trace s) = ss"

lemma stacked_neutral:
  assumes "stacked env st b ss s" and "releases c = None" and "acquires env (trace s) c = None"
    and "set (requires c) \<subseteq> set st" and "\<not> heap_call c"
  shows "stacked env st b ss (did c s)"
  using assms by (auto simp: stacked_def call_legal_def list_all_iff)

lemma stacked_acquire:
  assumes "stacked env st b ss s" and "releases c = None" and "acquires env (trace s) c = Some x"
    and "set (requires c) \<subseteq> set st" and "\<not> heap_call c"
  shows "stacked env (x # st) b ss (did c s)"
  using assms by (auto simp: stacked_def call_legal_def list_all_iff)

lemma stacked_release:
  assumes "stacked env (x # st) b ss s" and "releases c = Some x" and "requires c = []" and "\<not> heap_call c"
  shows "stacked env st b ss (did c s)"
  using assms by (simp add: stacked_def call_legal_def)

lemma stacked_get_string: "stacked env st b ss s \<Longrightarrow> stacked env st b (c # ss) (did (JsToCString c) s)"
  by (simp add: stacked_def call_legal_def)

lemma stacked_free_string: "stacked env st b (c # ss) s \<Longrightarrow> stacked env st b ss (did (JsFreeCString c) s)"
  by (simp add: stacked_def call_legal_def)

lemma stacked_free_body: "stacked env st True ss s \<Longrightarrow> stacked env st False ss (did FreeBody s)"
  by (simp add: stacked_def call_legal_def)

lemma stacked_realloc:
  "stacked env st b ss s \<Longrightarrow>
   stacked env st (b \<or> n_alloc env (trace s) (ReallocBody (\<not> b) n)) ss (did (ReallocBody (\<not> b) n) s)"
  by (auto simp: stacked_def call_legal_def)

subsection \<open>The growing buffer\<close>

text \<open>The buffer's invariant: it holds exactly \<open>bs\<close>, with room for the terminator.\<close>

definition buf_holds :: "body_buffer \<Rightarrow> nat list \<Rightarrow> bool" where
  "buf_holds buf bs \<longleftrightarrow> response_length buf = length bs \<and>
     (case response_body buf of
        None \<Rightarrow> bs = [] \<and> response_capacity buf = 0
      | Some b \<Rightarrow> length b = response_capacity buf \<and> length bs < length b \<and>
          length b \<le> VITAJS_HTTP_MAX_RESPONSE + 1 \<and> take (length bs) b = map Some bs)"

lemma buf_holds_empty: "buf_holds empty_buffer []"
  by (simp add: buf_holds_def empty_buffer_def)

lemma buf_holds_limit: "buf_holds buf bs \<Longrightarrow> length bs \<le> VITAJS_HTTP_MAX_RESPONSE"
  by (auto simp: buf_holds_def split: option.splits)

lemma grow_capacity_total:
  assumes "0 < cap" and "required \<le> 2 ^ 31"
  shows "\<exists>d. grow_capacity cap required = Some d \<and> required \<le> d \<and> cap \<le> d"
  using assms(1)
proof (induction "required - cap" arbitrary: cap rule: less_induct)
  case less
  show ?case
  proof (cases "cap < required")
    case True
    then have "size_t (cap * 2) = cap * 2" using assms(2) by (intro size_t_id) simp
    moreover have "required - cap * 2 < required - cap" using True less.prems by linarith
    ultimately show ?thesis
      using less.hyps [of "cap * 2"] less.prems True by (subst grow_capacity.simps) auto
  next
    case False
    then show ?thesis by (subst grow_capacity.simps) simp
  qed
qed

lemma length_realloc_block [simp]: "length (realloc_block old n) = n"
  by (simp add: realloc_block_def Let_def)

lemma take_realloc_block:
  assumes "m \<le> n" and "case old of None \<Rightarrow> m = 0 | Some b \<Rightarrow> m \<le> length b"
  shows "take m (realloc_block old n) = (case old of None \<Rightarrow> [] | Some b \<Rightarrow> take m b)"
  using assms by (auto simp: realloc_block_def Let_def min_def split: option.splits)

lemma ensure_capacity_total:
  assumes "buf_holds buf bs" and "length bs < required" and "required \<le> VITAJS_HTTP_MAX_RESPONSE + 1"
  shows "\<exists>ok buf' s'. ensure_capacity env required buf s = Some (ok, buf', s') \<and> buf_holds buf' bs \<and>
    (ok \<longrightarrow> response_body buf' \<noteq> None \<and> required \<le> response_capacity buf') \<and>
    received env (trace s') = received env (trace s)"
proof (cases "required \<le> response_capacity buf")
  case True
  with assms show ?thesis by (auto simp: ensure_capacity_def buf_holds_def split: option.splits)
next
  case False
  have cap: "response_capacity buf \<le> VITAJS_HTTP_MAX_RESPONSE + 1"
    using assms(1) by (auto simp: buf_holds_def split: option.splits)
  let ?start = "if response_capacity buf = 0 then VITAJS_HTTP_READ_CHUNK else size_t (response_capacity buf * 2)"
  have "0 < ?start" "required \<le> 2 ^ 31" using cap assms(3) by (auto simp: size_t_id http_consts)
  then obtain d where d: "grow_capacity ?start required = Some d" "required \<le> d"
    using grow_capacity_total by blast
  let ?cap = "if d > VITAJS_HTTP_MAX_RESPONSE + 1 then VITAJS_HTTP_MAX_RESPONSE + 1 else d"
  have rc: "required \<le> ?cap" "?cap \<le> VITAJS_HTTP_MAX_RESPONSE + 1" using assms(3) d(2) by auto
  have "buf_holds (buf\<lparr>response_body := Some (realloc_block (response_body buf) ?cap), response_capacity := ?cap\<rparr>) bs"
    using assms(1,2) rc take_realloc_block [of "length bs" ?cap "response_body buf"]
    by (auto simp: buf_holds_def split: option.splits)
  with False d(1) rc assms(1) show ?thesis by (auto simp: ensure_capacity_def Let_def)
qed

lemma copy_chunk_total:
  assumes "buf_holds buf bs" and "response_body buf \<noteq> None" and "n \<le> VITAJS_HTTP_READ_CHUNK"
    and "length bs + n + 1 \<le> response_capacity buf"
  shows "\<exists>buf'. copy_chunk env h n buf = Some buf' \<and> buf_holds buf' (bs @ map (n_chunk env h) [0..<n])"
proof -
  from assms(1,2) obtain b where b: "response_body buf = Some b" "length b = response_capacity buf"
      "length b \<le> VITAJS_HTTP_MAX_RESPONSE + 1" "take (length bs) b = map Some bs" "response_length buf = length bs"
    by (auto simp: buf_holds_def)
  let ?src = "map (\<lambda>i. Some (n_chunk env h i)) [0..<n]"
  from assms(4) b(2) obtain b' where w: "write_at b (length bs) ?src = Some b'"
    using write_at_in_bounds [of "length bs" ?src b] by auto
  have "length bs + n < 2 ^ 32" using assms(4) b(2,3) by (simp add: http_consts)
  then have "size_t (length bs + n) = length bs + n" by (rule size_t_id)
  moreover have "take (length bs + n) b' = map Some bs @ ?src"
    using write_at_prefix [OF w] b(4) by simp
  moreover have "length b' = length b" using w by (rule write_at_length)
  ultimately show ?thesis
    using assms(3,4) b w by (simp add: copy_chunk_def buf_holds_def comp_def)
qed

text \<open>
  What \<open>sceHttpReadData\<close> documents: it delivers at most as many bytes as the size it was
  given.
\<close>

definition reads_bounded :: "net_env \<Rightarrow> bool" where
  "reads_bounded env \<longleftrightarrow> (\<forall>h r. n_ret env h (ReadData r) \<le> int VITAJS_HTTP_READ_CHUNK)"

fun pass_ok :: "net_env \<Rightarrow> nat list \<Rightarrow> nat list \<Rightarrow> 's net_traced read_pass \<Rightarrow> bool" where
  "pass_ok env got bs (ReadMore buf s) \<longleftrightarrow>
     (\<exists>d. d \<noteq> [] \<and> buf_holds buf (bs @ d) \<and> received env (trace s) = got @ d)"
| "pass_ok env got bs (ReadEnd buf s) \<longleftrightarrow> buf_holds buf bs \<and> received env (trace s) = got"
| "pass_ok env got bs (ReadStop e buf s) \<longleftrightarrow> buf_holds buf bs"

text \<open>One pass never misbehaves, and appends what the server delivered.\<close>

lemma read_pass_total:
  assumes "reads_bounded env" and "buf_holds buf bs"
  shows "\<exists>p. read_pass env r buf s = Some p \<and> pass_ok env (received env (trace s)) bs p"
proof (cases "n_ret env (trace s) (ReadData r) \<le> 0")
  case True
  with assms(2) show ?thesis by (auto simp: read_pass_def ask_def Let_def)
next
  case False
  let ?n = "nat (n_ret env (trace s) (ReadData r))" and ?s = "did (ReadData r) s"
  let ?d = "map (n_chunk env (trace s)) [0..<?n]"
  have n: "0 < ?n" "?n \<le> VITAJS_HTTP_READ_CHUNK"
    using False assms(1) by (auto simp: reads_bounded_def nat_le_iff)
  have len: "response_length buf = length bs" using assms(2) by (simp add: buf_holds_def)
  have "length bs + ?n + 1 < 2 ^ 32" using n(2) buf_holds_limit [OF assms(2)] by (simp add: http_consts)
  then have req: "size_t (response_length buf + ?n + 1) = length bs + ?n + 1" using len size_t_id by simp
  show ?thesis
  proof (cases "length bs + ?n + 1 > VITAJS_HTTP_MAX_RESPONSE + 1")
    case True
    with False req assms(2) show ?thesis by (auto simp: read_pass_def ask_def Let_def)
  next
    case fits: False
    then obtain ok buf' s' where e: "ensure_capacity env (length bs + ?n + 1) buf ?s = Some (ok, buf', s')"
        "buf_holds buf' bs" "ok \<longrightarrow> response_body buf' \<noteq> None \<and> length bs + ?n + 1 \<le> response_capacity buf'"
        "received env (trace s') = received env (trace ?s)"
      using ensure_capacity_total [OF assms(2), of "length bs + ?n + 1" env ?s] by auto
    show ?thesis
    proof (cases ok)
      case True
      with e copy_chunk_total [OF e(2), of ?n env "trace s"] n(2) obtain buf2 where
        "copy_chunk env (trace s) ?n buf' = Some buf2" "buf_holds buf2 (bs @ ?d)" by auto
      with False fits req e True n(1) show ?thesis
        by (auto simp: read_pass_def ask_def Let_def)
    next
      case notok: False
      with False fits req e show ?thesis by (auto simp: read_pass_def ask_def Let_def)
    qed
  qed
qed

text \<open>
  The loop ends, without undefined behaviour, with a buffer that holds what it had and what the
  server delivered since.
\<close>

lemma read_loop_total:
  assumes "reads_bounded env" and "buf_holds buf bs"
  shows "\<exists>e buf' s' bs'. read_loop env r buf s = Some (e, buf', s') \<and> buf_holds buf' bs' \<and>
    (e = None \<longrightarrow> (\<exists>d. bs' = bs @ d \<and> received env (trace s') = received env (trace s) @ d))"
  using assms(2)
proof (induction "VITAJS_HTTP_MAX_RESPONSE - length bs" arbitrary: bs buf s rule: less_induct)
  case less
  obtain p where p: "read_pass env r buf s = Some p" "pass_ok env (received env (trace s)) bs p"
    using read_pass_total [OF assms(1) less.prems] by blast
  show ?case
  proof (cases p)
    case (ReadMore buf1 s1)
    with p(2) obtain d where d: "d \<noteq> []" "buf_holds buf1 (bs @ d)" "received env (trace s1) = received env (trace s) @ d"
      by auto
    then have "VITAJS_HTTP_MAX_RESPONSE - length (bs @ d) < VITAJS_HTTP_MAX_RESPONSE - length bs"
      using buf_holds_limit [OF d(2)] by (cases d) auto
    from less.hyps [OF this d(2), of s1] p(1) ReadMore d(3) show ?thesis
      by (subst read_loop.simps) auto
  next
    case (ReadEnd buf1 s1)
    with p show ?thesis by (subst read_loop.simps) auto
  next
    case (ReadStop e buf1 s1)
    with p show ?thesis by (subst read_loop.simps) auto
  qed
qed

subsection \<open>Resources of the client code\<close>

lemma ensure_capacity_stacked:
  assumes "ensure_capacity env required buf s = Some (ok, buf', s')"
    and "stacked env st (response_body buf \<noteq> None) ss s"
  shows "stacked env st (response_body buf' \<noteq> None) ss s'"
proof -
  let ?call = "ReallocBody (response_body buf = None)"
  have call: "?call n = ReallocBody (\<not> response_body buf \<noteq> None) n" for n by simp
  have "stacked env st True ss (did (?call n) s)" if "n_alloc env (trace s) (?call n)" for n
    using stacked_realloc [OF assms(2), of n] that unfolding call by simp
  moreover have "stacked env st (response_body buf \<noteq> None) ss (did (?call n) s)"
    if "\<not> n_alloc env (trace s) (?call n)" for n
    using stacked_realloc [OF assms(2), of n] that unfolding call by simp
  ultimately show ?thesis
    using assms by (auto simp: ensure_capacity_def Let_def ask_def split: if_splits option.splits)
qed

lemma copy_chunk_body: "copy_chunk env h n buf = Some buf' \<Longrightarrow> response_body buf' \<noteq> None \<and> response_body buf \<noteq> None"
  by (auto simp: copy_chunk_def split: if_splits option.splits)

fun pass_stacked :: "net_env \<Rightarrow> resource list \<Rightarrow> cstr list \<Rightarrow> 's net_traced read_pass \<Rightarrow> bool" where
  "pass_stacked env st ss (ReadMore buf s) \<longleftrightarrow> stacked env st (response_body buf \<noteq> None) ss s"
| "pass_stacked env st ss (ReadEnd buf s) \<longleftrightarrow> stacked env st (response_body buf \<noteq> None) ss s"
| "pass_stacked env st ss (ReadStop e buf s) \<longleftrightarrow> stacked env st (response_body buf \<noteq> None) ss s"

lemma read_pass_stacked:
  assumes "read_pass env r buf s = Some p" and "stacked env st (response_body buf \<noteq> None) ss s"
    and "R_Http \<in> set st" and "R_Request r \<in> set st"
  shows "pass_stacked env st ss p"
proof -
  have rd: "stacked env st (response_body buf \<noteq> None) ss (did (ReadData r) s)"
    using stacked_neutral [OF assms(2), of "ReadData r"] assms(3,4) by simp
  have more: "stacked env st (response_body buf2 \<noteq> None) ss s1"
    if "ensure_capacity env required buf (did (ReadData r) s) = Some (ok, buf1, s1)"
      and "copy_chunk env h n buf1 = Some buf2" for required ok buf1 s1 h n buf2
    using ensure_capacity_stacked [OF that(1) rd] copy_chunk_body [OF that(2)] by simp
  show ?thesis
    using assms(1) rd more ensure_capacity_stacked [OF _ rd]
    by (auto simp: read_pass_def Let_def split: if_splits option.splits)
qed

lemma read_loop_stacked:
  assumes "read_loop env r buf s = Some res" and "stacked env st (response_body buf \<noteq> None) ss s"
    and "R_Http \<in> set st" and "R_Request r \<in> set st"
  shows "stacked env st (response_body (fst (snd res)) \<noteq> None) ss (snd (snd res))"
  using assms(2-)
proof (induction env r buf s res rule: read_loop.raw_induct)
  case (1 loop env r buf s res)
  from 1(2) obtain p where p: "read_pass env r buf s = Some p"
      "(case p of ReadStop e buf s \<Rightarrow> Some (Some e, buf, s) | ReadEnd buf s \<Rightarrow> Some (None, buf, s)
        | ReadMore buf s \<Rightarrow> loop env r buf s) = Some res"
    by (cases "read_pass env r buf s") auto
  from read_pass_stacked [OF p(1) 1(3-5)] p(2) 1(1,4,5) show ?case
    by (cases p) auto
next
  case 2
  show ?case by (rule assms(1))
qed

text \<open>\<open>http_open\<close>: on success all three handles are open, on a failure those obtained so far.\<close>

definition handles_stack :: "http_handles \<Rightarrow> resource list" where
  "handles_stack hs =
     (if 0 \<le> req hs then [R_Request (req hs)] else []) @ (if 0 \<le> conn hs then [R_Connection (conn hs)] else []) @
     (if 0 \<le> tpl hs then [R_Template (tpl hs)] else [])"

lemma http_open_stacked:
  assumes "http_open env method url n s = (res, hs, s')" and "stacked env st b ss s" and "R_Http \<in> set st"
  shows "stacked env (handles_stack hs @ st) b ss s' \<and> (res = None \<longrightarrow> 0 \<le> req hs \<and> 0 \<le> conn hs \<and> 0 \<le> tpl hs)"
proof -
  let ?t = "n_ret env (trace s) CreateTemplate" and ?s1 = "did CreateTemplate s"
  let ?cc = "CreateConnectionWithURL ?t url"
  let ?c = "n_ret env (trace ?s1) ?cc" and ?s2 = "did ?cc ?s1"
  let ?rc = "CreateRequestWithURL ?c method url n"
  let ?r = "n_ret env (trace ?s2) ?rc" and ?s3 = "did ?rc ?s2"
  have t: "stacked env (if ?t < 0 then st else R_Template ?t # st) b ss ?s1"
    using assms(2,3) stacked_neutral [OF assms(2), of CreateTemplate] stacked_acquire [OF assms(2), of CreateTemplate]
    by simp
  have c: "stacked env ((if ?c < 0 then [] else [R_Connection ?c]) @ R_Template ?t # st) b ss ?s2" if "\<not> ?t < 0"
    using that assms(3) t stacked_neutral [of env "R_Template ?t # st" b ss ?s1 ?cc]
      stacked_acquire [of env "R_Template ?t # st" b ss ?s1 ?cc] by auto
  have r: "stacked env ((if ?r < 0 then [] else [R_Request ?r]) @ R_Connection ?c # R_Template ?t # st) b ss ?s3"
    if "\<not> ?t < 0" "\<not> ?c < 0"
    using that assms(3) c stacked_neutral [of env "R_Connection ?c # R_Template ?t # st" b ss ?s2 ?rc]
      stacked_acquire [of env "R_Connection ?c # R_Template ?t # st" b ss ?s2 ?rc] by auto
  show ?thesis
    using assms(1) t c r
    by (auto simp: http_open_def Let_def ask_def handles_stack_def split: if_splits)
qed

lemma http_checked_stacked:
  assumes "http_checked env calls s = (res, s')" and "stacked env st b ss s"
    and "\<forall>(c, name)\<in>set calls. releases c = None \<and> (\<forall>h. acquires env h c = None) \<and>
      set (requires c) \<subseteq> set st \<and> \<not> heap_call c"
  shows "stacked env st b ss s'"
  using assms
proof (induction env calls s rule: http_checked.induct)
  case (2 env call name calls s)
  then have "stacked env st b ss (did call s)" using stacked_neutral [OF 2(3)] by simp
  with 2 show ?case by (auto simp: Let_def split: if_splits)
qed simp

text \<open>Only reading the response changes what has been received.\<close>

lemma http_checked_received:
  "http_checked env calls s = (res, s') \<Longrightarrow> \<forall>(c, name)\<in>set calls. \<forall>r. c \<noteq> ReadData r \<Longrightarrow>
   received env (trace s') = received env (trace s)"
proof (induction env calls s rule: http_checked.induct)
  case (2 env call name calls s)
  then have "received env (trace (did call s)) = received env (trace s)" by (cases call) auto
  with 2 show ?case by (auto simp: Let_def split: if_splits)
qed simp

lemma http_open_received:
  "http_open env method url n s = (res, hs, s') \<Longrightarrow> received env (trace s') = received env (trace s)"
  by (auto simp: http_open_def Let_def split: if_splits)

text \<open>What the buffer hands on is what it holds.\<close>

lemma body_bytes_holds: "buf_holds buf bs \<Longrightarrow> body_bytes buf = Some bs"
  by (auto simp: buf_holds_def body_bytes_def comp_def split: option.splits)

lemma terminate_body_holds:
  assumes "buf_holds buf bs"
  shows "\<exists>buf'. terminate_body buf = Some buf' \<and> buf_holds buf' bs \<and> (response_body buf' \<noteq> None) = (response_body buf \<noteq> None)"
proof (cases "response_body buf")
  case None
  with assms show ?thesis by (simp add: terminate_body_def)
next
  case (Some b)
  with assms have b: "length b = response_capacity buf" "length bs < length b" "length b \<le> VITAJS_HTTP_MAX_RESPONSE + 1"
      "take (length bs) b = map Some bs" "response_length buf = length bs"
    by (auto simp: buf_holds_def)
  then obtain b' where w: "write_at b (length bs) [Some 0] = Some b'"
    using write_at_in_bounds [of "length bs" "[Some 0]" b] by auto
  have "take (length bs) b' = take (length bs) (take (length bs + 1) b')" by (simp add: min_def)
  also have "\<dots> = map Some bs" using write_at_prefix [OF w] b(4) by simp
  finally show ?thesis
    using Some b w write_at_length [OF w] by (simp add: terminate_body_def buf_holds_def)
qed

text \<open>The client code touches nothing of the module's state but the history.\<close>

definition only_trace :: "'s net_traced \<Rightarrow> 's net_traced \<Rightarrow> bool" where
  "only_trace s s' \<longleftrightarrow> s' = s\<lparr>trace := trace s'\<rparr>"

lemma only_trace_refl [simp]: "only_trace s s"
  by (simp add: only_trace_def)

lemma only_trace_did [simp]: "only_trace s (did c s') \<longleftrightarrow> only_trace s s'"
  unfolding only_trace_def did_def by (metis (no_types, lifting) traced.equality traced.select_convs(1,2) traced.surjective traced.update_convs(1))

lemma only_trace_trans: "only_trace s s' \<Longrightarrow> only_trace s' s'' \<Longrightarrow> only_trace s s''"
  unfolding only_trace_def by (metis (no_types, lifting) traced.surjective traced.update_convs(1))

lemma http_open_only_trace: "http_open env method url n s = (res, hs, s') \<Longrightarrow> only_trace s s'"
  by (auto simp: http_open_def Let_def split: if_splits)

lemma http_checked_only_trace: "http_checked env calls s = (res, s') \<Longrightarrow> only_trace s s'"
proof (induction env calls s rule: http_checked.induct)
  case (2 env call name calls s)
  then have "only_trace s (did call s)" by simp
  with 2 only_trace_trans [of s "did call s"] show ?case by (auto simp: Let_def split: if_splits)
qed simp

lemma ensure_capacity_only_trace: "ensure_capacity env required buf s = Some (ok, buf', s') \<Longrightarrow> only_trace s s'"
  by (auto simp: ensure_capacity_def Let_def split: if_splits option.splits)

fun pass_only_trace :: "'s net_traced \<Rightarrow> 's net_traced read_pass \<Rightarrow> bool" where
  "pass_only_trace s (ReadMore buf s') = only_trace s s'"
| "pass_only_trace s (ReadEnd buf s') = only_trace s s'"
| "pass_only_trace s (ReadStop e buf s') = only_trace s s'"

lemma read_pass_only_trace: "read_pass env r buf s = Some p \<Longrightarrow> pass_only_trace s p"
  using only_trace_trans [of s "did (ReadData r) s"]
  by (auto simp: read_pass_def Let_def split: if_splits option.splits dest!: ensure_capacity_only_trace)

lemma read_loop_only_trace:
  assumes "read_loop env r buf s = Some res"
  shows "only_trace s (snd (snd res))"
proof (induction env r buf s res rule: read_loop.raw_induct)
  case (1 loop env r buf s res)
  from 1(2) obtain p where p: "read_pass env r buf s = Some p"
      "(case p of ReadStop e buf s \<Rightarrow> Some (Some e, buf, s) | ReadEnd buf s \<Rightarrow> Some (None, buf, s)
        | ReadMore buf s \<Rightarrow> loop env r buf s) = Some res"
    by (cases "read_pass env r buf s") auto
  have "loop env r buf1 s1 = Some res \<Longrightarrow> only_trace s1 (snd (snd res))" for buf1 s1 by (rule 1(1))
  with read_pass_only_trace [OF p(1)] p(2) show ?case
    by (cases p) (auto intro: only_trace_trans simp del: split_paired_All)
next
  case 2
  show ?case by (rule assms)
qed

text \<open>The calls a client may put between opening and reading.\<close>

definition plain_calls :: "int \<Rightarrow> (net_call \<times> string) list \<Rightarrow> bool" where
  "plain_calls r calls \<longleftrightarrow> (\<forall>(c, name)\<in>set calls. releases c = None \<and> (\<forall>env h. acquires env h c = None) \<and>
     set (requires c) \<subseteq> {R_Http, R_Request r} \<and> \<not> heap_call c \<and> (\<forall>q. c \<noteq> ReadData q))"

text \<open>
  A transfer always ends without undefined behaviour; it leaves exactly its handles and its
  buffer open, and on success the buffer holds the bytes the server delivered.
\<close>

lemma http_transfer_total:
  assumes "reads_bounded env" and "stacked env st False ss s" and "R_Http \<in> set st" and "\<forall>r. plain_calls r (calls r)"
  shows "\<exists>res hs buf s' bs. http_transfer env method url n calls s = Some (res, hs, buf, s') \<and> only_trace s s' \<and>
    stacked env (handles_stack hs @ st) (response_body buf \<noteq> None) ss s' \<and> buf_holds buf bs \<and>
    (\<forall>status. res = Inr status \<longrightarrow>
       0 \<le> req hs \<and> 0 \<le> conn hs \<and> 0 \<le> tpl hs \<and> received env (trace s') = received env (trace s) @ bs)"
proof -
  obtain res1 hs s1 where o: "http_open env method url n s = (res1, hs, s1)" by (metis prod_cases3)
  note o_facts = http_open_stacked [OF o assms(2,3)] http_open_only_trace [OF o] http_open_received [OF o]
  have empty: "response_body empty_buffer = None" by (simp add: empty_buffer_def)
  show ?thesis
  proof (cases res1)
    case (Some f)
    with o o_facts buf_holds_empty empty show ?thesis by (cases f) (auto simp: http_transfer_def)
  next
    case None
    let ?st = "handles_stack hs @ st"
    have r: "R_Request (req hs) \<in> set ?st" "R_Http \<in> set ?st" using None o_facts(1) assms(3) by (auto simp: handles_stack_def)
    obtain res2 s2 where c: "http_checked env (calls (req hs)) s1 = (res2, s2)" by fastforce
    have pl: "plain_calls (req hs) (calls (req hs))" using assms(4) by simp
    have c_st: "stacked env ?st False ss s2"
      by (rule http_checked_stacked [OF c]) (use o_facts(1) pl r in \<open>auto simp: plain_calls_def\<close>)
    have c_rcv: "received env (trace s2) = received env (trace s)"
      using http_checked_received [OF c] pl o_facts(3) by (fastforce simp: plain_calls_def)
    have c_only: "only_trace s s2" using o_facts(2) http_checked_only_trace [OF c] only_trace_trans by blast
    show ?thesis
    proof (cases res2)
      case (Some f)
      with o None c c_st c_only buf_holds_empty empty show ?thesis by (cases f) (auto simp: http_transfer_def)
    next
      case none2: None
      let ?call = "GetStatusCode (req hs)" and ?s3 = "did (GetStatusCode (req hs)) s2"
      have s3: "stacked env ?st False ss ?s3" using stacked_neutral [OF c_st, of ?call] r by simp
      show ?thesis
      proof (cases "n_ret env (trace s2) ?call < 0")
        case True
        with o None c none2 s3 c_only buf_holds_empty empty show ?thesis
          by (auto simp: http_transfer_def ask_def Let_def)
      next
        case False
        obtain e buf s4 bs where l: "read_loop env (req hs) empty_buffer ?s3 = Some (e, buf, s4)" "buf_holds buf bs"
            "e = None \<longrightarrow> received env (trace s4) = received env (trace s) @ bs"
          using read_loop_total [OF assms(1) buf_holds_empty, of "req hs" ?s3] c_rcv by auto
        have l_st: "stacked env ?st (response_body buf \<noteq> None) ss s4"
          using read_loop_stacked [OF l(1) _ r(2,1)] s3 empty by simp
        have l_only: "only_trace s s4"
          using read_loop_only_trace [OF l(1)] c_only only_trace_trans [of s ?s3 s4] by simp
        obtain buf' where t: "terminate_body buf = Some buf'" "buf_holds buf' bs"
            "(response_body buf' \<noteq> None) = (response_body buf \<noteq> None)"
          using terminate_body_holds [OF l(2)] by blast
        show ?thesis
        proof (cases e)
          case None
          have "http_transfer env method url n calls s = Some (Inr (n_status env (trace s2)), hs, buf', s4)"
            using o \<open>res1 = None\<close> c none2 False l(1) None t(1) by (simp add: http_transfer_def ask_def Let_def)
          with l_st l_only l(3) t None o_facts(1) \<open>res1 = None\<close> show ?thesis by auto
        next
          case (Some err)
          have "http_transfer env method url n calls s = Some (Inl (BodyFailed err), hs, buf, s4)"
            using o \<open>res1 = None\<close> c none2 False l(1) Some by (simp add: http_transfer_def ask_def Let_def)
          with l_st l_only l(2) show ?thesis by auto
        qed
      qed
    qed
  qed
qed

lemma stacked_release_if:
  assumes "stacked env ((if P then [x] else []) @ st) b ss s" and "releases c = Some x" and "requires c = []" and "\<not> heap_call c"
  shows "stacked env st b ss (if P then did c s else s)"
  using assms stacked_release by (cases P) auto

lemma http_delete_stacked:
  assumes "stacked env (handles_stack hs @ st) b ss s"
  shows "stacked env st b ss (http_delete_handles hs s)"
  unfolding http_delete_handles_def Let_def
  by (rule stacked_release_if stacked_release_if | use assms in \<open>simp add: handles_stack_def\<close>)+

lemma http_delete_only_trace: "only_trace s s' \<Longrightarrow> only_trace s (http_delete_handles hs s')"
  by (simp add: http_delete_handles_def Let_def)

lemma http_delete_received [simp]: "received env (trace (http_delete_handles hs s)) = received env (trace s)"
  by (simp add: http_delete_handles_def Let_def)

subsection \<open>The interface to the network libraries\<close>

text \<open>
  What the client code relies on: a module that brings the libraries up on demand
  (\<open>ensure\<close>) and knows what it holds (\<open>lib\<close>), whatever state it keeps for that.
\<close>

locale http_library =
  fixes env :: net_env
    and ensure :: "'s net_traced \<Rightarrow> unit js_result \<times> 's net_traced"
    and lib :: "'s net_traced \<Rightarrow> resource list"
    and nested :: "'s net_traced \<Rightarrow> bool"
  assumes ensure_keeps: "stacked env (lib s) b ss s \<Longrightarrow> nested s \<Longrightarrow> ensure s = (r, s') \<Longrightarrow>
      stacked env (lib s') b ss s' \<and> nested s'"
    and ensure_ready: "stacked env (lib s) b ss s \<Longrightarrow> nested s \<Longrightarrow> ensure s = (Inr u, s') \<Longrightarrow>
      R_Http \<in> set (lib s') \<and> R_NetCtl \<in> set (lib s')"
    and ensure_received: "ensure s = (r, s') \<Longrightarrow> received env (trace s') = received env (trace s)"
    and lib_trace: "lib (s\<lparr>trace := t\<rparr>) = lib s"
    and nested_trace: "nested (s\<lparr>trace := t\<rparr>) = nested s"
begin

definition lib_ok :: "bool \<Rightarrow> cstr list \<Rightarrow> 's net_traced \<Rightarrow> bool" where
  "lib_ok b ss s \<longleftrightarrow> stacked env (lib s) b ss s \<and> nested s"

lemma lib_only_trace: "only_trace s s' \<Longrightarrow> lib s' = lib s \<and> nested s' = nested s"
proof -
  assume "only_trace s s'"
  then obtain t where "s' = s\<lparr>trace := t\<rparr>" unfolding only_trace_def by blast
  then show ?thesis by (simp only: lib_trace nested_trace)
qed

lemma ensure_ok: "lib_ok b ss s \<Longrightarrow> ensure s = (r, s') \<Longrightarrow> lib_ok b ss s'"
  unfolding lib_ok_def using ensure_keeps by blast

lemma query_ok:
  assumes "lib_ok b ss s" and "ensure s = (Inr u, s')" and "c = InetGetState \<or> c = InetGetInfo"
  shows "lib_ok b ss (did c s')"
proof -
  have s': "stacked env (lib s') b ss s'" "nested s'" "R_NetCtl \<in> set (lib s')"
    using assms(1,2) ensure_keeps ensure_ready unfolding lib_ok_def by blast+
  then have "stacked env (lib s') b ss (did c s')" using stacked_neutral [OF s'(1), of c] assms(3) by auto
  then show ?thesis using s'(2) lib_only_trace [of s' "did c s'"] by (simp add: lib_ok_def)
qed

text \<open>
  A transfer after \<open>ensure\<close>: it ends, and releasing its handles leaves only its buffer.
\<close>

lemma transfer_ok:
  assumes "reads_bounded env" and "lib_ok False ss s" and "ensure s = (Inr u, s1)" and "\<forall>r. plain_calls r (calls r)"
  shows "\<exists>res hs buf s2 bs. http_transfer env meth url n calls s1 = Some (res, hs, buf, s2) \<and> buf_holds buf bs \<and>
    stacked env (handles_stack hs @ lib s1) (response_body buf \<noteq> None) ss s2 \<and> only_trace s1 s2 \<and> nested s1 \<and>
    (\<forall>status. res = Inr status \<longrightarrow>
       0 \<le> req hs \<and> 0 \<le> conn hs \<and> 0 \<le> tpl hs \<and> received env (trace s2) = received env (trace s) @ bs)"
proof -
  have s1: "stacked env (lib s1) False ss s1" "nested s1" "R_Http \<in> set (lib s1)"
    "received env (trace s1) = received env (trace s)"
    using assms(2,3) ensure_keeps ensure_ready ensure_received unfolding lib_ok_def by blast+
  from http_transfer_total [OF assms(1) s1(1,3) assms(4), of meth url n] s1(2,4) show ?thesis
    by metis
qed

lemma released_ok:
  assumes "stacked env (lib s1) b ss s'" and "only_trace s1 s'" and "nested s1"
  shows "lib_ok b ss s'"
  using assms lib_only_trace [OF assms(2)] by (simp add: lib_ok_def)

end

end
