(* ===== verification/Net.thy ===== *)
theory Net
  imports Http_Client
begin

text \<open>
  The blocking network module (src/src/modules/net.c): bringing the libraries up in stages and
  down in the reverse order, HTTP requests, and the connection queries.  The module's statics are
  the record \<open>net_state\<close>; the functions that src/src/modules/net_async.c shares with it take
  the wider \<open>net_state_scheme\<close>.
\<close>

subsection \<open>State\<close>

record net_state = "net_call traced" +
  net_memory :: bool
  net_initialized :: bool
  netctl_initialized :: bool
  http_initialized :: bool
  net_module_loaded :: bool
  http_module_loaded :: bool

definition net_start :: net_state where
  "net_start = \<lparr>trace = [], net_memory = False, net_initialized = False, netctl_initialized = False,
     http_initialized = False, net_module_loaded = False, http_module_loaded = False\<rparr>"

subsection \<open>Initialisation and shutdown\<close>

text \<open>The stages of \<open>net_ensure_initialized\<close>; \<open>name\<close> is the operation in the error message.\<close>

definition load_net_module ::
  "net_env \<Rightarrow> string \<Rightarrow> 's net_state_scheme \<Rightarrow> unit js_result \<times> 's net_state_scheme" where
  "load_net_module env name s =
     (if net_module_loaded s then (Inr (), s)
      else let call = SysmoduleLoadModule SYSMODULE_NET; ret = ask (n_ret env) s call; s = did call s in
      if ret < 0 then (throw_sce_error name ret, s) else (Inr (), s\<lparr>net_module_loaded := True\<rparr>))"

definition init_net :: "net_env \<Rightarrow> 's net_state_scheme \<Rightarrow> unit js_result \<times> 's net_state_scheme" where
  "init_net env s =
     (if net_initialized s then (Inr (), s)
      else let ok = ask (n_alloc env) s MallocPool; s = (did MallocPool s)\<lparr>net_memory := ok\<rparr> in
      if \<not> ok then (Inl OutOfMemory, s)
      else let ret = ask (n_ret env) s NetInit; s = did NetInit s in
      if ret < 0 then (throw_sce_error ''sceNetInit'' ret, (did FreePool s)\<lparr>net_memory := False\<rparr>)
      else (Inr (), s\<lparr>net_initialized := True\<rparr>))"

definition init_netctl :: "net_env \<Rightarrow> 's net_state_scheme \<Rightarrow> unit js_result \<times> 's net_state_scheme" where
  "init_netctl env s =
     (if netctl_initialized s then (Inr (), s)
      else let ret = ask (n_ret env) s NetCtlInit; s = did NetCtlInit s in
      if ret < 0 then (throw_sce_error ''sceNetCtlInit'' ret, s) else (Inr (), s\<lparr>netctl_initialized := True\<rparr>))"

definition load_http_module ::
  "net_env \<Rightarrow> string \<Rightarrow> 's net_state_scheme \<Rightarrow> unit js_result \<times> 's net_state_scheme" where
  "load_http_module env name s =
     (if http_module_loaded s then (Inr (), s)
      else let call = SysmoduleLoadModule SYSMODULE_HTTP; ret = ask (n_ret env) s call; s = did call s in
      if ret < 0 then (throw_sce_error name ret, s) else (Inr (), s\<lparr>http_module_loaded := True\<rparr>))"

definition init_http :: "net_env \<Rightarrow> 's net_state_scheme \<Rightarrow> unit js_result \<times> 's net_state_scheme" where
  "init_http env s =
     (if http_initialized s then (Inr (), s)
      else let ret = ask (n_ret env) s HttpInit; s = did HttpInit s in
      if ret < 0 \<and> ret \<noteq> http_error_already_inited env then (throw_sce_error ''sceHttpInit'' ret, s)
      else (Inr (), s\<lparr>http_initialized := True\<rparr>))"

fun init_stages :: "('s \<Rightarrow> unit js_result \<times> 's) list \<Rightarrow> 's \<Rightarrow> unit js_result \<times> 's" where
  "init_stages [] s = (Inr (), s)"
| "init_stages (f # fs) s = (case f s of (Inl e, s) \<Rightarrow> (Inl e, s) | (Inr _, s) \<Rightarrow> init_stages fs s)"

definition net_ensure_initialized ::
  "net_env \<Rightarrow> 's net_state_scheme \<Rightarrow> unit js_result \<times> 's net_state_scheme" where
  "net_ensure_initialized env s =
     (if http_initialized s then (Inr (), s)
      else init_stages
        [load_net_module env ''sceSysmoduleLoadModule(SCE_SYSMODULE_NET)'', init_net env, init_netctl env,
         load_http_module env ''sceSysmoduleLoadModule(SCE_SYSMODULE_HTTP)'', init_http env] s)"

definition net_shutdown :: "'s net_state_scheme \<Rightarrow> 's net_state_scheme" where
  "net_shutdown s =
     (let s = (if http_initialized s then (did HttpTerm s)\<lparr>http_initialized := False\<rparr> else s);
          s = (if http_module_loaded s then (did (SysmoduleUnloadModule SYSMODULE_HTTP) s)\<lparr>http_module_loaded := False\<rparr> else s);
          s = (if netctl_initialized s then (did NetCtlTerm s)\<lparr>netctl_initialized := False\<rparr> else s);
          s = (if net_initialized s then (did NetTerm s)\<lparr>net_initialized := False\<rparr> else s);
          s = (if net_memory s then (did FreePool s)\<lparr>net_memory := False\<rparr> else s)
      in if net_module_loaded s then (did (SysmoduleUnloadModule SYSMODULE_NET) s)\<lparr>net_module_loaded := False\<rparr> else s)"

subsection \<open>Requests\<close>

definition method_from_string :: "string \<Rightarrow> http_method option" where
  "method_from_string m =
     (if m = ''GET'' then Some METHOD_GET
      else if m = ''POST'' then Some METHOD_POST
      else if m = ''PUT'' then Some METHOD_PUT
      else if m = ''DELETE'' then Some METHOD_DELETE
      else if m = ''HEAD'' then Some METHOD_HEAD
      else if m = ''OPTIONS'' then Some METHOD_OPTIONS
      else None)"

text \<open>The response object: its properties are set one by one, and the first failure is passed on.\<close>

fun response_properties :: "net_env \<Rightarrow> (string \<times> jsval) list \<Rightarrow> 's net_traced \<Rightarrow> bool \<times> 's net_traced" where
  "response_properties env [] s = (True, s)"
| "response_properties env ((name, v) # ps) s =
     (let ret = ask (n_ret env) s (JsSetProperty name); s = did (JsSetProperty name) s in
      if ret < 0 then (False, s) else response_properties env ps s)"

definition response_fields :: "int \<Rightarrow> nat list \<Rightarrow> (string \<times> jsval) list" where
  "response_fields status bytes =
     [(''status'', JInt status), (''ok'', JBool (status \<ge> 200 \<and> status < 300)),
      (''body'', JString (map char_of bytes))]"

definition make_response :: "net_env \<Rightarrow> int \<Rightarrow> nat list \<Rightarrow> 's net_traced \<Rightarrow> jsval js_result \<times> 's net_traced" where
  "make_response env status bytes s =
     (let ok = (0 \<le> ask (n_ret env) s JsNewObject); s = did JsNewObject s in
      if \<not> ok then (Inl Pending, s)
      else case response_properties env (response_fields status bytes) s of
        (ok, s) \<Rightarrow> (if ok then Inr (JObject (response_fields status bytes)) else Inl Pending, s))"

text \<open>The calls between opening the request and asking for its status.\<close>

definition request_calls :: "string option \<Rightarrow> string option \<Rightarrow> int \<Rightarrow> (net_call \<times> string) list" where
  "request_calls body content_type r =
     (let n = (case body of None \<Rightarrow> 0 | Some b \<Rightarrow> length b) in
      [(SetAutoRedirect r, ''sceHttpSetAutoRedirect''),
       (AddRequestHeader r ''Accept'' ''*/*'', ''sceHttpAddRequestHeader(Accept)'')] @
      (if n > 0
       then [(AddRequestHeader r ''Content-Type''
                (case content_type of None \<Rightarrow> ''text/plain; charset=utf-8'' | Some t \<Rightarrow> t),
              ''sceHttpAddRequestHeader(Content-Type)'')]
       else []) @
      [(SendRequest r body n, ''sceHttpSendRequest'')])"

text \<open>The label \<open>fail\<close>: -1 marks a failure that has no error code of the system.\<close>

definition request_error :: "string \<Rightarrow> int \<Rightarrow> jsval js_result" where
  "request_error failed_operation ret =
     (if ret = - 1 then Inl (InternalError failed_operation) else throw_sce_error failed_operation ret)"

fun transfer_error :: "http_failure \<Rightarrow> jsval js_result" where
  "transfer_error (OpFailed op ret) = request_error op ret"
| "transfer_error (BodyFailed (ReadFailed ret)) = request_error ''sceHttpReadData'' ret"
| "transfer_error (BodyFailed ResponseTooLarge) = request_error ''HTTP response exceeds VitaJS 8 MB limit'' (- 1)"
| "transfer_error (BodyFailed ReadOutOfMemory) = Inl OutOfMemory"

definition free_body :: "body_buffer \<Rightarrow> 's net_traced \<Rightarrow> 's net_traced" where
  "free_body buf s = (if response_body buf = None then s else did FreeBody s)"

definition net_request_native ::
  "net_env \<Rightarrow> string \<Rightarrow> string \<Rightarrow> string option \<Rightarrow> string option \<Rightarrow> net_state \<Rightarrow> (jsval js_result \<times> net_state) option" where
  "net_request_native env method_string url body content_type s =
     (case method_from_string method_string of
        None \<Rightarrow> Some (Inl (TypeError (''Unsupported HTTP method: '' @ method_string)), s)
      | Some method \<Rightarrow>
        (case net_ensure_initialized env s of
           (Inl e, s) \<Rightarrow> Some (Inl e, s)
         | (Inr _, s) \<Rightarrow>
           (case http_transfer env method url (case body of None \<Rightarrow> 0 | Some b \<Rightarrow> length b)
                   (request_calls body content_type) s of
              None \<Rightarrow> None
            | Some (Inl failure, hs, buf, s) \<Rightarrow>
                Some (transfer_error failure, http_delete_handles hs (free_body buf s))
            | Some (Inr status, hs, buf, s) \<Rightarrow>
                (case body_bytes buf of
                   None \<Rightarrow> None
                 | Some bytes \<Rightarrow>
                   (case make_response env status bytes s of
                      (response, s) \<Rightarrow>
                        Some (response, did (DeleteTemplate (tpl hs)) (did (DeleteConnection (conn hs))
                          (did (DeleteRequest (req hs)) (free_body buf s)))))))))"

subsection \<open>The JavaScript functions\<close>

text \<open>
  \<open>JS_ToCString\<close> of an argument, remembered in the history when it succeeds, and
  \<open>JS_FreeCString\<close> of what is not NULL.
\<close>

definition get_cstring :: "js_engine \<Rightarrow> nat \<Rightarrow> jsval \<Rightarrow> 's net_traced \<Rightarrow> cstr option \<times> 's net_traced" where
  "get_cstring js i v s =
     (case ToCString js v of
        None \<Rightarrow> (None, s)
      | Some text \<Rightarrow> (Some (FromArg i text), did (JsToCString (FromArg i text)) s))"

text \<open>An optional argument: NULL when it is not given.  The boolean is False after an exception.\<close>

definition get_optional_cstring ::
  "js_engine \<Rightarrow> nat \<Rightarrow> jsval list \<Rightarrow> 's net_traced \<Rightarrow> bool \<times> cstr option \<times> 's net_traced" where
  "get_optional_cstring js i argv s =
     (if i < length argv \<and> \<not> absent (argv ! i)
      then case get_cstring js i (argv ! i) s of (c, s) \<Rightarrow> (c \<noteq> None, c, s)
      else (True, None, s))"

fun free_cstrings :: "cstr option list \<Rightarrow> 's net_traced \<Rightarrow> 's net_traced" where
  "free_cstrings [] s = s"
| "free_cstrings (None # cs) s = free_cstrings cs s"
| "free_cstrings (Some c # cs) s = free_cstrings cs (did (JsFreeCString c) s)"

definition vitajs_net_request ::
  "js_engine \<Rightarrow> net_env \<Rightarrow> jsval list \<Rightarrow> net_state \<Rightarrow> (jsval js_result \<times> net_state) option" where
  "vitajs_net_request js env argv s =
     (if length argv < 2 \<or> length argv > 4
      then Some (Inl (SyntaxError ''request(method, url[, body[, contentType]])''), s)
      else case get_cstring js 0 (argv ! 0) s of
        (None, s) \<Rightarrow> Some (Inl Pending, s)
      | (Some method, s) \<Rightarrow> (case get_cstring js 1 (argv ! 1) s of
          (None, s) \<Rightarrow> Some (Inl Pending, free_cstrings [Some method] s)
        | (Some url, s) \<Rightarrow> (case get_optional_cstring js 2 argv s of
            (ok, body, s) \<Rightarrow>
              if \<not> ok then Some (Inl Pending, free_cstrings [Some url, Some method] s)
              else (case get_optional_cstring js 3 argv s of
                (ok, content_type, s) \<Rightarrow>
                  if \<not> ok then Some (Inl Pending, free_cstrings [body, Some url, Some method] s)
                  else map_option (\<lambda>(result, s). (result, free_cstrings [content_type, body, Some url, Some method] s))
                    (net_request_native env (c_text method) (c_text url) (map_option c_text body)
                       (map_option c_text content_type) s)))))"

definition vitajs_net_get ::
  "js_engine \<Rightarrow> net_env \<Rightarrow> jsval list \<Rightarrow> net_state \<Rightarrow> (jsval js_result \<times> net_state) option" where
  "vitajs_net_get js env argv s =
     (if length argv \<noteq> 1 then Some (Inl (SyntaxError ''get(url)''), s)
      else case get_cstring js 0 (argv ! 0) s of
        (None, s) \<Rightarrow> Some (Inl Pending, s)
      | (Some url, s) \<Rightarrow>
          map_option (\<lambda>(result, s). (result, free_cstrings [Some url] s))
            (net_request_native env ''GET'' (c_text url) None None s))"

definition vitajs_net_post ::
  "js_engine \<Rightarrow> net_env \<Rightarrow> jsval list \<Rightarrow> net_state \<Rightarrow> (jsval js_result \<times> net_state) option" where
  "vitajs_net_post js env argv s =
     (if length argv < 2 \<or> length argv > 3 then Some (Inl (SyntaxError ''post(url, body[, contentType])''), s)
      else case get_cstring js 0 (argv ! 0) s of
        (None, s) \<Rightarrow> Some (Inl Pending, s)
      | (Some url, s) \<Rightarrow> (case get_cstring js 1 (argv ! 1) s of
          (None, s) \<Rightarrow> Some (Inl Pending, free_cstrings [Some url] s)
        | (Some body, s) \<Rightarrow> (case get_optional_cstring js 2 argv s of
            (ok, given, s) \<Rightarrow>
              if \<not> ok then Some (Inl Pending, free_cstrings [Some body, Some url] s)
              else let content_type = (case given of None \<Rightarrow> Literal ''application/json'' | Some c \<Rightarrow> c) in
                map_option (\<lambda>(result, s). (result,
                    free_cstrings [if length argv = 3 then Some content_type else None, Some body, Some url] s))
                  (net_request_native env ''POST'' (c_text url) (Some (c_text body)) (Some (c_text content_type)) s))))"

definition vitajs_net_is_connected :: "net_env \<Rightarrow> jsval list \<Rightarrow> net_state \<Rightarrow> jsval js_result \<times> net_state" where
  "vitajs_net_is_connected env argv s =
     (if argv \<noteq> [] then (Inl (SyntaxError ''is_connected()''), s)
      else case net_ensure_initialized env s of
        (Inl e, s) \<Rightarrow> (Inl e, s)
      | (Inr _, s) \<Rightarrow>
          let ret = ask (n_ret env) s InetGetState; state = n_state env (trace s); s = did InetGetState s in
          if ret < 0 then (throw_sce_error ''sceNetCtlInetGetState'' ret, s)
          else (Inr (JBool (state = netctl_state_connected env)), s))"

definition vitajs_net_get_ip :: "net_env \<Rightarrow> jsval list \<Rightarrow> net_state \<Rightarrow> jsval js_result \<times> net_state" where
  "vitajs_net_get_ip env argv s =
     (if argv \<noteq> [] then (Inl (SyntaxError ''get_ip()''), s)
      else case net_ensure_initialized env s of
        (Inl e, s) \<Rightarrow> (Inl e, s)
      | (Inr _, s) \<Rightarrow>
          let ret = ask (n_ret env) s InetGetInfo; ip = n_ip env (trace s); s = did InetGetInfo s in
          if ret < 0 then (throw_sce_error ''sceNetCtlInetGetInfo'' ret, s) else (Inr (JString ip), s))"

definition vitajs_net_term :: "jsval list \<Rightarrow> net_state \<Rightarrow> jsval js_result \<times> net_state" where
  "vitajs_net_term argv s =
     (if argv \<noteq> [] then (Inl (SyntaxError ''term()''), s) else (Inr JUndefined, net_shutdown s))"

subsection \<open>The library stages nest\<close>

text \<open>What the flags say is open, innermost first, and the order in which they can be set.\<close>

definition lib_stack :: "'s net_state_scheme \<Rightarrow> resource list" where
  "lib_stack s =
     (if http_initialized s then [R_Http] else []) @
     (if http_module_loaded s then [R_Module SYSMODULE_HTTP] else []) @
     (if netctl_initialized s then [R_NetCtl] else []) @
     (if net_initialized s then [R_Net] else []) @
     (if net_memory s then [R_Pool] else []) @
     (if net_module_loaded s then [R_Module SYSMODULE_NET] else [])"

definition lib_nested :: "'s net_state_scheme \<Rightarrow> bool" where
  "lib_nested s \<longleftrightarrow>
     (http_initialized s \<longrightarrow> http_module_loaded s) \<and> (http_module_loaded s \<longrightarrow> netctl_initialized s) \<and>
     (netctl_initialized s \<longrightarrow> net_initialized s) \<and> (net_initialized s \<longleftrightarrow> net_memory s) \<and>
     (net_memory s \<longrightarrow> net_module_loaded s)"

definition lib_good :: "net_env \<Rightarrow> bool \<Rightarrow> cstr list \<Rightarrow> 's net_state_scheme \<Rightarrow> bool" where
  "lib_good env b ss s \<longleftrightarrow> stacked env (lib_stack s) b ss s \<and> lib_nested s"

lemmas lib_defs = lib_good_def stacked_def lib_stack_def lib_nested_def call_legal_def ask_def did_def
  Let_def throw_sce_error_def

lemma load_net_module_good:
  "lib_good env b ss s \<Longrightarrow> load_net_module env name s = (r, s') \<Longrightarrow>
   lib_good env b ss s' \<and> (r = Inr () \<longrightarrow> net_module_loaded s')"
  by (auto simp: load_net_module_def lib_defs split: if_splits)

lemma init_net_good:
  "lib_good env b ss s \<Longrightarrow> net_module_loaded s \<Longrightarrow> init_net env s = (r, s') \<Longrightarrow>
   lib_good env b ss s' \<and> (r = Inr () \<longrightarrow> net_initialized s')"
  by (auto simp: init_net_def lib_defs split: if_splits)

lemma init_netctl_good:
  "lib_good env b ss s \<Longrightarrow> net_initialized s \<Longrightarrow> init_netctl env s = (r, s') \<Longrightarrow>
   lib_good env b ss s' \<and> (r = Inr () \<longrightarrow> netctl_initialized s')"
  by (auto simp: init_netctl_def lib_defs split: if_splits)

lemma load_http_module_good:
  "lib_good env b ss s \<Longrightarrow> netctl_initialized s \<Longrightarrow> load_http_module env name s = (r, s') \<Longrightarrow>
   lib_good env b ss s' \<and> (r = Inr () \<longrightarrow> http_module_loaded s')"
  by (auto simp: load_http_module_def lib_defs split: if_splits)

lemma init_http_good:
  "lib_good env b ss s \<Longrightarrow> http_module_loaded s \<Longrightarrow> init_http env s = (r, s') \<Longrightarrow>
   lib_good env b ss s' \<and> (r = Inr () \<longrightarrow> http_initialized s')"
  by (auto simp: init_http_def lib_defs split: if_splits)

text \<open>All stages in a row, with the names the module gives its error messages.\<close>

lemma init_stages_good:
  assumes "lib_good env b ss s"
    and "init_stages [load_net_module env n1, init_net env, init_netctl env, load_http_module env n2, init_http env] s = (r, s')"
  shows "lib_good env b ss s' \<and> (r = Inr () \<longrightarrow> http_initialized s')"
proof -
  obtain r1 s1 where 1: "load_net_module env n1 s = (r1, s1)" by fastforce
  obtain r2 s2 where 2: "init_net env s1 = (r2, s2)" by fastforce
  obtain r3 s3 where 3: "init_netctl env s2 = (r3, s3)" by fastforce
  obtain r4 s4 where 4: "load_http_module env n2 s3 = (r4, s4)" by fastforce
  obtain r5 s5 where 5: "init_http env s4 = (r5, s5)" by fastforce
  note eqs = 1 2 3 4 5
  have 1: "lib_good env b ss s1" "r1 = Inr () \<Longrightarrow> net_module_loaded s1"
    using load_net_module_good [OF assms(1) 1] by auto
  have 2: "lib_good env b ss s2" "r2 = Inr () \<Longrightarrow> net_initialized s2" if "r1 = Inr ()"
    using init_net_good [OF 1(1) 1(2) 2] that by auto
  have 3: "lib_good env b ss s3" "r3 = Inr () \<Longrightarrow> netctl_initialized s3" if "r1 = Inr ()" "r2 = Inr ()"
    using init_netctl_good [OF 2(1) 2(2) 3] that by auto
  have 4: "lib_good env b ss s4" "r4 = Inr () \<Longrightarrow> http_module_loaded s4" if "r1 = Inr ()" "r2 = Inr ()" "r3 = Inr ()"
    using load_http_module_good [OF 3(1) 3(2) 4] that by auto
  have 5: "lib_good env b ss s5" "r5 = Inr () \<Longrightarrow> http_initialized s5"
    if "r1 = Inr ()" "r2 = Inr ()" "r3 = Inr ()" "r4 = Inr ()"
    using init_http_good [OF 4(1) 4(2) 5] that by auto
  show ?thesis
    using assms(2) 1 2 3 4 5 by (simp add: eqs split: sum.splits) (auto split: sum.splits)
qed

lemma net_ensure_good:
  assumes "lib_good env b ss s" and "net_ensure_initialized env s = (r, s')"
  shows "lib_good env b ss s' \<and> (r = Inr () \<longrightarrow> http_initialized s')"
  using assms init_stages_good [OF assms(1)] by (auto simp: net_ensure_initialized_def split: if_splits)

lemma init_stage_received:
  "load_net_module env n s = (r, s') \<Longrightarrow> received env (trace s') = received env (trace s)"
  "init_net env s = (r, s') \<Longrightarrow> received env (trace s') = received env (trace s)"
  "init_netctl env s = (r, s') \<Longrightarrow> received env (trace s') = received env (trace s)"
  "load_http_module env n s = (r, s') \<Longrightarrow> received env (trace s') = received env (trace s)"
  "init_http env s = (r, s') \<Longrightarrow> received env (trace s') = received env (trace s)"
  by (auto simp: load_net_module_def init_net_def init_netctl_def load_http_module_def init_http_def
      Let_def did_def split: if_splits)

lemma init_stages_received:
  assumes "\<And>f s r s'. f \<in> set fs \<Longrightarrow> f s = (r, s') \<Longrightarrow> received env (trace s') = received env (trace s)"
    and "init_stages fs s = (r, s')"
  shows "received env (trace s') = received env (trace s)"
  using assms
proof (induction fs s rule: init_stages.induct)
  case (2 f fs s)
  obtain r1 s1 where f: "f s = (r1, s1)" by fastforce
  then have s1: "received env (trace s1) = received env (trace s)" using 2(2) [of f] by auto
  show ?case
  proof (cases r1)
    case (Inl e)
    with 2(3) f s1 show ?thesis by simp
  next
    case (Inr u)
    have "\<And>g s r s'. g \<in> set fs \<Longrightarrow> g s = (r, s') \<Longrightarrow> received env (trace s') = received env (trace s)"
      using 2(2) by (meson list.set_intros(2))
    then have "received env (trace s') = received env (trace s1)"
      using 2(1) [OF f [symmetric] Inr] 2(3) f Inr by simp
    with s1 show ?thesis by simp
  qed
qed simp

lemma net_ensure_received:
  assumes "net_ensure_initialized env s = (r, s')"
  shows "received env (trace s') = received env (trace s)"
proof (cases "http_initialized s")
  case True
  with assms show ?thesis by (simp add: net_ensure_initialized_def)
next
  case False
  with assms have "init_stages
      [load_net_module env ''sceSysmoduleLoadModule(SCE_SYSMODULE_NET)'', init_net env, init_netctl env,
       load_http_module env ''sceSysmoduleLoadModule(SCE_SYSMODULE_HTTP)'', init_http env] s = (r, s')"
    unfolding net_ensure_initialized_def by (simp only: if_False)
  then show ?thesis by (rule init_stages_received [rotated]) (auto dest: init_stage_received)
qed

lemma lib_stack_trace [simp]: "lib_stack (s\<lparr>trace := t\<rparr>) = lib_stack s"
  by (simp add: lib_stack_def)

lemma lib_nested_trace [simp]: "lib_nested (s\<lparr>trace := t\<rparr>) = lib_nested s"
  by (simp add: lib_nested_def)

lemma lib_ready: "lib_nested s \<Longrightarrow> http_initialized s \<Longrightarrow> R_Http \<in> set (lib_stack s) \<and> R_NetCtl \<in> set (lib_stack s)"
  by (simp add: lib_nested_def lib_stack_def)

interpretation net_lib: http_library env "net_ensure_initialized env" lib_stack lib_nested for env
proof unfold_locales
  fix b ss r s' and s :: "'a net_state_scheme"
  assume "stacked env (lib_stack s) b ss s" "lib_nested s" "net_ensure_initialized env s = (r, s')"
  then show "stacked env (lib_stack s') b ss s' \<and> lib_nested s'"
    using net_ensure_good [of env b ss s r s'] by (simp add: lib_good_def)
next
  fix b ss u s' and s :: "'a net_state_scheme"
  assume "stacked env (lib_stack s) b ss s" "lib_nested s" "net_ensure_initialized env s = (Inr u, s')"
  then show "R_Http \<in> set (lib_stack s') \<and> R_NetCtl \<in> set (lib_stack s')"
    using net_ensure_good [of env b ss s "Inr u" s'] lib_ready [of s'] by (simp add: lib_good_def)
qed (simp_all add: net_ensure_received)

lemma lib_ok_good [simp]: "net_lib.lib_ok env b ss s = lib_good env b ss s"
  by (simp add: net_lib.lib_ok_def lib_good_def)

subsection \<open>A request\<close>

lemma request_calls_plain: "plain_calls r (request_calls body content_type r)"
  by (auto simp: plain_calls_def request_calls_def Let_def split: if_splits)

lemma free_body_stacked: "stacked env st (response_body buf \<noteq> None) ss s \<Longrightarrow> stacked env st False ss (free_body buf s)"
  using stacked_free_body by (auto simp: free_body_def)

lemma free_body_simps [simp]:
  "received env (trace (free_body buf s)) = received env (trace s)"
  "only_trace s0 (free_body buf s) \<longleftrightarrow> only_trace s0 s"
  by (simp_all add: free_body_def)

lemma response_properties_props:
  "response_properties env ps s = (ok, s') \<Longrightarrow> stacked env st b ss s \<Longrightarrow>
   stacked env st b ss s' \<and> only_trace s s' \<and> received env (trace s') = received env (trace s)"
proof (induction env ps s rule: response_properties.induct)
  case (2 env name v ps s)
  have "stacked env st b ss (did (JsSetProperty name) s)" using stacked_neutral [OF 2(3)] by simp
  with 2 only_trace_trans [of s "did (JsSetProperty name) s"] show ?case by (auto simp: Let_def split: if_splits)
qed simp

lemma make_response_props:
  assumes "make_response env status bytes s = (r, s')" and "stacked env st b ss s"
  shows "stacked env st b ss s' \<and> only_trace s s' \<and> received env (trace s') = received env (trace s) \<and>
    (\<forall>v. r = Inr v \<longrightarrow> v = JObject (response_fields status bytes))"
proof -
  have "stacked env st b ss (did JsNewObject s)" using stacked_neutral [OF assms(2)] by simp
  from response_properties_props [OF _ this] assms(1) this only_trace_trans [of s "did JsNewObject s"]
  show ?thesis by (fastforce simp: make_response_def Let_def split: if_splits prod.splits)
qed

lemma request_error_not_ok [simp]: "request_error op ret \<noteq> Inr v"
  by (simp add: request_error_def throw_sce_error_def)

lemma transfer_error_not_ok [simp]: "transfer_error f \<noteq> Inr v"
  by (induction f rule: transfer_error.induct) auto

text \<open>On success all handles are there, and deleting them unconditionally is the same as at \<open>fail\<close>.\<close>

lemma delete_all_handles:
  "0 \<le> req hs \<Longrightarrow> 0 \<le> conn hs \<Longrightarrow> 0 \<le> tpl hs \<Longrightarrow>
   did (DeleteTemplate (tpl hs)) (did (DeleteConnection (conn hs)) (did (DeleteRequest (req hs)) s)) =
   http_delete_handles hs s"
  by (simp add: http_delete_handles_def)

definition request_outcome :: "net_env \<Rightarrow> cstr list \<Rightarrow> net_state \<Rightarrow> (jsval js_result \<times> net_state) option \<Rightarrow> bool" where
  "request_outcome env ss s out \<longleftrightarrow> (\<exists>res s'. out = Some (res, s') \<and> lib_good env False ss s' \<and>
     (\<forall>v. res = Inr v \<longrightarrow> (\<exists>status bytes. v = JObject (response_fields status bytes) \<and>
        length bytes \<le> VITAJS_HTTP_MAX_RESPONSE \<and> received env (trace s') = received env (trace s) @ bytes)))"

lemma net_request_native_outcome:
  assumes "reads_bounded env" and "lib_good env False ss s"
  shows "request_outcome env ss s (net_request_native env m url body ct s)"
proof (cases "method_from_string m")
  case None
  with assms(2) show ?thesis by (simp add: request_outcome_def net_request_native_def)
next
  case (Some meth)
  obtain r s1 where e: "net_ensure_initialized env s = (r, s1)" by fastforce
  show ?thesis
  proof (cases r)
    case (Inl err)
    with Some e net_ensure_good [OF assms(2) e] show ?thesis by (simp add: request_outcome_def net_request_native_def)
  next
    case (Inr u)
    let ?n = "case body of None \<Rightarrow> 0 | Some b \<Rightarrow> length b"
    have lok: "net_lib.lib_ok env False ss s" using assms(2) by simp
    have calls: "\<forall>r. plain_calls r (request_calls body ct r)" using request_calls_plain by blast
    obtain res hs buf s2 bs where t: "http_transfer env meth url ?n (request_calls body ct) s1 = Some (res, hs, buf, s2)"
      and h: "buf_holds buf bs" and st: "stacked env (handles_stack hs @ lib_stack s1) (response_body buf \<noteq> None) ss s2"
      and only: "only_trace s1 s2" and nest: "lib_nested s1"
      and ok: "\<And>status. res = Inr status \<Longrightarrow> 0 \<le> req hs \<and> 0 \<le> conn hs \<and> 0 \<le> tpl hs \<and>
        received env (trace s2) = received env (trace s) @ bs"
      using net_lib.transfer_ok [OF assms(1) lok e [unfolded Inr] calls, of meth url ?n] by blast
    have rel: "lib_good env False ss (http_delete_handles hs (free_body buf s3))"
      if "stacked env (handles_stack hs @ lib_stack s1) (response_body buf \<noteq> None) ss s3" "only_trace s1 s3" for s3
      using net_lib.released_ok [OF http_delete_stacked [OF free_body_stacked [OF that(1)]]]
        http_delete_only_trace [of s1 "free_body buf s3" hs] that(2) nest by simp
    show ?thesis
    proof (cases res)
      case (Inl f)
      with Some e \<open>r = Inr u\<close> t rel [OF st only] show ?thesis by (simp add: request_outcome_def net_request_native_def)
    next
      case (Inr status)
      obtain resp s3 where m: "make_response env status bs s2 = (resp, s3)" by fastforce
      note mp = make_response_props [OF m st]
      have "net_request_native env m url body ct s = Some (resp, http_delete_handles hs (free_body buf s3))"
        using Some e \<open>r = Inr u\<close> t Inr body_bytes_holds [OF h] m ok [OF Inr]
        by (simp add: net_request_native_def delete_all_handles)
      moreover have "lib_good env False ss (http_delete_handles hs (free_body buf s3))"
        using rel mp only only_trace_trans by blast
      ultimately show ?thesis
        using mp ok [OF Inr] buf_holds_limit [OF h] by (auto simp: request_outcome_def)
    qed
  qed
qed

subsection \<open>The JavaScript functions keep the discipline\<close>

lemma lib_good_trace:
  "lib_good env b ss s \<Longrightarrow> only_trace s s' \<Longrightarrow> stacked env (lib_stack s) b' ss' s' \<Longrightarrow> lib_good env b' ss' s'"
  using net_lib.lib_only_trace [of s s'] by (simp add: lib_good_def)

lemma get_string_good: "lib_good env b ss s \<Longrightarrow> lib_good env b (c # ss) (did (JsToCString c) s)"
  by (rule lib_good_trace [of env b ss s]) (simp_all add: lib_good_def stacked_get_string)

lemma free_string_good: "lib_good env b (c # ss) s \<Longrightarrow> lib_good env b ss (did (JsFreeCString c) s)"
  by (rule lib_good_trace [of env b "c # ss" s]) (simp_all add: lib_good_def stacked_free_string)

fun given_string :: "cstr option \<Rightarrow> cstr list" where
  "given_string None = []"
| "given_string (Some c) = [c]"

fun given_strings :: "cstr option list \<Rightarrow> cstr list" where
  "given_strings [] = []"
| "given_strings (c # cs) = given_string c @ given_strings cs"

lemma free_cstrings_good:
  "lib_good env b (given_strings cs @ ss) s \<Longrightarrow> lib_good env b ss (free_cstrings cs s)"
  by (induction cs s rule: free_cstrings.induct) (auto intro: free_string_good)

lemma free_cstrings_received [simp]: "received env (trace (free_cstrings cs s)) = received env (trace s)"
  by (induction cs s rule: free_cstrings.induct) auto

lemma get_cstring_good:
  assumes "get_cstring js i v s = (c, s')" and "lib_good env b ss s"
  shows "lib_good env b (given_string c @ ss) s' \<and> received env (trace s') = received env (trace s)"
  using assms by (auto simp: get_cstring_def get_string_good split: option.splits)

lemma get_optional_good:
  assumes "get_optional_cstring js i argv s = (ok, c, s')" and "lib_good env b ss s"
  shows "lib_good env b (given_string c @ ss) s' \<and> received env (trace s') = received env (trace s) \<and>
    (\<not> ok \<longrightarrow> c = None) \<and> (length argv \<le> i \<longrightarrow> c = None) \<and> (i < length argv \<and> \<not> absent (argv ! i) \<and> ok \<longrightarrow> c \<noteq> None)"
  using assms get_cstring_good [OF _ assms(2)]
  by (fastforce simp: get_optional_cstring_def split: if_splits prod.splits)

text \<open>Running a request with the strings it was given on the stack, and freeing them.\<close>

lemma request_freed:
  assumes "reads_bounded env" and "lib_good env False (given_strings cs @ ss) s"
    and "received env (trace s) = received env (trace s0)"
  shows "request_outcome env ss s0 (map_option (\<lambda>(result, s). (result, free_cstrings cs s))
    (net_request_native env m url body ct s))"
proof -
  obtain res s' where r: "net_request_native env m url body ct s = Some (res, s')"
      "lib_good env False (given_strings cs @ ss) s'"
      "\<forall>v. res = Inr v \<longrightarrow> (\<exists>status bytes. v = JObject (response_fields status bytes) \<and>
        length bytes \<le> VITAJS_HTTP_MAX_RESPONSE \<and> received env (trace s') = received env (trace s) @ bytes)"
    using net_request_native_outcome [OF assms(1,2)] unfolding request_outcome_def by blast
  from free_cstrings_good [OF r(2)] r(1,3) assms(3) show ?thesis by (simp add: request_outcome_def)
qed

lemma outcome_error: "lib_good env False ss s' \<Longrightarrow> request_outcome env ss s (Some (Inl e, s'))"
  by (simp add: request_outcome_def)

lemma net_get_outcome:
  assumes "reads_bounded env" and "lib_good env False [] s"
  shows "request_outcome env [] s (vitajs_net_get js env argv s)"
proof -
  obtain c s1 where g: "get_cstring js 0 (argv ! 0) s = (c, s1)" by fastforce
  note gg = get_cstring_good [OF g assms(2)]
  show ?thesis
    using assms g gg request_freed [OF assms(1), of "[c]" "[]" s1 s]
    by (cases c) (auto simp: vitajs_net_get_def outcome_error)
qed

lemma net_request_outcome:
  assumes "reads_bounded env" and "lib_good env False [] s"
  shows "request_outcome env [] s (vitajs_net_request js env argv s)"
proof -
  obtain m s1 where 1: "get_cstring js 0 (argv ! 0) s = (m, s1)" by fastforce
  obtain u s2 where 2: "get_cstring js 1 (argv ! 1) s1 = (u, s2)" by fastforce
  obtain ok3 b s3 where 3: "get_optional_cstring js 2 argv s2 = (ok3, b, s3)" by (metis prod_cases3)
  obtain ok4 t s4 where 4: "get_optional_cstring js 3 argv s3 = (ok4, t, s4)" by (metis prod_cases3)
  note g1 = get_cstring_good [OF 1 assms(2)]
  note g2 = get_cstring_good [OF 2 conjunct1 [OF g1]]
  note g3 = get_optional_good [OF 3 conjunct1 [OF g2]]
  note g4 = get_optional_good [OF 4 conjunct1 [OF g3]]
  have e2: "request_outcome env [] s (Some (Inl Pending, free_cstrings [m] s2))" if "u = None"
    using g2 that free_cstrings_good [of env False "[m]" "[]" s2] by (auto intro!: outcome_error)
  have e3: "request_outcome env [] s (Some (Inl Pending, free_cstrings [u, m] s3))" if "\<not> ok3"
    using g3 that free_cstrings_good [of env False "[u, m]" "[]" s3] by (auto intro!: outcome_error)
  have e4: "request_outcome env [] s (Some (Inl Pending, free_cstrings [b, u, m] s4))" if "\<not> ok4"
    using g4 that free_cstrings_good [of env False "[b, u, m]" "[]" s4] by (auto intro!: outcome_error)
  have run: "request_outcome env [] s (map_option (\<lambda>(result, s). (result, free_cstrings [t, b, u, m] s))
      (net_request_native env x y z w s4))" for x y z w
    by (rule request_freed [OF assms(1)]) (use g1 g2 g3 g4 in auto)
  show ?thesis
    using assms(2) g1 1 2 3 4 e2 e3 e4 run
    by (cases m; cases u) (auto simp: vitajs_net_request_def outcome_error simp del: free_cstrings.simps)
qed

text \<open>
  \<open>post\<close> frees its third string whenever it has three arguments, so the third one must
  really be there.
\<close>

lemma net_post_outcome:
  assumes "reads_bounded env" and "lib_good env False [] s" and "length argv = 3 \<longrightarrow> \<not> absent (argv ! 2)"
  shows "request_outcome env [] s (vitajs_net_post js env argv s)"
proof -
  obtain u s1 where 1: "get_cstring js 0 (argv ! 0) s = (u, s1)" by fastforce
  obtain b s2 where 2: "get_cstring js 1 (argv ! 1) s1 = (b, s2)" by fastforce
  obtain ok3 t s3 where 3: "get_optional_cstring js 2 argv s2 = (ok3, t, s3)" by (metis prod_cases3)
  note g1 = get_cstring_good [OF 1 assms(2)]
  note g2 = get_cstring_good [OF 2 conjunct1 [OF g1]]
  note g3 = get_optional_good [OF 3 conjunct1 [OF g2]]
  let ?ct = "case t of None \<Rightarrow> Literal ''application/json'' | Some c \<Rightarrow> c"
  let ?third = "if length argv = 3 then Some ?ct else None"
  have third: "?third = t" if "ok3" "length argv \<le> 3"
    using g3 that assms(3) by (cases "length argv = 3") (auto split: option.splits)
  have e2: "request_outcome env [] s (Some (Inl Pending, free_cstrings [u] s2))" if "b = None"
    using g2 that free_cstrings_good [of env False "[u]" "[]" s2] by (auto intro!: outcome_error)
  have e3: "request_outcome env [] s (Some (Inl Pending, free_cstrings [b, u] s3))" if "\<not> ok3"
    using g3 that free_cstrings_good [of env False "[b, u]" "[]" s3] by (auto intro!: outcome_error)
  have "request_outcome env [] s (map_option (\<lambda>(result, s). (result, free_cstrings [t, b, u] s))
      (net_request_native env x y z w s3))" for x y z w
    by (rule request_freed [OF assms(1)]) (use g1 g2 g3 in auto)
  then have run: "request_outcome env [] s (map_option (\<lambda>(result, s). (result, free_cstrings [?third, b, u] s))
      (net_request_native env x y z w s3))" if "ok3" "length argv \<le> 3" for x y z w
    using third [OF that] by simp
  show ?thesis
    using assms(2) g1 1 2 3 e2 e3 run
    by (cases u; cases b) (auto simp: vitajs_net_post_def Let_def outcome_error simp del: free_cstrings.simps)
qed

lemma net_query_good:
  assumes "lib_good env False [] s"
  shows "lib_good env False [] (snd (vitajs_net_is_connected env argv s))"
    and "lib_good env False [] (snd (vitajs_net_get_ip env argv s))"
proof -
  obtain r s1 where e: "net_ensure_initialized env s = (r, s1)" by fastforce
  have "lib_good env False [] (did c s1)" if "r = Inr u" "c = InetGetState \<or> c = InetGetInfo" for c u
    using net_lib.query_ok [of env False "[]" s u s1 c] assms e that by simp
  with assms e net_ensure_good [OF assms e]
  show "lib_good env False [] (snd (vitajs_net_is_connected env argv s))"
    and "lib_good env False [] (snd (vitajs_net_get_ip env argv s))"
    by (auto simp: vitajs_net_is_connected_def vitajs_net_get_ip_def Let_def split: sum.splits)
qed

lemma net_shutdown_good:
  assumes "lib_good env b ss s"
  shows "stacked env [] b ss (net_shutdown s) \<and> lib_good env b ss (net_shutdown s)"
  using assms by (auto simp: net_shutdown_def lib_defs)

subsection \<open>The module as a transition system\<close>

text \<open>
  Every call of a function of the module.  A call whose outcome is undefined behaviour or that
  never returns has no step; \<open>post\<close> with an absent third argument is excluded, and shown
  below to break the discipline.
\<close>

inductive net_step :: "js_engine \<Rightarrow> net_env \<Rightarrow> net_state \<Rightarrow> net_state \<Rightarrow> bool" for js env where
  step_request: "vitajs_net_request js env argv s = Some (r, s') \<Longrightarrow> net_step js env s s'"
| step_get: "vitajs_net_get js env argv s = Some (r, s') \<Longrightarrow> net_step js env s s'"
| step_post: "vitajs_net_post js env argv s = Some (r, s') \<Longrightarrow> length argv = 3 \<longrightarrow> \<not> absent (argv ! 2) \<Longrightarrow> net_step js env s s'"
| step_is_connected: "net_step js env s (snd (vitajs_net_is_connected env argv s))"
| step_get_ip: "net_step js env s (snd (vitajs_net_get_ip env argv s))"
| step_term: "net_step js env s (snd (vitajs_net_term argv s))"

inductive_cases net_stepE: "net_step js env s s'"

lemma net_start_good: "lib_good env False [] net_start"
  by (simp add: lib_good_def stacked_def lib_stack_def lib_nested_def net_start_def)

lemma net_step_good:
  assumes "net_step js env s s'" and "reads_bounded env" and "lib_good env False [] s"
  shows "lib_good env False [] s'"
  using assms(1)
proof (cases rule: net_step.cases)
  case (step_request argv r)
  with net_request_outcome [OF assms(2,3), of js argv] show ?thesis by (simp add: request_outcome_def)
next
  case (step_get argv r)
  with net_get_outcome [OF assms(2,3), of js argv] show ?thesis by (simp add: request_outcome_def)
next
  case (step_post argv r)
  with net_post_outcome [OF assms(2,3), of argv js] show ?thesis by (simp add: request_outcome_def)
next
  case (step_term argv)
  with assms(3) net_shutdown_good [OF assms(3)] show ?thesis by (simp add: vitajs_net_term_def)
qed (use net_query_good [OF assms(3)] in auto)

interpretation net: module_inv net_start "net_step js env"
  "\<lambda>s. reads_bounded env \<longrightarrow> lib_good env False [] s" for js env
  by unfold_locales (auto simp: net_start_good dest: net_step_good)

subsection \<open>Surroundings for evaluation\<close>

text \<open>A server that answers one request with the four bytes of "VITA" and then the end.\<close>

definition demo_net_env :: net_env where
  "demo_net_env = \<lparr>n_ret = (\<lambda>h c. case c of ReadData r \<Rightarrow> (if ReadData r \<in> set h then 0 else 4) | _ \<Rightarrow> 0),
     n_alloc = (\<lambda>h c. True), n_status = (\<lambda>h. 200), n_chunk = (\<lambda>h i. [86, 73, 84, 65] ! i), n_state = (\<lambda>h. 3),
     n_ip = (\<lambda>h. ''10.0.0.2''), http_error_already_inited = - 2143088608, netctl_state_connected = 3\<rparr>"

lemma demo_reads_bounded: "reads_bounded demo_net_env"
  by (simp add: reads_bounded_def demo_net_env_def http_consts)

definition demo_net_state :: net_state where
  "demo_net_state = snd (vitajs_net_is_connected demo_net_env [] net_start)"

lemma demo_net_reachable: "(net_step js_prim demo_net_env)\<^sup>*\<^sup>* net_start demo_net_state"
  unfolding demo_net_state_def by (rule r_into_rtranclp) (rule net_step.step_is_connected)

lemmas demo_net_eval = demo_net_state_def vitajs_net_is_connected_def net_ensure_initialized_def
  load_net_module_def init_net_def init_netctl_def load_http_module_def init_http_def demo_net_env_def
  net_start_def ask_def did_def Let_def



text \<open>
  C7.  A request always comes to an end, without a copy out of the bounds of a buffer: from any
  reachable state and with any arguments, \<open>request\<close> returns an error or a response object
  whose body is exactly the bytes the server delivered during the request, at most 8 MB of them.
\<close>

theorem net_request_returns_body:
  assumes "reads_bounded env" and "(net_step js env)\<^sup>*\<^sup>* net_start s"
  shows "\<exists>res s'. vitajs_net_request js env argv s = Some (res, s') \<and>
    (\<forall>v. res = Inr v \<longrightarrow> (\<exists>status bytes.
       v = JObject [(''status'', JInt status), (''ok'', JBool (200 \<le> status \<and> status < 300)),
                    (''body'', JString (map char_of bytes))] \<and>
       length bytes \<le> 8 * 1024 * 1024 \<and> received env (trace s') = received env (trace s) @ bytes))"
proof -
  have "lib_good env False [] s" using net.inv_reachable [OF assms(2)] assms(1) by simp
  from net_request_outcome [OF assms(1) this, of js argv] show ?thesis
    by (auto simp: request_outcome_def response_fields_def http_consts)
qed

theorem net_request_returns_body_witness:
  "\<exists>res s'. vitajs_net_request js_prim demo_net_env [JString ''GET'', JString ''http://x/''] demo_net_state = Some (res, s')"
  using net_request_returns_body [OF demo_reads_bounded demo_net_reachable, of "[JString ''GET'', JString ''http://x/'']"]
  by blast

text \<open>
  C24.  \<open>term()\<close> from any reachable state brings everything down: no module is loaded, no
  library initialised, the memory pool is freed, and a later request starts from the beginning.
\<close>

theorem net_term_releases:
  assumes "reads_bounded env" and "(net_step js env)\<^sup>*\<^sup>* net_start s" and "vitajs_net_term [] s = (r, s')"
  shows "res_ok env (trace s') \<and> res_of env (trace s') = [] \<and> s' = net_start\<lparr>trace := trace s'\<rparr>"
proof -
  have "lib_good env False [] s" using net.inv_reachable [OF assms(2)] assms(1) by simp
  moreover have "s' = net_shutdown s" using assms(3) by (simp add: vitajs_net_term_def)
  moreover have "net_shutdown s = net_start\<lparr>trace := trace (net_shutdown s)\<rparr>"
    by (simp add: net_shutdown_def net_start_def did_def Let_def)
  ultimately show ?thesis using net_shutdown_good [of env False "[]" s] by (simp add: stacked_def)
qed

theorem net_term_releases_witness:
  "res_of demo_net_env (trace (snd (vitajs_net_term [] demo_net_state))) = []"
  using net_term_releases [OF demo_reads_bounded demo_net_reachable, of "Inr JUndefined" "net_shutdown demo_net_state"]
  by (simp add: vitajs_net_term_def)

lemma init_stages_succeed:
  assumes "\<And>f s. f \<in> set fs \<Longrightarrow> \<exists>s'. f s = (Inr (), s')" and "\<And>s. P (snd (last fs s))" and "fs \<noteq> []"
  shows "\<exists>s'. init_stages fs s = (Inr (), s') \<and> P s'"
  using assms
proof (induction fs arbitrary: s)
  case (Cons f fs)
  obtain s1 where f: "f s = (Inr (), s1)" using Cons.prems(1) [of f] by auto
  show ?case
  proof (cases fs)
    case Nil
    with f Cons.prems(2) [of s] show ?thesis by simp
  next
    case rest: (Cons g gs)
    have "\<exists>s'. init_stages fs s1 = (Inr (), s') \<and> P s'"
      by (rule Cons.IH) (use Cons.prems rest in auto)
    with f show ?thesis by simp
  qed
qed simp

text \<open>
  The failure a stage of the initialisation reports is not final: whatever state earlier
  failures have left, once every answer is a success the next call brings up what is missing,
  and \<open>is_connected()\<close> returns a boolean.
\<close>

theorem net_initialisation_recovers:
  assumes "\<forall>h c. 0 \<le> n_ret env h c \<and> n_alloc env h c"
  shows "\<exists>b s'. vitajs_net_is_connected env [] s = (Inr (JBool b), s') \<and> http_initialized s'"
proof -
  have nn: "\<not> n_ret env h c < 0" "n_alloc env h c" for h c using assms by (auto simp: not_less)
  have "\<exists>s'. init_stages
      [load_net_module env ''sceSysmoduleLoadModule(SCE_SYSMODULE_NET)'', init_net env, init_netctl env,
       load_http_module env ''sceSysmoduleLoadModule(SCE_SYSMODULE_HTTP)'', init_http env] s = (Inr (), s') \<and>
      http_initialized s'"
    by (rule init_stages_succeed) (auto simp: load_net_module_def init_net_def init_netctl_def load_http_module_def
        init_http_def ask_def Let_def nn)
  then have "\<exists>s'. net_ensure_initialized env s = (Inr (), s') \<and> http_initialized s'"
    unfolding net_ensure_initialized_def by (cases "http_initialized s") (simp_all del: init_stages.simps)
  then show ?thesis by (auto simp: vitajs_net_is_connected_def ask_def did_def Let_def nn)
qed

theorem net_initialisation_recovers_witness:
  "\<exists>b s'. vitajs_net_is_connected demo_net_env [] (snd (vitajs_net_is_connected
      (demo_net_env\<lparr>n_ret := (\<lambda>h c. if c = NetCtlInit then - 7 else 0)\<rparr>) [] net_start)) = (Inr (JBool b), s')"
  using net_initialisation_recovers [of demo_net_env] by (fastforce simp: demo_net_env_def split: net_call.splits)

text \<open>
  \<open>post(url, body, undefined)\<close> frees a string literal: with three arguments of which
  the last is absent, \<open>content_type\<close> still points to the literal
  \<open>"application/json"\<close> and is passed to \<open>JS_FreeCString\<close>, a pointer the engine
  never gave out.
\<close>

theorem net_post_frees_literal:
  "case vitajs_net_post js_prim (demo_net_env\<lparr>n_ret := (\<lambda>h c. - 5)\<rparr>) [JString ''http://x/'', JString ''{}'', JUndefined] net_start of
     None \<Rightarrow> False
   | Some (r, s) \<Rightarrow> \<not> res_ok (demo_net_env\<lparr>n_ret := (\<lambda>h c. - 5)\<rparr>) (trace s) \<and>
       JsFreeCString (Literal ''application/json'') \<in> set (trace s)"
  by (simp add: vitajs_net_post_def get_cstring_def get_optional_cstring_def net_request_native_def method_from_string_def
      js_prim_def absent_def throw_sce_error_def call_legal_def demo_net_eval)

end
