(* ===== verification/Net_Async.thy ===== *)
theory Net_Async
  imports Net
begin

text \<open>
  The asynchronous network module (src/src/modules/net_async.c): \<open>fetch\<close> returns a promise
  and starts a worker thread, \<open>__pump\<close> settles the promise when the worker has published its
  result.

  The statics are the record \<open>async_state\<close>, which extends the one of the blocking module: the
  code that brings the libraries up is the same.  The main thread and the worker share
  \<open>request\<close>, under a mutex; a critical section is a step.  The worker makes three steps: it
  copies the URL, it does the transfer (which touches nothing but its own handles and buffer),
  and it publishes the result; steps of the main thread may come in between.

  Strings made by \<open>strdup\<close> are blocks of \<open>url_heap\<close>.  A promise is a number, and its two
  functions are \<open>js_func\<close> values that are live until they are freed; \<open>settled\<close> records
  the calls of live ones.  Freeing or reading what is not allocated, and freeing or calling a
  function that is not live, is undefined behaviour: the outcome \<open>None\<close>.
\<close>

subsection \<open>State\<close>

datatype request_state = NET_REQUEST_IDLE | NET_REQUEST_RUNNING | NET_REQUEST_DONE | NET_REQUEST_ERROR

datatype js_func = ResolveF (func_promise: nat) | RejectF (func_promise: nat)

datatype settlement = Resolved jsval | Rejected jsval

record net_request =
  rq_state :: request_state
  rq_url :: "nat option"
  rq_status :: int
  rq_response_body :: "nat option list option"
  rq_response_length :: nat
  rq_error_code :: int
  rq_error_operation :: string
  rq_resolve :: "js_func option"
  rq_reject :: "js_func option"

definition request_zero :: net_request where
  "request_zero = \<lparr>rq_state = NET_REQUEST_IDLE, rq_url = None, rq_status = 0, rq_response_body = None, rq_response_length = 0,
     rq_error_code = 0, rq_error_operation = [], rq_resolve = None, rq_reject = None\<rparr>"

text \<open>Where the worker thread is, with its local variables.\<close>

datatype worker =
    WorkerNew
  | WorkerCopied "nat option"
  | WorkerFinished "(string \<times> int) + int" body_buffer

record async_state = net_state +
  request_mutex :: int
  request :: net_request
  worker :: "worker option"
  url_heap :: "nat \<Rightarrow> string option"
  next_block :: nat
  live_funcs :: "js_func \<Rightarrow> bool"
  next_promise :: nat
  settled :: "(nat \<times> settlement) list"

definition async_start :: async_state where
  "async_start = \<lparr>trace = [], net_memory = False, net_initialized = False, netctl_initialized = False,
     http_initialized = False, net_module_loaded = False, http_module_loaded = False, request_mutex = - 1,
     request = request_zero, worker = None, url_heap = Map.empty, next_block = 0, live_funcs = (\<lambda>_. False), next_promise = 0, settled = []\<rparr>"

subsection \<open>Blocks, functions and objects\<close>

definition strdup_url :: "net_env \<Rightarrow> string \<Rightarrow> async_state \<Rightarrow> nat option \<times> async_state" where
  "strdup_url env text s =
     (let ok = ask (n_alloc env) s (StrdupUrl text); s = did (StrdupUrl text) s in
      if ok then (Some (next_block s), s\<lparr>url_heap := (url_heap s)(next_block s \<mapsto> text), next_block := next_block s + 1\<rparr>)
      else (None, s))"

fun free_url :: "nat option \<Rightarrow> async_state \<Rightarrow> async_state option" where
  "free_url None s = Some s"
| "free_url (Some b) s = (if url_heap s b = None then None else Some (s\<lparr>url_heap := (url_heap s)(b := None)\<rparr>))"

fun settles :: "js_func \<Rightarrow> jsval \<Rightarrow> nat \<times> settlement" where
  "settles (ResolveF k) v = (k, Resolved v)"
| "settles (RejectF k) v = (k, Rejected v)"

text \<open>\<open>JS_Call\<close> and \<open>JS_FreeValue\<close>; JS_UNDEFINED is neither called nor freed.\<close>

fun call_func :: "js_func option \<Rightarrow> jsval \<Rightarrow> async_state \<Rightarrow> async_state option" where
  "call_func None v s = Some s"
| "call_func (Some f) v s = (if live_funcs s f then Some (s\<lparr>settled := settles f v # settled s\<rparr>) else None)"

fun free_func :: "js_func option \<Rightarrow> async_state \<Rightarrow> async_state option" where
  "free_func None s = Some s"
| "free_func (Some f) s = (if live_funcs s f then Some (s\<lparr>live_funcs := (live_funcs s)(f := False)\<rparr>) else None)"

text \<open>\<open>JS_NewPromiseCapability\<close>: a promise and its two functions.\<close>

definition new_promise :: "net_env \<Rightarrow> async_state \<Rightarrow> nat option \<times> async_state" where
  "new_promise env s =
     (let ok = (0 \<le> ask (n_ret env) s JsNewPromise); s = did JsNewPromise s; k = next_promise s in
      if ok then (Some k, s\<lparr>live_funcs := (live_funcs s)(ResolveF k := True, RejectF k := True), next_promise := k + 1\<rparr>)
      else (None, s))"

text \<open>\<open>snprintf\<close> into a buffer of \<open>n\<close> bytes.\<close>

definition snprintf :: "nat \<Rightarrow> string \<Rightarrow> string" where
  "snprintf n text = take (n - 1) text"

definition make_error :: "net_env \<Rightarrow> string \<Rightarrow> int \<Rightarrow> async_state \<Rightarrow> jsval option \<times> async_state" where
  "make_error env operation code s =
     (let message = snprintf 160 (if code \<noteq> 0 then operation @ '' failed: 0x'' @ hex08 code else operation);
          ok = (0 \<le> ask (n_ret env) s JsNewError); s = did JsNewError s in
      if \<not> ok then (None, s)
      else (Some (JObject [(''message'', JString message), (''code'', JInt code)]),
            did (JsSetProperty ''code'') (did (JsSetProperty ''message'') s)))"

definition async_response :: "net_env \<Rightarrow> int \<Rightarrow> nat list \<Rightarrow> async_state \<Rightarrow> jsval option \<times> async_state" where
  "async_response env status bytes s =
     (let ok = (0 \<le> ask (n_ret env) s JsNewObject); s = did JsNewObject s in
      if \<not> ok then (None, s)
      else (Some (JObject (response_fields status bytes)),
            did (JsSetProperty ''body'') (did (JsSetProperty ''ok'') (did (JsSetProperty ''status'') s))))"

subsection \<open>Initialisation\<close>

definition create_mutex :: "net_env \<Rightarrow> async_state \<Rightarrow> unit js_result \<times> async_state" where
  "create_mutex env s =
     (if 0 \<le> request_mutex s then (Inr (), s)
      else let ret = ask (n_ret env) s KernelCreateMutex; s = (did KernelCreateMutex s)\<lparr>request_mutex := ret\<rparr> in
      if ret < 0 then (throw_sce_error ''sceKernelCreateMutex'' ret, s) else (Inr (), s))"

definition async_ensure :: "net_env \<Rightarrow> async_state \<Rightarrow> unit js_result \<times> async_state" where
  "async_ensure env s =
     (if http_initialized s then (Inr (), s)
      else case create_mutex env s of
        (Inl e, s) \<Rightarrow> (Inl e, s)
      | (Inr _, s) \<Rightarrow> init_stages
          [load_net_module env ''sceSysmoduleLoadModule(NET)'', init_net env, init_netctl env,
           load_http_module env ''sceSysmoduleLoadModule(HTTP)'', init_http env] s)"

subsection \<open>The worker thread\<close>

text \<open>The calls between opening the request and asking for its status.\<close>

definition fetch_calls :: "int \<Rightarrow> (net_call \<times> string) list" where
  "fetch_calls r =
     [(SetAutoRedirect r, ''sceHttpSetAutoRedirect''),
      (AddRequestHeader r ''Accept'' ''*/*'', ''sceHttpAddRequestHeader''),
      (SendRequest r None 0, ''sceHttpSendRequest'')]"

text \<open>\<open>error_operation\<close>, a buffer of 96 bytes, and \<open>error_code\<close>.\<close>

fun worker_error :: "http_failure \<Rightarrow> string \<times> int" where
  "worker_error (OpFailed op ret) = (snprintf 96 op, ret)"
| "worker_error (BodyFailed (ReadFailed ret)) = (snprintf 96 ''sceHttpReadData'', ret)"
| "worker_error (BodyFailed ResponseTooLarge) = (snprintf 96 ''HTTP response exceeds VitaJS 8 MB limit'', 0)"
| "worker_error (BodyFailed ReadOutOfMemory) = (snprintf 96 ''Out of memory while reading HTTP response'', 0)"

text \<open>Under the mutex: \<open>url = strdup(request.url)\<close>.\<close>

definition worker_copy :: "net_env \<Rightarrow> async_state \<Rightarrow> async_state option" where
  "worker_copy env s =
     (case rq_url (request s) of
        None \<Rightarrow> Some (s\<lparr>worker := Some (WorkerCopied None)\<rparr>)
      | Some b \<Rightarrow>
        (case url_heap s b of
           None \<Rightarrow> None
         | Some text \<Rightarrow> (case strdup_url env text s of (copy, s) \<Rightarrow> Some (s\<lparr>worker := Some (WorkerCopied copy)\<rparr>))))"

text \<open>The transfer, and the label \<open>finish\<close> up to the free of the copy.\<close>

definition worker_transfer :: "net_env \<Rightarrow> nat option \<Rightarrow> async_state \<Rightarrow> async_state option" where
  "worker_transfer env url s =
     (case url of
        None \<Rightarrow> Some (s\<lparr>worker := Some (WorkerFinished (Inl (snprintf 96 ''Unable to copy request URL'', 0)) empty_buffer)\<rparr>)
      | Some b \<Rightarrow>
        (case url_heap s b of
           None \<Rightarrow> None
         | Some text \<Rightarrow>
           (case http_transfer env METHOD_GET text 0 fetch_calls s of
              None \<Rightarrow> None
            | Some (res, hs, buf, s) \<Rightarrow>
              map_option (\<lambda>s. s\<lparr>worker := Some (WorkerFinished (case res of Inl e \<Rightarrow> Inl (worker_error e) | Inr status \<Rightarrow> Inr status) buf)\<rparr>)
                (free_url url (http_delete_handles hs s)))))"

text \<open>Under the mutex: the result becomes visible to the main thread, and the thread ends.\<close>

fun worker_publish :: "(string \<times> int) + int \<Rightarrow> body_buffer \<Rightarrow> async_state \<Rightarrow> async_state" where
  "worker_publish (Inl (operation, code)) buf s =
     (free_body buf s)\<lparr>request := (request s)\<lparr>rq_error_code := code, rq_error_operation := snprintf 96 operation,
        rq_state := NET_REQUEST_ERROR\<rparr>, worker := None\<rparr>"
| "worker_publish (Inr status) buf s =
     s\<lparr>request := (request s)\<lparr>rq_status := status, rq_response_body := response_body buf,
        rq_response_length := response_length buf, rq_state := NET_REQUEST_DONE\<rparr>, worker := None\<rparr>"

definition net_fetch_worker :: "net_env \<Rightarrow> async_state \<Rightarrow> async_state option" where
  "net_fetch_worker env s =
     (case worker s of
        None \<Rightarrow> Some s
      | Some WorkerNew \<Rightarrow> worker_copy env s
      | Some (WorkerCopied url) \<Rightarrow> worker_transfer env url s
      | Some (WorkerFinished res buf) \<Rightarrow> Some (worker_publish res buf s))"

subsection \<open>The JavaScript functions\<close>

definition reject_promise_immediately ::
  "net_env \<Rightarrow> nat \<Rightarrow> js_func option \<Rightarrow> js_func option \<Rightarrow> string \<Rightarrow> int \<Rightarrow> async_state \<Rightarrow> (jsval js_result \<times> async_state) option" where
  "reject_promise_immediately env promise resolve reject operation code s =
     (case make_error env operation code s of
        (err, s) \<Rightarrow>
          Option.bind (case err of None \<Rightarrow> Some s | Some e \<Rightarrow> call_func reject e s) (\<lambda>s.
          Option.bind (free_func resolve s) (\<lambda>s.
          map_option (Pair (Inr (JRef promise))) (free_func reject s))))"

text \<open>The thread could not be started: the request is taken back.\<close>

definition cancel_request :: "net_env \<Rightarrow> nat \<Rightarrow> string \<Rightarrow> int \<Rightarrow> async_state \<Rightarrow> (jsval js_result \<times> async_state) option" where
  "cancel_request env promise operation code s =
     (let resolve = rq_resolve (request s); reject = rq_reject (request s) in
      Option.bind (free_url (rq_url (request s)) s) (\<lambda>s.
        reject_promise_immediately env promise resolve reject operation code
          (s\<lparr>request := (request s)\<lparr>rq_resolve := None, rq_reject := None, rq_url := None, rq_state := NET_REQUEST_IDLE\<rparr>\<rparr>)))"

definition begin_request :: "nat option \<Rightarrow> nat \<Rightarrow> net_request \<Rightarrow> net_request" where
  "begin_request url k r =
     r\<lparr>rq_url := url, rq_status := 0, rq_response_body := None, rq_response_length := 0, rq_error_code := 0,
       rq_error_operation := [], rq_resolve := Some (ResolveF k), rq_reject := Some (RejectF k), rq_state := NET_REQUEST_RUNNING\<rparr>"

definition start_worker :: "net_env \<Rightarrow> nat \<Rightarrow> async_state \<Rightarrow> (jsval js_result \<times> async_state) option" where
  "start_worker env promise s =
     (let thread = ask (n_ret env) s KernelCreateThread; s = did KernelCreateThread s in
      if thread < 0 then cancel_request env promise ''sceKernelCreateThread'' thread s
      else let ret = ask (n_ret env) s (KernelStartThread thread); s = did (KernelStartThread thread) s in
      if ret < 0 then cancel_request env promise ''sceKernelStartThread'' ret (did (KernelDeleteThread thread) s)
      else Some (Inr (JRef promise), s\<lparr>worker := Some WorkerNew\<rparr>))"

definition vitajs_net_fetch ::
  "js_engine \<Rightarrow> net_env \<Rightarrow> jsval list \<Rightarrow> async_state \<Rightarrow> (jsval js_result \<times> async_state) option" where
  "vitajs_net_fetch js env argv s =
     (if length argv \<noteq> 1 then Some (Inl (SyntaxError ''fetch(url)''), s)
      else case get_cstring js 0 (argv ! 0) s of
        (None, s) \<Rightarrow> Some (Inl Pending, s)
      | (Some url, s) \<Rightarrow> (case async_ensure env s of
          (Inl e, s) \<Rightarrow> Some (Inl e, free_cstrings [Some url] s)
        | (Inr _, s) \<Rightarrow> (case new_promise env s of
            (None, s) \<Rightarrow> Some (Inl Pending, free_cstrings [Some url] s)
          | (Some k, s) \<Rightarrow>
            if rq_state (request s) \<noteq> NET_REQUEST_IDLE
            then reject_promise_immediately env k (Some (ResolveF k)) (Some (RejectF k))
                   ''Net.fetch: another request is already running'' 0 (free_cstrings [Some url] s)
            else (case strdup_url env (c_text url) s of
              (copy, s) \<Rightarrow>
                let s = free_cstrings [Some url] s in
                if copy = None
                then reject_promise_immediately env k (Some (ResolveF k)) (Some (RejectF k)) ''Net.fetch: out of memory'' 0
                       (s\<lparr>request := (request s)\<lparr>rq_url := None\<rparr>\<rparr>)
                else start_worker env k (s\<lparr>request := begin_request copy k (request s)\<rparr>)))))"

text \<open>The part of \<open>__pump\<close> under the mutex, for a worker that has finished.\<close>

definition take_result :: "async_state \<Rightarrow> async_state option" where
  "take_result s =
     map_option (\<lambda>s. s\<lparr>request := (request s)\<lparr>rq_resolve := None, rq_reject := None, rq_response_body := None,
         rq_response_length := 0, rq_url := None, rq_state := NET_REQUEST_IDLE\<rparr>\<rparr>)
       (free_url (rq_url (request s)) s)"

definition request_buffer :: "net_request \<Rightarrow> body_buffer" where
  "request_buffer r = \<lparr>response_body = rq_response_body r, response_length = rq_response_length r, response_capacity = 0\<rparr>"

text \<open>After it: the promise is resolved with the response, or rejected; then its functions are freed.\<close>

definition settle_done :: "net_env \<Rightarrow> net_request \<Rightarrow> async_state \<Rightarrow> async_state option" where
  "settle_done env r s =
     (case body_bytes (request_buffer r) of
        None \<Rightarrow> None
      | Some bytes \<Rightarrow>
        (case async_response env (rq_status r) bytes s of
           (response, s) \<Rightarrow>
             let s = free_body (request_buffer r) s in
             Option.bind (case response of None \<Rightarrow> call_func (rq_reject r) JException s | Some v \<Rightarrow> call_func (rq_resolve r) v s) (\<lambda>s.
             Option.bind (free_func (rq_resolve r) s) (free_func (rq_reject r)))))"

definition settle_error :: "net_env \<Rightarrow> net_request \<Rightarrow> async_state \<Rightarrow> async_state option" where
  "settle_error env r s =
     (case make_error env (snprintf 96 (rq_error_operation r)) (rq_error_code r) (free_body (request_buffer r) s) of
        (err, s) \<Rightarrow>
          Option.bind (case err of None \<Rightarrow> Some s | Some e \<Rightarrow> call_func (rq_reject r) e s) (\<lambda>s.
          Option.bind (free_func (rq_resolve r) s) (free_func (rq_reject r))))"

definition vitajs_net_pump :: "net_env \<Rightarrow> jsval list \<Rightarrow> async_state \<Rightarrow> (jsval js_result \<times> async_state) option" where
  "vitajs_net_pump env argv s =
     (if argv \<noteq> [] then Some (Inl (SyntaxError ''__pump()''), s)
      else let r = request s in
      (case rq_state r of
         NET_REQUEST_IDLE \<Rightarrow> Some (Inr (JBool False), s)
       | NET_REQUEST_RUNNING \<Rightarrow> Some (Inr (JBool True), s)
       | NET_REQUEST_DONE \<Rightarrow> map_option (Pair (Inr (JBool False))) (Option.bind (take_result s) (settle_done env r))
       | NET_REQUEST_ERROR \<Rightarrow> map_option (Pair (Inr (JBool False))) (Option.bind (take_result s) (settle_error env r))))"

definition async_is_connected :: "net_env \<Rightarrow> jsval list \<Rightarrow> async_state \<Rightarrow> jsval js_result \<times> async_state" where
  "async_is_connected env argv s =
     (if argv \<noteq> [] then (Inl (SyntaxError ''is_connected()''), s)
      else case async_ensure env s of
        (Inl e, s) \<Rightarrow> (Inl e, s)
      | (Inr _, s) \<Rightarrow>
          let ret = ask (n_ret env) s InetGetState; state = n_state env (trace s); s = did InetGetState s in
          if ret < 0 then (throw_sce_error ''sceNetCtlInetGetState'' ret, s)
          else (Inr (JBool (state = netctl_state_connected env)), s))"

definition async_get_ip :: "net_env \<Rightarrow> jsval list \<Rightarrow> async_state \<Rightarrow> jsval js_result \<times> async_state" where
  "async_get_ip env argv s =
     (if argv \<noteq> [] then (Inl (SyntaxError ''get_ip()''), s)
      else case async_ensure env s of
        (Inl e, s) \<Rightarrow> (Inl e, s)
      | (Inr _, s) \<Rightarrow>
          let ret = ask (n_ret env) s InetGetInfo; ip = n_ip env (trace s); s = did InetGetInfo s in
          if ret < 0 then (throw_sce_error ''sceNetCtlInetGetInfo'' ret, s) else (Inr (JString ip), s))"

subsection \<open>The module as a transition system\<close>

text \<open>Calls of JavaScript, and steps of the worker between them.\<close>

datatype async_op = A_fetch "jsval list" | A_pump "jsval list" | A_is_connected "jsval list" | A_get_ip "jsval list" | A_worker

fun async_exec :: "js_engine \<Rightarrow> net_env \<Rightarrow> async_op \<Rightarrow> async_state \<Rightarrow> (jsval js_result \<times> async_state) option" where
  "async_exec js env (A_fetch argv) s = vitajs_net_fetch js env argv s"
| "async_exec js env (A_pump argv) s = vitajs_net_pump env argv s"
| "async_exec js env (A_is_connected argv) s = Some (async_is_connected env argv s)"
| "async_exec js env (A_get_ip argv) s = Some (async_get_ip env argv s)"
| "async_exec js env A_worker s = map_option (Pair (Inr JUndefined)) (net_fetch_worker env s)"

inductive async_step :: "js_engine \<Rightarrow> net_env \<Rightarrow> async_state \<Rightarrow> async_state \<Rightarrow> bool" for js env where
  exec: "async_exec js env op s = Some (r, s') \<Longrightarrow> async_step js env s s'"

inductive_cases async_stepE: "async_step js env s s'"

end
