(* ===== verification/Net_Async_Safety.thy ===== *)
theory Net_Async_Safety
  imports Net_Async
begin

text \<open>
  The asynchronous network module keeps its promises: every promise is settled at most once, its
  functions and the strings of the request are freed exactly once, the libraries are used as they
  have to be, in every interleaving of the main thread with the worker; and a request that was
  started is settled with what the server sent.
\<close>

subsection \<open>Steps that only talk to the engine or the kernel\<close>

definition idle_call :: "net_call \<Rightarrow> bool" where
  "idle_call c \<longleftrightarrow> releases c = None \<and> requires c = [] \<and> \<not> heap_call c \<and> (\<forall>env h. acquires env h c = None) \<and> (\<forall>r. c \<noteq> ReadData r)"

lemma idle_calls [simp]:
  "idle_call JsNewError" "idle_call JsNewObject" "idle_call (JsSetProperty n)" "idle_call JsNewPromise" "idle_call (StrdupUrl u)"
  "idle_call KernelCreateMutex" "idle_call KernelCreateThread" "idle_call (KernelStartThread t)" "idle_call (KernelDeleteThread t)"
  by (simp_all add: idle_call_def)

lemma idle_received [simp]: "idle_call c \<Longrightarrow> received env (c # h) = received env h"
  by (cases c) (auto simp: idle_call_def)

text \<open>The fields a step of the network libraries does not touch.\<close>

definition same_request :: "async_state \<Rightarrow> async_state \<Rightarrow> bool" where
  "same_request s s' \<longleftrightarrow> request s' = request s \<and> worker s' = worker s \<and> url_heap s' = url_heap s \<and> next_block s' = next_block s \<and>
     live_funcs s' = live_funcs s \<and> next_promise s' = next_promise s \<and> settled s' = settled s"

lemma same_request_refl [simp]: "same_request s s"
  by (simp add: same_request_def)

lemma same_request_trans: "same_request s s' \<Longrightarrow> same_request s' s'' \<Longrightarrow> same_request s s''"
  by (simp add: same_request_def)

lemma same_request_did [simp]: "same_request s (did c s') \<longleftrightarrow> same_request s s'"
  by (simp add: same_request_def did_def)

lemma same_request_only: "only_trace s s' \<Longrightarrow> same_request s s'"
proof -
  assume "only_trace s s'"
  then obtain t where "s' = s\<lparr>trace := t\<rparr>" unfolding only_trace_def by blast
  then show ?thesis by (simp add: same_request_def)
qed

lemma did_async [simp]:
  "request (did c s) = request s" "worker (did c s) = worker s" "url_heap (did c s) = url_heap s" "next_block (did c s) = next_block s"
  "live_funcs (did c s) = live_funcs s" "next_promise (did c s) = next_promise s" "settled (did c s) = settled s"
  "http_initialized (did c s) = http_initialized s" for s :: async_state
  by (simp_all add: did_def)

lemma lib_good_fields [simp]:
  "lib_good env b ss (s\<lparr>request := r\<rparr>) = lib_good env b ss s" "lib_good env b ss (s\<lparr>worker := w\<rparr>) = lib_good env b ss s"
  "lib_good env b ss (s\<lparr>url_heap := h\<rparr>) = lib_good env b ss s" "lib_good env b ss (s\<lparr>next_block := n\<rparr>) = lib_good env b ss s"
  "lib_good env b ss (s\<lparr>live_funcs := l\<rparr>) = lib_good env b ss s" "lib_good env b ss (s\<lparr>next_promise := n\<rparr>) = lib_good env b ss s"
  "lib_good env b ss (s\<lparr>settled := d\<rparr>) = lib_good env b ss s" "lib_good env b ss (s\<lparr>request_mutex := m\<rparr>) = lib_good env b ss s"
  by (simp_all add: lib_good_def stacked_def lib_stack_def lib_nested_def)

lemma lib_good_idle: "idle_call c \<Longrightarrow> lib_good env b ss s \<Longrightarrow> lib_good env b ss (did c s)"
  by (rule lib_good_trace [of env b ss s]) (auto simp: lib_good_def idle_call_def intro!: stacked_neutral)

subsection \<open>Bringing the libraries up\<close>

lemma create_mutex_ok:
  assumes "create_mutex env s = (r, s')" and "lib_good env b ss s"
  shows "lib_good env b ss s' \<and> same_request s s' \<and> received env (trace s') = received env (trace s)"
  using assms lib_good_idle [of KernelCreateMutex env b ss s]
  by (auto simp: create_mutex_def Let_def same_request_def split: if_splits)

lemma stage_same:
  "load_net_module env n s = (r, s') \<Longrightarrow> same_request s s'" "init_net env s = (r, s') \<Longrightarrow> same_request s s'"
  "init_netctl env s = (r, s') \<Longrightarrow> same_request s s'" "load_http_module env n s = (r, s') \<Longrightarrow> same_request s s'"
  "init_http env s = (r, s') \<Longrightarrow> same_request s s'"
  by (auto simp: load_net_module_def init_net_def init_netctl_def load_http_module_def init_http_def Let_def same_request_def
      split: if_splits)

lemma init_stages_same:
  assumes "\<And>f s r s'. f \<in> set fs \<Longrightarrow> f s = (r, s') \<Longrightarrow> same_request s s'" and "init_stages fs s = (r, s')"
  shows "same_request s s'"
  using assms
proof (induction fs s rule: init_stages.induct)
  case (2 f fs s)
  obtain r1 s1 where f: "f s = (r1, s1)" by fastforce
  then have s1: "same_request s s1" using 2(2) [of f] by auto
  show ?case
  proof (cases r1)
    case (Inl e)
    with 2(3) f s1 show ?thesis by simp
  next
    case (Inr u)
    have "\<And>g s r s'. g \<in> set fs \<Longrightarrow> g s = (r, s') \<Longrightarrow> same_request s s'" using 2(2) by (meson list.set_intros(2))
    then have "same_request s1 s'" using 2(1) [OF f [symmetric] Inr] 2(3) f Inr by simp
    with s1 show ?thesis by (rule same_request_trans)
  qed
qed simp

lemma async_ensure_ok:
  assumes "async_ensure env s = (r, s')" and "lib_good env b ss s"
  shows "lib_good env b ss s' \<and> (r = Inr () \<longrightarrow> http_initialized s') \<and> same_request s s' \<and>
    received env (trace s') = received env (trace s) \<and> (http_initialized s \<longrightarrow> s' = s \<and> r = Inr ())"
proof (cases "http_initialized s")
  case True
  with assms show ?thesis by (simp add: async_ensure_def)
next
  case False
  obtain r1 s1 where c: "create_mutex env s = (r1, s1)" by fastforce
  note 1 = create_mutex_ok [OF c assms(2)]
  show ?thesis
  proof (cases r1)
    case (Inl e)
    with False c 1 assms show ?thesis by (auto simp: async_ensure_def)
  next
    case (Inr u)
    let ?fs = "[load_net_module env ''sceSysmoduleLoadModule(NET)'', init_net env, init_netctl env,
           load_http_module env ''sceSysmoduleLoadModule(HTTP)'', init_http env]"
    have i: "init_stages ?fs s1 = (r, s')" using False c Inr assms(1) by (simp add: async_ensure_def del: init_stages.simps)
    have "lib_good env b ss s' \<and> (r = Inr () \<longrightarrow> http_initialized s')"
      using init_stages_good [OF conjunct1 [OF 1] i] .
    moreover have "same_request s1 s'" by (rule init_stages_same [OF _ i]) (auto dest: stage_same)
    moreover have "received env (trace s') = received env (trace s1)"
      by (rule init_stages_received [OF _ i]) (auto dest: init_stage_received)
    ultimately show ?thesis using 1 False same_request_trans by auto
  qed
qed

interpretation async_lib: http_library env "async_ensure env" lib_stack lib_nested for env
proof unfold_locales
  fix b ss r s' s
  assume "stacked env (lib_stack s) b ss s" "lib_nested s" "async_ensure env s = (r, s')"
  then show "stacked env (lib_stack s') b ss s' \<and> lib_nested s'"
    using async_ensure_ok [of env s r s' b ss] by (simp add: lib_good_def)
next
  fix b ss u s' s
  assume "stacked env (lib_stack s) b ss s" "lib_nested s" "async_ensure env s = (Inr u, s')"
  then show "R_Http \<in> set (lib_stack s') \<and> R_NetCtl \<in> set (lib_stack s')"
    using async_ensure_ok [of env s "Inr u" s' b ss] lib_ready [of s'] by (simp add: lib_good_def)
next
  fix r s' s
  assume e: "async_ensure env s = (r, s')"
  show "received env (trace s') = received env (trace s)"
  proof (cases "http_initialized s")
    case True
    with e show ?thesis by (simp add: async_ensure_def)
  next
    case False
    obtain r1 s1 where c: "create_mutex env s = (r1, s1)" by fastforce
    then have 1: "received env (trace s1) = received env (trace s)" by (auto simp: create_mutex_def Let_def split: if_splits)
    have "received env (trace s') = received env (trace s1)" if r1: "r1 = Inr ()"
    proof -
      have i: "init_stages [load_net_module env ''sceSysmoduleLoadModule(NET)'', init_net env, init_netctl env,
           load_http_module env ''sceSysmoduleLoadModule(HTTP)'', init_http env] s1 = (r, s')"
        using False c r1 e by (simp add: async_ensure_def del: init_stages.simps)
      show ?thesis by (rule init_stages_received [OF _ i]) (auto dest: init_stage_received)
    qed
    moreover have "s' = s1" if "r1 = Inl x" for x
      using False c that e by (simp add: async_ensure_def del: init_stages.simps)
    ultimately show ?thesis using 1 by (cases r1) auto
  qed
qed simp_all


subsection \<open>The invariant\<close>

definition worker_buffer :: "async_state \<Rightarrow> nat option list option" where
  "worker_buffer s = (case worker s of Some (WorkerFinished res buf) \<Rightarrow> response_body buf | _ \<Rightarrow> None)"

definition body_held :: "async_state \<Rightarrow> bool" where
  "body_held s \<longleftrightarrow> rq_response_body (request s) \<noteq> None \<or> worker_buffer s \<noteq> None"

definition worker_url :: "async_state \<Rightarrow> nat option" where
  "worker_url s = (case worker s of Some (WorkerCopied u) \<Rightarrow> u | _ \<Rightarrow> None)"

text \<open>The promise of the request in hand, not settled yet.\<close>

definition pending_promise :: "async_state \<Rightarrow> nat \<Rightarrow> bool" where
  "pending_promise s k \<longleftrightarrow> rq_resolve (request s) = Some (ResolveF k) \<and> rq_reject (request s) = Some (RejectF k) \<and>
     k < next_promise s \<and> k \<notin> fst ` set (settled s)"

definition worker_ok :: "async_state \<Rightarrow> bool" where
  "worker_ok s \<longleftrightarrow> (\<forall>res buf. worker s = Some (WorkerFinished res buf) \<longrightarrow> (\<exists>bs. buf_holds buf bs))"

text \<open>What the state of the request means for the rest.\<close>

fun request_phase :: "request_state \<Rightarrow> async_state \<Rightarrow> bool" where
  "request_phase NET_REQUEST_IDLE s \<longleftrightarrow> rq_url (request s) = None \<and> rq_resolve (request s) = None \<and> rq_reject (request s) = None \<and>
     rq_response_body (request s) = None \<and> worker s = None"
| "request_phase NET_REQUEST_RUNNING s \<longleftrightarrow> rq_url (request s) \<noteq> None \<and> rq_response_body (request s) = None \<and> worker s \<noteq> None \<and>
     worker_ok s \<and> (\<exists>k. pending_promise s k) \<and> http_initialized s"
| "request_phase NET_REQUEST_DONE s \<longleftrightarrow> worker s = None \<and> (\<exists>k. pending_promise s k) \<and> (\<exists>bs. body_bytes (request_buffer (request s)) = Some bs) \<and> http_initialized s"
| "request_phase NET_REQUEST_ERROR s \<longleftrightarrow> worker s = None \<and> (\<exists>k. pending_promise s k) \<and> rq_response_body (request s) = None \<and> http_initialized s"

definition promises_ok :: "async_state \<Rightarrow> bool" where
  "promises_ok s \<longleftrightarrow> distinct (map fst (settled s)) \<and> (\<forall>p\<in>set (settled s). fst p < next_promise s) \<and>
     (\<forall>f. live_funcs s f \<longleftrightarrow> rq_resolve (request s) = Some f \<or> rq_reject (request s) = Some f)"

definition urls_ok :: "async_state \<Rightarrow> bool" where
  "urls_ok s \<longleftrightarrow> owns (\<lambda>u. u) (\<lambda>u text. True) [rq_url (request s), worker_url s] (url_heap s) \<and> (\<forall>n\<ge>next_block s. url_heap s n = None)"

definition async_inv :: "net_env \<Rightarrow> async_state \<Rightarrow> bool" where
  "async_inv env s \<longleftrightarrow> lib_good env (body_held s) [] s \<and> request_phase (rq_state (request s)) s \<and> promises_ok s \<and> urls_ok s"

lemmas inv_parts = body_held_def worker_buffer_def worker_url_def pending_promise_def worker_ok_def promises_ok_def urls_ok_def

lemma same_request_parts:
  assumes "same_request s s'"
  shows "body_held s' = body_held s" "promises_ok s' = promises_ok s" "urls_ok s' = urls_ok s"
    using assms by (simp_all add: same_request_def inv_parts)

lemma same_request_phase:
  assumes "same_request s s'" and "http_initialized s \<longrightarrow> http_initialized s'" and "request_phase q s"
  shows "request_phase q s'"
  using assms by (cases q) (auto simp: same_request_def inv_parts)

lemma async_inv_same:
  "async_inv env s \<Longrightarrow> same_request s s' \<Longrightarrow> lib_good env (body_held s') [] s' \<Longrightarrow> (http_initialized s \<longrightarrow> http_initialized s') \<Longrightarrow>
   async_inv env s'"
  using same_request_parts [of s s'] same_request_phase [of s s' "rq_state (request s)"] by (auto simp: async_inv_def same_request_def)

definition async_safe :: "net_env \<Rightarrow> (jsval js_result \<times> async_state) option \<Rightarrow> bool" where
  "async_safe env out \<longleftrightarrow> (\<exists>r s'. out = Some (r, s') \<and> async_inv env s')"

lemma async_safe_Some [simp]: "async_safe env (Some (r, s)) \<longleftrightarrow> async_inv env s"
  by (simp add: async_safe_def)

subsection \<open>Queries\<close>

lemma query_inv:
  assumes "async_inv env s" and "async_ensure env s = (r, s')"
  shows "async_inv env s'" and "r = Inr () \<Longrightarrow> c = InetGetState \<or> c = InetGetInfo \<Longrightarrow> async_inv env (did c s')"
proof -
  have l: "lib_good env (body_held s) [] s" using assms(1) by (simp add: async_inv_def)
  note e = async_ensure_ok [OF assms(2) l]
  then have b: "body_held s' = body_held s" using same_request_parts by blast
  show "async_inv env s'" using async_inv_same [OF assms(1)] e b by auto
  assume r: "r = Inr ()" and c: "c = InetGetState \<or> c = InetGetInfo"
  have "async_lib.lib_ok env (body_held s) [] s" using l by (simp add: async_lib.lib_ok_def lib_good_def)
  from async_lib.query_ok [OF this assms(2) [unfolded r] c] have "lib_good env (body_held s) [] (did c s')"
    by (simp add: async_lib.lib_ok_def lib_good_def)
  moreover have "body_held (did c s') = body_held s" using b by (simp add: inv_parts)
  ultimately show "async_inv env (did c s')" using async_inv_same [OF assms(1), of "did c s'"] e by auto
qed

lemma is_connected_safe: "async_inv env s \<Longrightarrow> async_safe env (Some (async_is_connected env argv s))"
  using query_inv(1) [where env = env and s = s] query_inv(2) [where env = env and s = s and c = InetGetState]
  by (auto simp: async_is_connected_def Let_def split: prod.splits sum.splits)

lemma get_ip_safe: "async_inv env s \<Longrightarrow> async_safe env (Some (async_get_ip env argv s))"
  using query_inv(1) [where env = env and s = s] query_inv(2) [where env = env and s = s and c = InetGetInfo]
  by (auto simp: async_get_ip_def Let_def split: prod.splits sum.splits)

subsection \<open>The worker\<close>

lemma owns_pair:
  "owns (\<lambda>u. u) (\<lambda>u text. True) [a, b] h \<longleftrightarrow>
   (case (a, b) of (None, None) \<Rightarrow> h = Map.empty | (Some x, None) \<Rightarrow> \<exists>t. h = [x \<mapsto> t] | (None, Some y) \<Rightarrow> \<exists>t. h = [y \<mapsto> t]
    | (Some x, Some y) \<Rightarrow> x \<noteq> y \<and> (\<exists>t u. h = [x \<mapsto> t, y \<mapsto> u]))"
proof -
  have one: "(\<exists>v. h x = Some v) \<and> h(x := None) = Map.empty \<longleftrightarrow> (\<exists>t. h = [x \<mapsto> t])" for h :: "nat \<Rightarrow> 'a option" and x
    by (auto simp: fun_eq_iff split: if_splits)
  show ?thesis
  proof (cases a)
    case None
    then show ?thesis using one by (cases b) (auto simp del: fun_upd_apply)
  next
    case (Some x)
    show ?thesis
    proof (cases b)
      case None
      with Some one [of h x] show ?thesis by (simp del: fun_upd_apply)
    next
      case b: (Some y)
      have "(\<exists>v. h x = Some v) \<and> (\<exists>v. (h(x := None)) y = Some v) \<and> (h(x := None))(y := None) = Map.empty \<longleftrightarrow>
          x \<noteq> y \<and> (\<exists>t u. h = [x \<mapsto> t, y \<mapsto> u])"
        by (auto simp: fun_eq_iff split: if_splits)
      with Some b show ?thesis by (simp del: fun_upd_apply)
    qed
  qed
qed


lemma urls_pair: "urls_ok s \<longleftrightarrow> (case (rq_url (request s), worker_url s) of (None, None) \<Rightarrow> url_heap s = Map.empty
    | (Some x, None) \<Rightarrow> \<exists>t. url_heap s = [x \<mapsto> t] | (None, Some y) \<Rightarrow> \<exists>t. url_heap s = [y \<mapsto> t]
    | (Some x, Some y) \<Rightarrow> x \<noteq> y \<and> (\<exists>t u. url_heap s = [x \<mapsto> t, y \<mapsto> u])) \<and> (\<forall>n\<ge>next_block s. url_heap s n = None)"
  unfolding urls_ok_def owns_pair ..

lemma running_of_worker: "async_inv env s \<Longrightarrow> worker s \<noteq> None \<Longrightarrow> rq_state (request s) = NET_REQUEST_RUNNING"
  by (cases "rq_state (request s)") (auto simp: async_inv_def)

lemma idle_worker: "async_inv env s \<Longrightarrow> rq_state (request s) = NET_REQUEST_IDLE \<Longrightarrow> worker s = None"
  by (simp add: async_inv_def)

lemma fetch_calls_plain: "plain_calls r (fetch_calls r)"
  by (auto simp: plain_calls_def fetch_calls_def)

lemma worker_copy_ok:
  assumes "async_inv env s" and "worker s = Some WorkerNew"
  shows "\<exists>u s'. worker_copy env s = Some s' \<and> async_inv env s' \<and> worker s' = Some (WorkerCopied u) \<and> request s' = request s \<and>
    settled s' = settled s \<and> next_promise s' = next_promise s \<and> received env (trace s') = received env (trace s)"
proof -
  have q: "rq_state (request s) = NET_REQUEST_RUNNING" by (rule running_of_worker [OF assms(1)]) (simp add: assms(2))
  have parts: "lib_good env False [] s" "request_phase NET_REQUEST_RUNNING s" "promises_ok s" "urls_ok s"
    using assms q by (auto simp: async_inv_def inv_parts)
  obtain b where b: "rq_url (request s) = Some b" using parts(2) by auto
  obtain txt0 where ut: "url_heap s = [b \<mapsto> txt0]" "\<forall>n\<ge>next_block s. url_heap s n = None"
    using parts(4) b assms(2) by (auto simp: urls_pair worker_url_def)
  then have nb: "next_block s \<noteq> b" by (auto split: if_splits)
  obtain u s1 where d: "strdup_url env txt0 s = (u, s1)" by fastforce
  let ?s = "s1\<lparr>worker := Some (WorkerCopied u)\<rparr>"
  have fields: "request s1 = request s" "live_funcs s1 = live_funcs s" "next_promise s1 = next_promise s" "settled s1 = settled s"
      "http_initialized s1 = http_initialized s" "received env (trace s1) = received env (trace s)"
    using d by (auto simp: strdup_url_def Let_def split: if_splits)
  have lib: "lib_good env False [] s1" using d parts(1) by (auto simp: strdup_url_def Let_def lib_good_idle split: if_splits)
  have urls: "urls_ok ?s"
  proof (cases u)
    case None
    with d b ut show ?thesis by (auto simp: urls_pair worker_url_def strdup_url_def Let_def split: if_splits)
  next
    case (Some n)
    with d have s1: "n = next_block s" "url_heap s1 = (url_heap s)(n \<mapsto> txt0)" "next_block s1 = Suc n"
      by (auto simp: strdup_url_def Let_def split: if_splits)
    then have "url_heap s1 = [b \<mapsto> txt0, n \<mapsto> txt0]" "b \<noteq> n" using ut nb by simp_all
    then show ?thesis using Some b ut s1 fields by (auto simp: urls_pair worker_url_def simp del: fun_upd_apply) auto
  qed
  have "async_inv env ?s"
    using parts lib urls fields q by (auto simp: async_inv_def inv_parts)
  moreover have "worker_copy env s = Some ?s" using b ut d by (simp add: worker_copy_def)
  ultimately show ?thesis using fields by auto
qed

lemma worker_transfer_ok:
  assumes "async_inv env s" and "worker s = Some (WorkerCopied u)" and "reads_bounded env"
  shows "\<exists>res buf bs s'. worker_transfer env u s = Some s' \<and> async_inv env s' \<and> worker s' = Some (WorkerFinished res buf) \<and>
    request s' = request s \<and> settled s' = settled s \<and> next_promise s' = next_promise s \<and> buf_holds buf bs \<and>
    (\<forall>status. res = Inr status \<longrightarrow> received env (trace s') = received env (trace s) @ bs)"
proof -
  have q: "rq_state (request s) = NET_REQUEST_RUNNING" by (rule running_of_worker [OF assms(1)]) (simp add: assms(2))
  have parts: "lib_good env False [] s" "request_phase NET_REQUEST_RUNNING s" "promises_ok s" "urls_ok s"
    using assms q by (auto simp: async_inv_def inv_parts)
  obtain b where b: "rq_url (request s) = Some b" using parts(2) by auto
  show ?thesis
  proof (cases u)
    case None
    let ?buf = empty_buffer and ?s = "s\<lparr>worker := Some (WorkerFinished (Inl (snprintf 96 ''Unable to copy request URL'', 0)) empty_buffer)\<rparr>"
    have "urls_ok ?s" using parts(4) assms(2) None b by (simp add: urls_pair worker_url_def)
    moreover have "response_body empty_buffer = None" by (simp add: empty_buffer_def)
    ultimately have "async_inv env ?s" using parts q buf_holds_empty by (auto simp: async_inv_def inv_parts)
    then show ?thesis using None buf_holds_empty by (auto simp: worker_transfer_def)
  next
    case (Some c)
    obtain t1 t2 where h: "url_heap s = [b \<mapsto> t1, c \<mapsto> t2]" "b \<noteq> c" "\<forall>n\<ge>next_block s. url_heap s n = None"
      using parts(4) b assms(2) Some by (auto simp: urls_pair worker_url_def)
    have http: "http_initialized s" using parts(2) by simp
    have st: "stacked env (lib_stack s) False [] s" "lib_nested s" using parts(1) by (simp_all add: lib_good_def)
    have calls: "\<forall>r. plain_calls r (fetch_calls r)" using fetch_calls_plain by blast
    obtain res hs buf s1 bs where t: "http_transfer env METHOD_GET t2 0 fetch_calls s = Some (res, hs, buf, s1)" "only_trace s s1"
        "stacked env (handles_stack hs @ lib_stack s) (response_body buf \<noteq> None) [] s1" "buf_holds buf bs"
        "\<And>status. res = Inr status \<Longrightarrow> received env (trace s1) = received env (trace s) @ bs"
      using http_transfer_total [OF assms(3) st(1) _ calls, of METHOD_GET t2 0] lib_ready [OF st(2) http] by blast
    let ?s2 = "http_delete_handles hs s1"
    have only: "only_trace s ?s2" using http_delete_only_trace t(2) by blast
    have lib: "lib_good env (response_body buf \<noteq> None) [] ?s2"
      using lib_good_trace [OF parts(1) only http_delete_stacked [OF t(3)]] .
    note same = same_request_only [OF only]
    let ?r = "case res of Inl e \<Rightarrow> Inl (worker_error e) | Inr status \<Rightarrow> Inr status"
    let ?s = "?s2\<lparr>url_heap := (url_heap ?s2)(c := None), worker := Some (WorkerFinished ?r buf)\<rparr>"
    have w: "worker_transfer env u s = Some ?s" using Some h t(1) same by (simp add: worker_transfer_def same_request_def)
    have "url_heap ?s = [b \<mapsto> t1]" using h same by (auto simp: same_request_def)
    then have urls: "urls_ok ?s" using b h same by (auto simp: urls_pair worker_url_def same_request_def split: if_splits)
    have "http_initialized ?s2 = http_initialized s"
    proof -
      obtain tr where "?s2 = s\<lparr>trace := tr\<rparr>" using only unfolding only_trace_def by blast
      then show ?thesis by simp
    qed
    then have "async_inv env ?s"
      using parts lib urls same q t(4) by (auto simp: async_inv_def inv_parts same_request_def)
    moreover have "?r = Inr status \<Longrightarrow> received env (trace ?s) = received env (trace s) @ bs" for status
      using t(5) by (auto split: sum.splits)
    ultimately show ?thesis using w t(4) same by (auto simp: same_request_def)
  qed
qed

lemma worker_publish_ok:
  assumes "async_inv env s" and "worker s = Some (WorkerFinished res buf)"
  shows "async_inv env (worker_publish res buf s)"
proof -
  have q: "rq_state (request s) = NET_REQUEST_RUNNING" by (rule running_of_worker [OF assms(1)]) (simp add: assms(2))
  have parts: "lib_good env (response_body buf \<noteq> None) [] s" "request_phase NET_REQUEST_RUNNING s" "promises_ok s" "urls_ok s"
    using assms q by (auto simp: async_inv_def inv_parts)
  obtain bs where bs: "buf_holds buf bs" using parts(2) assms(2) by (auto simp: worker_ok_def)
  show ?thesis
  proof (cases res)
    case (Inr status)
    have "body_bytes (request_buffer ((request s)\<lparr>rq_status := status, rq_response_body := response_body buf,
        rq_response_length := response_length buf, rq_state := NET_REQUEST_DONE\<rparr>)) = Some bs"
      using body_bytes_holds [OF bs] by (cases "response_body buf") (auto simp: request_buffer_def body_bytes_def split: if_splits)
    with Inr parts assms(2) show ?thesis by (auto simp: async_inv_def inv_parts)
  next
    case (Inl e)
    obtain operation code where e: "e = (operation, code)" by fastforce
    have only: "only_trace s (free_body buf s)" by simp
    have st: "stacked env (lib_stack s) (response_body buf \<noteq> None) [] s" using parts(1) by (simp add: lib_good_def)
    have lib: "lib_good env False [] (free_body buf s)" by (rule lib_good_trace [OF parts(1) only free_body_stacked [OF st]])
    have "same_request s (free_body buf s)" "http_initialized (free_body buf s) = http_initialized s"
      by (simp_all add: free_body_def)
    then show ?thesis using Inl e lib parts assms(2) by (auto simp: async_inv_def inv_parts same_request_def)
  qed
qed

lemma worker_safe: "reads_bounded env \<Longrightarrow> async_inv env s \<Longrightarrow> async_safe env (map_option (Pair (Inr JUndefined)) (net_fetch_worker env s))"
  using worker_copy_ok [of env s] worker_transfer_ok [of env s] worker_publish_ok [of env s]
  by (fastforce simp: net_fetch_worker_def split: option.splits worker.splits)


subsection \<open>Settling a promise\<close>

text \<open>The engine may have no memory for the error object.\<close>

definition no_error_object :: "net_env \<Rightarrow> bool" where
  "no_error_object env \<longleftrightarrow> (\<exists>h. n_ret env h JsNewError < 0)"

lemma make_error_ok:
  assumes "make_error env op code s = (err, s')"
  shows "only_trace s s' \<and> (lib_good env b ss s \<longrightarrow> lib_good env b ss s') \<and> received env (trace s') = received env (trace s) \<and>
    (\<forall>e. err = Some e \<longrightarrow> e = JObject [(''message'', JString (snprintf 160 (if code \<noteq> 0 then op @ '' failed: 0x'' @ hex08 code else op))), (''code'', JInt code)]) \<and>
    (err = None \<longrightarrow> no_error_object env)"
  using assms by (auto simp: make_error_def Let_def lib_good_idle ask_def no_error_object_def not_le split: if_splits)

lemma async_response_ok:
  assumes "async_response env status bytes s = (v, s')"
  shows "only_trace s s' \<and> (lib_good env b ss s \<longrightarrow> lib_good env b ss s') \<and> received env (trace s') = received env (trace s) \<and>
    (\<forall>e. v = Some e \<longrightarrow> e = JObject (response_fields status bytes))"
  using assms by (auto simp: async_response_def Let_def lib_good_idle split: if_splits)

text \<open>The end of every request: perhaps one call, then both functions are freed.\<close>

definition closed_funcs :: "nat \<Rightarrow> (nat \<times> settlement) option \<Rightarrow> async_state \<Rightarrow> async_state" where
  "closed_funcs k out s = s\<lparr>settled := (case out of None \<Rightarrow> [] | Some x \<Rightarrow> [x]) @ settled s,
     live_funcs := (live_funcs s)(ResolveF k := False, RejectF k := False)\<rparr>"

lemma settle_funcs:
  assumes "live_funcs s (ResolveF k)" and "live_funcs s (RejectF k)"
  shows "Option.bind (case err of None \<Rightarrow> Some s | Some e \<Rightarrow> call_func (Some (RejectF k)) e s)
      (\<lambda>s. Option.bind (free_func (Some (ResolveF k)) s) (free_func (Some (RejectF k)))) =
    Some (closed_funcs k (map_option (\<lambda>e. (k, Rejected e)) err) s)"
    and "Option.bind (case v of None \<Rightarrow> call_func (Some (RejectF k)) JException s | Some v \<Rightarrow> call_func (Some (ResolveF k)) v s)
      (\<lambda>s. Option.bind (free_func (Some (ResolveF k)) s) (free_func (Some (RejectF k)))) =
    Some (closed_funcs k (Some (k, case v of None \<Rightarrow> Rejected JException | Some v \<Rightarrow> Resolved v)) s)"
  using assms by (auto simp: closed_funcs_def split: option.splits)

lemma closed_funcs_simps [simp]:
  "request (closed_funcs k out s) = request s" "worker (closed_funcs k out s) = worker s" "url_heap (closed_funcs k out s) = url_heap s"
  "next_block (closed_funcs k out s) = next_block s" "next_promise (closed_funcs k out s) = next_promise s"
  "trace (closed_funcs k out s) = trace s" "http_initialized (closed_funcs k out s) = http_initialized s"
  "lib_good env b ss (closed_funcs k out s) = lib_good env b ss s"
  by (simp_all add: closed_funcs_def)

lemma closed_urls [simp]: "urls_ok (closed_funcs k out s) = urls_ok s" "body_held (closed_funcs k out s) = body_held s"
  by (simp_all add: inv_parts)

text \<open>A promise whose functions are live and which the request does not hold.\<close>

definition open_promise :: "async_state \<Rightarrow> nat \<Rightarrow> bool" where
  "open_promise s k \<longleftrightarrow> distinct (map fst (settled s)) \<and> (\<forall>p\<in>set (settled s). fst p < next_promise s) \<and>
     k < next_promise s \<and> k \<notin> fst ` set (settled s) \<and>
     (\<forall>f. live_funcs s f \<longleftrightarrow> rq_resolve (request s) = Some f \<or> rq_reject (request s) = Some f \<or> f = ResolveF k \<or> f = RejectF k) \<and>
     rq_resolve (request s) \<notin> {Some (ResolveF k), Some (RejectF k)} \<and> rq_reject (request s) \<notin> {Some (ResolveF k), Some (RejectF k)}"

lemma open_same: "same_request s s' \<Longrightarrow> open_promise s' k = open_promise s k"
  by (simp add: same_request_def open_promise_def)

lemma closed_promises: "open_promise s k \<Longrightarrow> out = None \<or> (\<exists>x. out = Some (k, x)) \<Longrightarrow> promises_ok (closed_funcs k out s)"
  by (auto simp: open_promise_def promises_ok_def closed_funcs_def split: option.splits)

lemma closed_phase:
  assumes "request_phase q s" and "\<forall>j. pending_promise s j \<longrightarrow> j \<noteq> k" and "out = None \<or> (\<exists>x. out = Some (k, x))"
  shows "request_phase q (closed_funcs k out s)"
proof -
  have "pending_promise (closed_funcs k out s) j" if "pending_promise s j" for j
    using that assms(2,3) by (auto simp: pending_promise_def closed_funcs_def)
  moreover have "worker_ok (closed_funcs k out s) = worker_ok s" by (simp add: worker_ok_def)
  ultimately show ?thesis using assms(1) by (cases q) auto
qed


subsection \<open>Pumping\<close>

definition cleared_request :: "net_request \<Rightarrow> net_request" where
  "cleared_request r = r\<lparr>rq_resolve := None, rq_reject := None, rq_response_body := None, rq_response_length := 0, rq_url := None,
     rq_state := NET_REQUEST_IDLE\<rparr>"

lemma take_result_ok:
  assumes "urls_ok s" and "worker s = None"
  shows "take_result s = Some (s\<lparr>url_heap := Map.empty, request := cleared_request (request s)\<rparr>)"
proof (cases "rq_url (request s)")
  case None
  then have e: "url_heap s = Map.empty" using assms by (simp add: urls_pair worker_url_def)
  have "take_result s = Some (s\<lparr>request := cleared_request (request s)\<rparr>)" using None by (simp add: take_result_def cleared_request_def)
  also have "s\<lparr>request := cleared_request (request s)\<rparr> = s\<lparr>url_heap := url_heap s, request := cleared_request (request s)\<rparr>" by simp
  finally show ?thesis unfolding e .
next
  case (Some b)
  then obtain t where "url_heap s = [b \<mapsto> t]" using assms by (auto simp: urls_pair worker_url_def)
  with Some show ?thesis by (simp add: take_result_def cleared_request_def)
qed

text \<open>After the request was taken: idle again, with the functions of \<open>k\<close> still live.\<close>

lemma taken_closed:
  assumes "async_inv env s" and "pending_promise s k" and "worker s = None" and "only_trace (s\<lparr>url_heap := Map.empty, request := cleared_request (request s)\<rparr>) s1"
    and "lib_good env False [] s1" and "out = None \<or> (\<exists>x. out = Some (k, x))"
  shows "async_inv env (closed_funcs k out s1)"
proof -
  have s1: "request s1 = cleared_request (request s)" "worker s1 = None" "url_heap s1 = Map.empty" "next_block s1 = next_block s"
      "live_funcs s1 = live_funcs s" "next_promise s1 = next_promise s" "settled s1 = settled s"
    using same_request_only [OF assms(4)] assms(3) by (simp_all add: same_request_def)
  have p: "promises_ok s" using assms(1) by (simp add: async_inv_def)
  have "promises_ok (closed_funcs k out s1)"
    using p assms(2,6) s1 by (intro closed_promises) (auto simp: open_promise_def promises_ok_def pending_promise_def cleared_request_def)
  moreover have "request_phase NET_REQUEST_IDLE (closed_funcs k out s1)" "urls_ok s1" "\<not> body_held s1"
    using s1 by (simp_all add: cleared_request_def urls_pair worker_url_def body_held_def worker_buffer_def)
  ultimately show ?thesis using assms(5) s1(1) by (simp add: async_inv_def cleared_request_def)
qed

lemma request_buffer_body [simp]: "response_body (request_buffer r) = rq_response_body r"
  by (simp add: request_buffer_def)

lemma free_request_body:
  assumes "lib_good env (rq_response_body r \<noteq> None) ss s"
  shows "lib_good env False ss (free_body (request_buffer r) s)"
proof (rule lib_good_trace [OF assms])
  show "only_trace s (free_body (request_buffer r) s)" by simp
  show "stacked env (lib_stack s) False ss (free_body (request_buffer r) s)"
    using assms free_body_stacked [of env "lib_stack s" "request_buffer r" ss s] by (simp add: lib_good_def)
qed

text \<open>What becomes of the promise of a finished request.\<close>

definition settles_as :: "nat \<Rightarrow> (settlement option \<Rightarrow> bool) \<Rightarrow> async_state \<Rightarrow> async_state \<Rightarrow> bool" where
  "settles_as k ok s s' \<longleftrightarrow> rq_state (request s') = NET_REQUEST_IDLE \<and> next_promise s' = next_promise s \<and>
     (\<exists>out. ok out \<and> settled s' = (case out of None \<Rightarrow> [] | Some x \<Rightarrow> [(k, x)]) @ settled s)"

lemma pump_done:
  assumes "async_inv env s" and "rq_state (request s) = NET_REQUEST_DONE" and "body_bytes (request_buffer (request s)) = Some bs"
    and "pending_promise s k"
  shows "\<exists>s'. vitajs_net_pump env [] s = Some (Inr (JBool False), s') \<and> async_inv env s' \<and> received env (trace s') = received env (trace s) \<and>
    settles_as k (\<lambda>out. out = Some (Resolved (JObject (response_fields (rq_status (request s)) bs))) \<or> out = Some (Rejected JException)) s s'"
proof -
  let ?r = "request s"
  have parts: "worker s = None" "urls_ok s" "lib_good env (rq_response_body ?r \<noteq> None) [] s" "promises_ok s"
    using assms(1,2) by (auto simp: async_inv_def body_held_def worker_buffer_def)
  let ?s1 = "s\<lparr>url_heap := Map.empty, request := cleared_request ?r\<rparr>"
  obtain v s2 where v: "async_response env (rq_status ?r) bs ?s1 = (v, s2)" by fastforce
  note r = async_response_ok [OF v, of "rq_response_body ?r \<noteq> None" "[]"]
  let ?s3 = "free_body (request_buffer ?r) s2"
  have lib: "lib_good env False [] ?s3" using r parts(3) by (intro free_request_body) auto
  have only: "only_trace ?s1 ?s3" using r by simp
  have live: "live_funcs ?s3 (ResolveF k)" "live_funcs ?s3 (RejectF k)" "rq_resolve ?r = Some (ResolveF k)" "rq_reject ?r = Some (RejectF k)"
    using parts(4) assms(4) same_request_only [OF only] by (auto simp: promises_ok_def pending_promise_def same_request_def)
  let ?out = "Some (k, case v of None \<Rightarrow> Rejected JException | Some v \<Rightarrow> Resolved v)"
  have "settle_done env ?r ?s1 = Some (closed_funcs k ?out ?s3)"
    using assms(3) v live settle_funcs(2) [of ?s3 k v] by (cases v) (simp_all add: settle_done_def Let_def del: call_func.simps free_func.simps)
  then have "vitajs_net_pump env [] s = Some (Inr (JBool False), closed_funcs k ?out ?s3)"
    using assms(2) take_result_ok [OF parts(2,1)] by (simp add: vitajs_net_pump_def)
  moreover have "async_inv env (closed_funcs k ?out ?s3)"
    using taken_closed [OF assms(1,4) parts(1) only lib, of ?out] by simp
  moreover have "received env (trace ?s3) = received env (trace s)" using r by simp
  moreover have "settles_as k (\<lambda>out. out = Some (Resolved (JObject (response_fields (rq_status ?r) bs))) \<or> out = Some (Rejected JException)) s
      (closed_funcs k ?out ?s3)"
    using r same_request_only [OF only]
    by (cases v) (auto simp: settles_as_def same_request_def cleared_request_def closed_funcs_def)
  ultimately show ?thesis by auto
qed

lemma pump_error:
  assumes "async_inv env s" and "rq_state (request s) = NET_REQUEST_ERROR" and "pending_promise s k"
  shows "\<exists>s'. vitajs_net_pump env [] s = Some (Inr (JBool False), s') \<and> async_inv env s' \<and> received env (trace s') = received env (trace s) \<and>
    settles_as k (\<lambda>out. out = None \<and> no_error_object env \<or> (\<exists>e. out = Some (Rejected e))) s s'"
proof -
  let ?r = "request s"
  have parts: "worker s = None" "urls_ok s" "lib_good env False [] s" "promises_ok s" "rq_response_body ?r = None"
    using assms(1,2) by (auto simp: async_inv_def body_held_def worker_buffer_def)
  let ?s1 = "s\<lparr>url_heap := Map.empty, request := cleared_request ?r\<rparr>"
  have nobody: "free_body (request_buffer ?r) ?s1 = ?s1" using parts(5) by (simp add: free_body_def)
  obtain err s2 where v: "make_error env (snprintf 96 (rq_error_operation ?r)) (rq_error_code ?r) ?s1 = (err, s2)" by fastforce
  note r = make_error_ok [OF v, of False "[]"]
  have lib: "lib_good env False [] s2" using r parts(3) by auto
  have only: "only_trace ?s1 s2" using r by simp
  have live: "live_funcs s2 (ResolveF k)" "live_funcs s2 (RejectF k)" "rq_resolve ?r = Some (ResolveF k)" "rq_reject ?r = Some (RejectF k)"
    using parts(4) assms(3) same_request_only [OF only] by (auto simp: promises_ok_def pending_promise_def same_request_def)
  let ?out = "map_option (\<lambda>e. (k, Rejected e)) err"
  have "settle_error env ?r ?s1 = Some (closed_funcs k ?out s2)"
    using v live settle_funcs(1) [of s2 k err] by (cases err) (simp_all add: settle_error_def nobody del: call_func.simps free_func.simps)
  then have "vitajs_net_pump env [] s = Some (Inr (JBool False), closed_funcs k ?out s2)"
    using assms(2) take_result_ok [OF parts(2,1)] by (simp add: vitajs_net_pump_def)
  moreover have "async_inv env (closed_funcs k ?out s2)"
    using taken_closed [OF assms(1,3) parts(1) only lib, of ?out] by (cases err) simp_all
  moreover have "received env (trace s2) = received env (trace s)" using r by simp
  moreover have "settles_as k (\<lambda>out. out = None \<and> no_error_object env \<or> (\<exists>e. out = Some (Rejected e))) s (closed_funcs k ?out s2)"
    using r same_request_only [OF only]
    by (cases err) (auto simp: settles_as_def same_request_def cleared_request_def closed_funcs_def)
  ultimately show ?thesis by auto
qed

lemma pump_safe: "async_inv env s \<Longrightarrow> async_safe env (vitajs_net_pump env argv s)"
proof (cases "argv = [] \<and> (rq_state (request s) = NET_REQUEST_DONE \<or> rq_state (request s) = NET_REQUEST_ERROR)")
  case False
  assume "async_inv env s"
  with False show ?thesis by (cases "rq_state (request s)") (auto simp: vitajs_net_pump_def)
next
  case True
  assume i: "async_inv env s"
  show ?thesis
  proof (cases "rq_state (request s) = NET_REQUEST_DONE")
    case fin: True
    then obtain bs k where "body_bytes (request_buffer (request s)) = Some bs" "pending_promise s k" using i by (auto simp: async_inv_def)
    from pump_done [OF i fin this] True show ?thesis by (auto simp: async_safe_def)
  next
    case False
    with True have e: "rq_state (request s) = NET_REQUEST_ERROR" by simp
    then obtain k where "pending_promise s k" using i by (auto simp: async_inv_def)
    from pump_error [OF i e this] True show ?thesis by (auto simp: async_safe_def)
  qed
qed

subsection \<open>Fetching\<close>

lemma reject_open:
  assumes "lib_good env (body_held s) [] s" and "request_phase (rq_state (request s)) s" and "open_promise s k" and "urls_ok s"
  shows "\<exists>out s'. reject_promise_immediately env k (Some (ResolveF k)) (Some (RejectF k)) op code s = Some (Inr (JRef k), s') \<and>
    async_inv env s' \<and> request s' = request s \<and> worker s' = worker s \<and> url_heap s' = url_heap s \<and> next_promise s' = next_promise s \<and>
    received env (trace s') = received env (trace s) \<and> settled s' = out @ settled s \<and> (out = [] \<and> no_error_object env \<or> (\<exists>e. out = [(k, Rejected e)]))"
proof -
  obtain err s1 where v: "make_error env op code s = (err, s1)" by fastforce
  note r = make_error_ok [OF v, of "body_held s" "[]"]
  then have same: "same_request s s1" using same_request_only by blast
  have http: "http_initialized s1 = http_initialized s" using v by (auto simp: make_error_def Let_def split: if_splits)
  let ?out = "map_option (\<lambda>e. (k, Rejected e)) err"
  have o: "open_promise s1 k" using assms(3) open_same [OF same] by simp
  then have live: "live_funcs s1 (ResolveF k)" "live_funcs s1 (RejectF k)" by (simp_all add: open_promise_def)
  have eq: "reject_promise_immediately env k (Some (ResolveF k)) (Some (RejectF k)) op code s = Some (Inr (JRef k), closed_funcs k ?out s1)"
    using v live by (auto simp: reject_promise_immediately_def closed_funcs_def split: option.splits)
  have ph: "request_phase (rq_state (request s)) s1" using same_request_phase [OF same _ assms(2)] http by simp
  have "\<forall>j. pending_promise s1 j \<longrightarrow> j \<noteq> k" using o by (auto simp: open_promise_def pending_promise_def)
  from closed_phase [OF ph this, of ?out] have "request_phase (rq_state (request s)) (closed_funcs k ?out s1)" by (cases err) auto
  moreover have "promises_ok (closed_funcs k ?out s1)" using closed_promises [OF o, of ?out] by (cases err) auto
  moreover have "urls_ok s1" "body_held s1 = body_held s" using same_request_parts [OF same] assms(4) by simp_all
  ultimately have "async_inv env (closed_funcs k ?out s1)"
    using r assms(1) same by (simp add: async_inv_def same_request_def)
  moreover have "settled (closed_funcs k ?out s1) = (case err of None \<Rightarrow> [] | Some e \<Rightarrow> [(k, Rejected e)]) @ settled s"
    using same by (cases err) (simp_all add: closed_funcs_def same_request_def)
  ultimately show ?thesis using eq same r by (cases err) (auto simp: same_request_def)
qed

text \<open>A request that was set up, before its thread is started.\<close>

definition set_up :: "net_env \<Rightarrow> nat \<Rightarrow> async_state \<Rightarrow> bool" where
  "set_up env k s \<longleftrightarrow> lib_good env False [] s \<and> promises_ok s \<and> urls_ok s \<and> rq_url (request s) \<noteq> None \<and> rq_response_body (request s) = None \<and>
     worker s = None \<and> pending_promise s k \<and> http_initialized s \<and> rq_state (request s) = NET_REQUEST_RUNNING"

lemma set_up_did: "idle_call c \<Longrightarrow> set_up env k s \<Longrightarrow> set_up env k (did c s)"
  by (auto simp: set_up_def inv_parts lib_good_idle)

lemma cancel_ok:
  assumes "set_up env k s"
  shows "\<exists>out s'. cancel_request env k op code s = Some (Inr (JRef k), s') \<and> async_inv env s' \<and> rq_state (request s') = NET_REQUEST_IDLE \<and>
    next_promise s' = next_promise s \<and> received env (trace s') = received env (trace s) \<and>
    settled s' = out @ settled s \<and> (out = [] \<and> no_error_object env \<or> (\<exists>e. out = [(k, Rejected e)]))"
proof -
  obtain b t where b: "rq_url (request s) = Some b" "url_heap s = [b \<mapsto> t]"
    using assms by (auto simp: set_up_def urls_pair worker_url_def)
  let ?r = "(request s)\<lparr>rq_resolve := None, rq_reject := None, rq_url := None, rq_state := NET_REQUEST_IDLE\<rparr>"
  let ?s = "s\<lparr>url_heap := Map.empty, request := ?r\<rparr>"
  have c: "cancel_request env k op code s = reject_promise_immediately env k (Some (ResolveF k)) (Some (RejectF k)) op code ?s"
    using assms b by (simp add: cancel_request_def Let_def set_up_def pending_promise_def)
  have "lib_good env (body_held ?s) [] ?s" "request_phase (rq_state (request ?s)) ?s" "urls_ok ?s"
    using assms by (simp_all add: set_up_def body_held_def worker_buffer_def urls_pair worker_url_def)
  moreover have "open_promise ?s k" using assms by (auto simp: set_up_def open_promise_def promises_ok_def pending_promise_def)
  ultimately show ?thesis using reject_open [of env ?s k op code] c by auto
qed

lemma start_worker_ok:
  assumes "set_up env k s"
  shows "\<exists>s'. start_worker env k s = Some (Inr (JRef k), s') \<and> async_inv env s' \<and> next_promise s' = next_promise s \<and>
    received env (trace s') = received env (trace s) \<and>
    (rq_state (request s') = NET_REQUEST_IDLE \<and> (\<exists>out. settled s' = out @ settled s \<and> (out = [] \<and> no_error_object env \<or> (\<exists>e. out = [(k, Rejected e)]))) \<or>
     request s' = request s \<and> url_heap s' = url_heap s \<and> worker s' = Some WorkerNew \<and> pending_promise s' k \<and> settled s' = settled s)"
proof -
  define thread where "thread = ask (n_ret env) s KernelCreateThread"
  define s1 where "s1 = did KernelCreateThread s"
  define ret where "ret = ask (n_ret env) s1 (KernelStartThread thread)"
  define s2 where "s2 = did (KernelStartThread thread) s1"
  have up: "set_up env k s1" "set_up env k s2" "set_up env k (did (KernelDeleteThread thread) s2)"
    using assms by (simp_all add: s1_def s2_def set_up_did)
  have same: "next_promise s1 = next_promise s" "next_promise s2 = next_promise s" "settled s1 = settled s" "settled s2 = settled s"
      "received env (trace s1) = received env (trace s)" "received env (trace s2) = received env (trace s)"
      "request s2 = request s" "url_heap s2 = url_heap s"
    by (simp_all add: s1_def s2_def)
  have w: "start_worker env k s =
      (if thread < 0 then cancel_request env k ''sceKernelCreateThread'' thread s1
       else if ret < 0 then cancel_request env k ''sceKernelStartThread'' ret (did (KernelDeleteThread thread) s2)
       else Some (Inr (JRef k), s2\<lparr>worker := Some WorkerNew\<rparr>))"
    by (simp add: start_worker_def Let_def thread_def s1_def ret_def s2_def)
  show ?thesis
  proof (cases "thread < 0 \<or> ret < 0")
    case True
    then show ?thesis
      using w same cancel_ok [OF up(1), of "''sceKernelCreateThread''" thread] cancel_ok [OF up(3), of "''sceKernelStartThread''" ret]
      by (cases "thread < 0") auto
  next
    case False
    have "async_inv env (s2\<lparr>worker := Some WorkerNew\<rparr>)" "pending_promise s2 k"
      using up(2) by (auto simp: set_up_def async_inv_def inv_parts)
    then show ?thesis using False w same by (auto simp: pending_promise_def)
  qed
qed

text \<open>Reading and freeing the argument touches the history only.\<close>

lemma cstring_same:
  "get_cstring js i v s = (c, s') \<Longrightarrow> same_request s s' \<and> http_initialized s' = http_initialized s \<and>
     (case ToCString js v of None \<Rightarrow> c = None | Some t \<Rightarrow> c = Some (FromArg i t))"
  by (auto simp: get_cstring_def split: option.splits)

lemma free_cstring_same:
  "same_request s (free_cstrings [Some c] s)" "http_initialized (free_cstrings [Some c] s) = http_initialized s" for s :: async_state
  by simp_all

text \<open>A new promise is open: its number is larger than every one in use.\<close>

lemma held_promise:
  assumes "request_phase q s" and "rq_resolve (request s) = Some f \<or> rq_reject (request s) = Some f"
  shows "func_promise f < next_promise s"
  using assms by (cases q) (auto simp: pending_promise_def)

lemma new_promise_ok:
  assumes "new_promise env s = (Some k, s')" and "promises_ok s" and "request_phase q s"
  shows "k = next_promise s" and "open_promise s' k"
    and "request s' = request s \<and> worker s' = worker s \<and> url_heap s' = url_heap s \<and> next_block s' = next_block s \<and> settled s' = settled s \<and>
      next_promise s' = Suc k \<and> http_initialized s' = http_initialized s \<and> received env (trace s') = received env (trace s) \<and>
      (lib_good env b ss s \<longrightarrow> lib_good env b ss s')"
proof -
  show k: "k = next_promise s" and rest: "request s' = request s \<and> worker s' = worker s \<and> url_heap s' = url_heap s \<and> next_block s' = next_block s \<and> settled s' = settled s \<and>
      next_promise s' = Suc k \<and> http_initialized s' = http_initialized s \<and> received env (trace s') = received env (trace s) \<and>
      (lib_good env b ss s \<longrightarrow> lib_good env b ss s')"
    using assms(1) by (auto simp: new_promise_def Let_def lib_good_idle split: if_splits)
  have "live_funcs s' = (live_funcs s)(ResolveF k := True, RejectF k := True)"
    using assms(1) by (auto simp: new_promise_def Let_def split: if_splits)
  moreover have "rq_resolve (request s) \<notin> {Some (ResolveF k), Some (RejectF k)}" "rq_reject (request s) \<notin> {Some (ResolveF k), Some (RejectF k)}"
    using held_promise [OF assms(3)] k by fastforce+
  moreover have "k \<notin> fst ` set (settled s)" "\<forall>p\<in>set (settled s). fst p < Suc k"
    using assms(2) k by (fastforce simp: promises_ok_def)+
  ultimately show "open_promise s' k" using rest assms(2) by (auto simp: open_promise_def promises_ok_def)
qed

text \<open>What a call of \<open>fetch\<close> can come to.\<close>

definition rejected_only :: "net_env \<Rightarrow> nat \<Rightarrow> async_state \<Rightarrow> async_state \<Rightarrow> bool" where
  "rejected_only env k s s' \<longleftrightarrow> (\<exists>out. settled s' = out @ settled s \<and> (out = [] \<and> no_error_object env \<or> (\<exists>e. out = [(k, Rejected e)])))"

definition fetch_started :: "string \<Rightarrow> nat \<Rightarrow> async_state \<Rightarrow> async_state \<Rightarrow> bool" where
  "fetch_started url k s s' \<longleftrightarrow> rq_state (request s) = NET_REQUEST_IDLE \<and> rq_state (request s') = NET_REQUEST_RUNNING \<and>
     worker s' = Some WorkerNew \<and> pending_promise s' k \<and> settled s' = settled s \<and>
     (\<exists>b. rq_url (request s') = Some b \<and> url_heap s' b = Some url)"

definition fetch_refused :: "net_env \<Rightarrow> nat \<Rightarrow> async_state \<Rightarrow> async_state \<Rightarrow> bool" where
  "fetch_refused env k s s' \<longleftrightarrow> rejected_only env k s s' \<and> worker s' = worker s \<and> rq_state (request s') = rq_state (request s) \<and>
     (rq_state (request s) \<noteq> NET_REQUEST_IDLE \<longrightarrow> request s' = request s \<and> url_heap s' = url_heap s)"

definition fetch_outcome :: "net_env \<Rightarrow> string \<Rightarrow> async_state \<Rightarrow> (jsval js_result \<times> async_state) option \<Rightarrow> bool" where
  "fetch_outcome env url s out \<longleftrightarrow> (\<exists>r s'. out = Some (r, s') \<and> async_inv env s' \<and> received env (trace s') = received env (trace s) \<and>
     (case r of
        Inl e \<Rightarrow> same_request s s'
      | Inr v \<Rightarrow> v = JRef (next_promise s) \<and> next_promise s' = Suc (next_promise s) \<and>
          (fetch_started url (next_promise s) s s' \<or> fetch_refused env (next_promise s) s s')))"

text \<open>The request is idle, its promise was made and the string is about to be copied.\<close>

lemma fetch_idle:
  assumes "lib_good env False [c] s" and "request_phase NET_REQUEST_IDLE s" and "rq_state (request s) = NET_REQUEST_IDLE" and "open_promise s k"
    and "urls_ok s" and "http_initialized s" and "k = next_promise s0" and "next_promise s = Suc k" and "settled s = settled s0" and "worker s0 = None"
    and "rq_state (request s0) = NET_REQUEST_IDLE" and "received env (trace s) = received env (trace s0)"
  shows "fetch_outcome env (c_text c) s0
    (case strdup_url env (c_text c) s of
       (copy, s) \<Rightarrow>
         let s = free_cstrings [Some c] s in
         if copy = None
         then reject_promise_immediately env k (Some (ResolveF k)) (Some (RejectF k)) ''Net.fetch: out of memory'' 0
                (s\<lparr>request := (request s)\<lparr>rq_url := None\<rparr>\<rparr>)
         else start_worker env k (s\<lparr>request := begin_request copy k (request s)\<rparr>))"
proof -
  obtain copy s1 where d: "strdup_url env (c_text c) s = (copy, s1)" by fastforce
  have lib: "lib_good env False [] (free_cstrings [Some c] s1)"
    using free_cstrings_good [of env False "[Some c]" "[]" s1] d assms(1) by (auto simp: strdup_url_def Let_def lib_good_idle split: if_splits)
  have f: "request s1 = request s" "worker s1 = worker s" "live_funcs s1 = live_funcs s" "next_promise s1 = next_promise s" "settled s1 = settled s"
      "http_initialized s1 = http_initialized s" "received env (trace s1) = received env (trace s)"
    using d by (auto simp: strdup_url_def Let_def split: if_splits)
  have idle: "rq_url (request s) = None" "worker s = None" "rq_response_body (request s) = None" "url_heap s = Map.empty"
    using assms(2,5) by (auto simp: urls_pair worker_url_def)
  show ?thesis
  proof (cases copy)
    case None
    let ?t = "(free_cstrings [Some c] s1)\<lparr>request := (request s1)\<lparr>rq_url := None\<rparr>\<rparr>"
    have h: "url_heap s1 = url_heap s" "next_block s1 = next_block s" using d None by (auto simp: strdup_url_def Let_def split: if_splits)
    have "lib_good env (body_held ?t) [] ?t" "request_phase (rq_state (request ?t)) ?t" "urls_ok ?t"
      using lib idle f h assms(2,3,5) by (simp_all add: body_held_def worker_buffer_def urls_pair worker_url_def)
    moreover have "open_promise ?t k" using assms(4) f by (simp add: open_promise_def)
    ultimately show ?thesis using reject_open [of env ?t k "''Net.fetch: out of memory''" 0] d None f idle assms(3,7-12)
      by (auto simp: fetch_outcome_def fetch_refused_def rejected_only_def)
  next
    case (Some b)
    let ?t = "(free_cstrings [Some c] s1)\<lparr>request := begin_request copy k (request s1)\<rparr>"
    have h: "url_heap s1 = [b \<mapsto> c_text c]" "b < next_block s1" using d Some idle(4) by (auto simp: strdup_url_def Let_def split: if_splits)
    have "urls_ok ?t" using h Some f idle by (auto simp: begin_request_def urls_pair worker_url_def)
    moreover have "promises_ok ?t" "pending_promise ?t k"
      using assms(2,4) f Some by (auto simp: open_promise_def promises_ok_def pending_promise_def begin_request_def)
    ultimately have "set_up env k ?t" using lib idle f assms(6) Some by (simp add: set_up_def begin_request_def)
    from start_worker_ok [OF this] show ?thesis using d Some f h idle assms(7-12)
      by (auto simp: fetch_outcome_def fetch_refused_def fetch_started_def rejected_only_def begin_request_def idle_worker)
  qed
qed

lemma fetch_ok:
  assumes "async_inv env s" and "ToCString js v = Some url"
  shows "fetch_outcome env url s (vitajs_net_fetch js env [v] s)"
proof -
  let ?b = "body_held s" and ?q = "rq_state (request s)"
  have inv: "lib_good env ?b [] s" "request_phase ?q s" "promises_ok s" "urls_ok s" using assms(1) by (simp_all add: async_inv_def)
  define c where "c = FromArg 0 url"
  obtain s1 where g: "get_cstring js 0 v s = (Some c, s1)" using assms(2) by (simp add: get_cstring_def c_def)
  have l1: "lib_good env ?b [c] s1" and r1: "received env (trace s1) = received env (trace s)" using get_cstring_good [OF g inv(1)] by simp_all
  have same1: "same_request s s1" "http_initialized s1 = http_initialized s" using cstring_same [OF g] by simp_all
  obtain r2 s2 where e: "async_ensure env s1 = (r2, s2)" by fastforce
  note e2 = async_ensure_ok [OF e l1]
  have same2: "same_request s s2" using same1 e2 same_request_trans by blast
  have up: "http_initialized s \<longrightarrow> http_initialized s2" using same1 e2 by auto
  have back_out: "async_inv env (free_cstrings [Some c] t)" if "same_request s t" "lib_good env ?b [c] t" "http_initialized s \<longrightarrow> http_initialized t" for t
  proof (rule async_inv_same [OF assms(1)])
    show "same_request s (free_cstrings [Some c] t)" "http_initialized s \<longrightarrow> http_initialized (free_cstrings [Some c] t)" using that by simp_all
    then show "lib_good env (body_held (free_cstrings [Some c] t)) [] (free_cstrings [Some c] t)"
      using free_cstrings_good [of env ?b "[Some c]" "[]" t] that same_request_parts(1) [of s "free_cstrings [Some c] t"] by simp
  qed
  show ?thesis
  proof (cases r2)
    case (Inl x)
    then show ?thesis using g e e2 r1 same2 back_out [OF same2 _ up]
      by (auto simp: vitajs_net_fetch_def fetch_outcome_def)
  next
    case (Inr u)
    obtain ko s3 where n: "new_promise env s2 = (ko, s3)" by fastforce
    show ?thesis
    proof (cases ko)
      case None
      then have s3: "s3 = did JsNewPromise s2" using n by (auto simp: new_promise_def Let_def split: if_splits)
      then have "lib_good env ?b [c] s3" using e2 by (simp add: lib_good_idle)
      with back_out [of s3] None s3 Inr g e n same2 up e2 r1 show ?thesis
        by (auto simp: vitajs_net_fetch_def fetch_outcome_def)
    next
      case (Some k)
      have p2: "promises_ok s2" "request_phase ?q s2" "urls_ok s2"
        using inv same_request_parts [OF same2] same_request_phase [OF same2 up] by simp_all
      note k = new_promise_ok [OF n [unfolded Some] p2(1,2)]
      have s3: "request s3 = request s" "worker s3 = worker s" "url_heap s3 = url_heap s" "next_block s3 = next_block s" "settled s3 = settled s"
          "next_promise s3 = Suc k" "http_initialized s3" "received env (trace s3) = received env (trace s)" "k = next_promise s"
          "lib_good env ?b [c] s3"
        using k(1) k(3) [of ?b "[c]"] same2 e2 r1 Inr by (auto simp: same_request_def)
      have p3: "urls_ok s3" "request_phase ?q s3" "body_held s3 = ?b"
      proof -
        show "urls_ok s3" "body_held s3 = ?b" using inv(4) s3 by (simp_all add: inv_parts)
        have "pending_promise s j \<Longrightarrow> pending_promise s3 j" for j using s3 by (simp add: pending_promise_def)
        then show "request_phase ?q s3" using inv(2) s3 by (cases ?q) (auto simp: worker_ok_def)
      qed
      show ?thesis
      proof (cases "?q = NET_REQUEST_IDLE")
        case True
        have "\<not> ?b" using inv(2) True by (simp add: body_held_def worker_buffer_def)
        then have "fetch_outcome env (c_text c) s
            (case strdup_url env (c_text c) s3 of (copy, s) \<Rightarrow>
               let s = free_cstrings [Some c] s in
               if copy = None
               then reject_promise_immediately env k (Some (ResolveF k)) (Some (RejectF k)) ''Net.fetch: out of memory'' 0
                      (s\<lparr>request := (request s)\<lparr>rq_url := None\<rparr>\<rparr>)
               else start_worker env k (s\<lparr>request := begin_request copy k (request s)\<rparr>))"
          using s3 p3 k(2) True inv(2) by (intro fetch_idle) simp_all
        moreover have "c_text c = url" by (simp add: c_def)
        ultimately show ?thesis using g e n Some Inr True s3(1) by (simp add: vitajs_net_fetch_def)
      next
        case False
        let ?t = "free_cstrings [Some c] s3"
        have "lib_good env (body_held ?t) [] ?t" "request_phase (rq_state (request ?t)) ?t" "open_promise ?t k" "urls_ok ?t"
          using free_cstrings_good [of env ?b "[Some c]" "[]" s3] s3 p3 k(2) same_request_parts [OF free_cstring_same(1) [of s3 c]]
            same_request_phase [OF free_cstring_same(1) [of s3 c]] open_same [OF free_cstring_same(1) [of s3 c]] by simp_all
        from reject_open [OF this, of "''Net.fetch: another request is already running''" 0]
        show ?thesis using g e n Some Inr False s3
          by (auto simp: vitajs_net_fetch_def fetch_outcome_def fetch_refused_def rejected_only_def)
      qed
    qed
  qed
qed

lemma fetch_safe:
  assumes "async_inv env s"
  shows "async_safe env (vitajs_net_fetch js env argv s)"
proof (cases "\<exists>v url. argv = [v] \<and> ToCString js v = Some url")
  case True
  then obtain v url where "argv = [v]" "ToCString js v = Some url" by blast
  then show ?thesis using fetch_ok [OF assms, of js v url] by (auto simp: fetch_outcome_def async_safe_def)
next
  case False
  then show ?thesis using assms
    by (cases argv) (auto simp: vitajs_net_fetch_def get_cstring_def split: option.splits)
qed

subsection \<open>Every interleaving\<close>

lemma async_exec_safe: "reads_bounded env \<Longrightarrow> async_inv env s \<Longrightarrow> async_safe env (async_exec js env op s)"
  by (cases op) (simp_all only: async_exec.simps fetch_safe pump_safe is_connected_safe get_ip_safe worker_safe)

lemma async_inv_start: "async_inv env async_start"
  by (auto simp: async_inv_def async_start_def request_zero_def inv_parts lib_good_def stacked_def lib_stack_def lib_nested_def)

definition async_step_in :: "js_engine \<Rightarrow> net_env \<Rightarrow> async_state \<Rightarrow> async_state \<Rightarrow> bool" where
  "async_step_in js env s s' \<longleftrightarrow> reads_bounded env \<and> async_step js env s s'"

interpretation async: module_inv async_start "async_step_in js env" "async_inv env" for js env
proof unfold_locales
  show "async_inv env async_start" by (rule async_inv_start)
next
  fix s t
  assume "async_step_in js env s t" "async_inv env s"
  then show "async_inv env t" using async_exec_safe [of env s]
    by (auto simp: async_step_in_def elim!: async_stepE) (metis async_safe_Some)
qed

lemma async_reachable: "reads_bounded env \<Longrightarrow> (async_step js env)\<^sup>*\<^sup>* async_start s \<Longrightarrow> async_inv env s"
proof -
  assume w: "reads_bounded env" and "(async_step js env)\<^sup>*\<^sup>* async_start s"
  moreover have "async_step js env = async_step_in js env" using w by (intro ext) (simp add: async_step_in_def)
  ultimately show ?thesis using async.inv_reachable [of js env s] by simp
qed

end
