(* ===== verification/Net_Async_Props.thy ===== *)
theory Net_Async_Props
  imports Net_Async_Safety
begin

text \<open>
  The properties of the asynchronous network module: no interleaving of the main thread and the
  worker is undefined, promises are settled once, a request that was started is delivered, a
  second one is refused without touching it, and the whole is a refinement of a machine that is
  idle, running or finished.
\<close>

subsection \<open>Runs\<close>

fun async_run :: "js_engine \<Rightarrow> net_env \<Rightarrow> async_op list \<Rightarrow> async_state \<Rightarrow> async_state option" where
  "async_run js env [] s = Some s"
| "async_run js env (op # ops) s = (case async_exec js env op s of None \<Rightarrow> None | Some (r, s') \<Rightarrow> async_run js env ops s')"


lemma async_run_reachable: "async_run js env ops s = Some s' \<Longrightarrow> (async_step js env)\<^sup>*\<^sup>* s s'"
proof (induction ops arbitrary: s)
  case (Cons op ops)
  then obtain r s1 where "async_exec js env op s = Some (r, s1)" "async_run js env ops s1 = Some s'" by (auto split: option.splits)
  with Cons.IH show ?case by (meson async_step.exec converse_rtranclp_into_rtranclp)
qed simp

subsection \<open>What a step of the main thread leaves alone\<close>

lemma query_frame:
  assumes "async_inv env s" and "op = A_is_connected argv \<or> op = A_get_ip argv" and "async_exec js env op s = Some (r, s')"
  shows "same_request s s' \<and> received env (trace s') = received env (trace s)"
proof -
  have l: "lib_good env (body_held s) [] s" using assms(1) by (simp add: async_inv_def)
  obtain r1 s1 where e: "async_ensure env s = (r1, s1)" by fastforce
  note f = async_ensure_ok [OF e l]
  show ?thesis using assms(2,3) e f
    by (auto simp: async_is_connected_def async_get_ip_def Let_def split: if_splits sum.splits)
qed

lemma fetch_bad_args:
  assumes "\<not> (\<exists>v url. argv = [v] \<and> ToCString js v = Some url)"
  shows "\<exists>e. vitajs_net_fetch js env argv s = Some (Inl e, s)"
  using assms by (cases argv) (auto simp: vitajs_net_fetch_def get_cstring_def split: option.splits)











subsection \<open>The machine behind it\<close>

text \<open>What a script sees: whether a request is under way, how many promises were handed out and how
  they were settled.\<close>

datatype fetch_phase = FetchIdle | FetchRunning nat | FetchFinished nat

record fetch_machine =
  fetch_phase :: fetch_phase
  issued :: nat
  outcomes :: "(nat \<times> settlement) list"

definition at_most_rejected :: "net_env \<Rightarrow> nat \<Rightarrow> (nat \<times> settlement) list \<Rightarrow> bool" where
  "at_most_rejected env k out \<longleftrightarrow> (\<exists>e. out = [(k, Rejected e)]) \<or> out = [] \<and> no_error_object env"

inductive fetch_spec :: "net_env \<Rightarrow> fetch_machine \<Rightarrow> fetch_machine \<Rightarrow> bool" for env where
  spec_stutter: "fetch_spec env a a"
| spec_begin: "fetch_phase a = FetchIdle \<Longrightarrow> fetch_spec env a (a\<lparr>fetch_phase := FetchRunning (issued a), issued := Suc (issued a)\<rparr>)"
| spec_refuse: "at_most_rejected env (issued a) out \<Longrightarrow>
    fetch_spec env a (a\<lparr>issued := Suc (issued a), outcomes := out @ outcomes a\<rparr>)"
| spec_finish: "fetch_phase a = FetchRunning k \<Longrightarrow> fetch_spec env a (a\<lparr>fetch_phase := FetchFinished k\<rparr>)"
| spec_settle: "fetch_phase a = FetchFinished k \<Longrightarrow> at_most_rejected env k out \<or> (\<exists>status bs. out = [(k, Resolved (JObject (response_fields status bs)))]) \<Longrightarrow>
    fetch_spec env a (a\<lparr>fetch_phase := FetchIdle, outcomes := out @ outcomes a\<rparr>)"

definition held_by :: "net_request \<Rightarrow> nat" where
  "held_by r = (case rq_resolve r of None \<Rightarrow> 0 | Some f \<Rightarrow> func_promise f)"

definition fetch_abs :: "async_state \<Rightarrow> fetch_machine" where
  "fetch_abs s = \<lparr>fetch_phase = (case rq_state (request s) of
       NET_REQUEST_IDLE \<Rightarrow> FetchIdle | NET_REQUEST_RUNNING \<Rightarrow> FetchRunning (held_by (request s))
     | _ \<Rightarrow> FetchFinished (held_by (request s))), issued = next_promise s, outcomes = settled s\<rparr>"

lemma abs_same: "request s' = request s \<Longrightarrow> next_promise s' = next_promise s \<Longrightarrow> settled s' = settled s \<Longrightarrow> fetch_abs s' = fetch_abs s"
  unfolding fetch_abs_def by (simp only:)

lemma held_pending: "pending_promise s k \<Longrightarrow> held_by (request s) = k"
  by (simp add: pending_promise_def held_by_def)

lemma spec_fetch:
  assumes "async_inv env s" and "vitajs_net_fetch js env argv s = Some (r, s')"
  shows "fetch_spec env (fetch_abs s) (fetch_abs s')"
proof (cases "\<exists>v url. argv = [v] \<and> ToCString js v = Some url")
  case True
  then obtain v url where a: "argv = [v]" "ToCString js v = Some url" by blast
  then consider "same_request s s'" | "fetch_started url (next_promise s) s s'" "next_promise s' = Suc (next_promise s)"
    | "fetch_refused env (next_promise s) s s'" "next_promise s' = Suc (next_promise s)"
    using fetch_ok [OF assms(1) a(2)] assms(2) by (auto simp: fetch_outcome_def split: sum.splits)
  then show ?thesis
  proof cases
    case 1
    then have "fetch_abs s' = fetch_abs s" by (intro abs_same) (simp_all add: same_request_def)
    then show ?thesis by (simp add: spec_stutter)
  next
    case 2
    then have "fetch_abs s' = (fetch_abs s)\<lparr>fetch_phase := FetchRunning (issued (fetch_abs s)), issued := Suc (issued (fetch_abs s))\<rparr>"
      and "fetch_phase (fetch_abs s) = FetchIdle"
      using held_pending [of s' "next_promise s"] by (simp_all add: fetch_abs_def fetch_started_def)
    then show ?thesis using spec_begin [of "fetch_abs s" env] by simp
  next
    case 3
    then obtain out where o: "settled s' = out @ settled s" "at_most_rejected env (issued (fetch_abs s)) out"
      by (auto simp: fetch_refused_def rejected_only_def at_most_rejected_def fetch_abs_def)
    have "fetch_phase (fetch_abs s') = fetch_phase (fetch_abs s)"
      using 3 by (cases "rq_state (request s)") (auto simp: fetch_abs_def fetch_refused_def)
    then have "fetch_abs s' = (fetch_abs s)\<lparr>issued := Suc (issued (fetch_abs s)), outcomes := out @ outcomes (fetch_abs s)\<rparr>"
      using 3(2) o(1) by (simp add: fetch_abs_def)
    then show ?thesis using spec_refuse [OF o(2)] by simp
  qed
next
  case False
  with fetch_bad_args [OF this, of env s] assms(2) show ?thesis by (auto intro: spec_stutter)
qed

lemma spec_pump:
  assumes "async_inv env s" and "vitajs_net_pump env argv s = Some (r, s')"
  shows "fetch_spec env (fetch_abs s) (fetch_abs s')"
proof (cases "argv = [] \<and> (rq_state (request s) = NET_REQUEST_DONE \<or> rq_state (request s) = NET_REQUEST_ERROR)")
  case False
  then have "s' = s" using assms(2) by (cases "rq_state (request s)") (auto simp: vitajs_net_pump_def split: if_splits)
  then show ?thesis by (simp add: spec_stutter)
next
  case True
  then obtain k where k: "pending_promise s k" using assms(1) by (auto simp: async_inv_def)
  then have ph: "fetch_phase (fetch_abs s) = FetchFinished k" using True held_pending [OF k] by (auto simp: fetch_abs_def)
  have "\<exists>out. (at_most_rejected env k out \<or> (\<exists>status bs. out = [(k, Resolved (JObject (response_fields status bs)))])) \<and>
      settled s' = out @ settled s \<and> rq_state (request s') = NET_REQUEST_IDLE \<and> next_promise s' = next_promise s"
  proof (cases "rq_state (request s) = NET_REQUEST_DONE")
    case fin: True
    then obtain bs where "body_bytes (request_buffer (request s)) = Some bs" using assms(1) by (auto simp: async_inv_def)
    from pump_done [OF assms(1) fin this k] True assms(2) show ?thesis
      by (fastforce simp: settles_as_def at_most_rejected_def)
  next
    case False
    with True have "rq_state (request s) = NET_REQUEST_ERROR" by simp
    from pump_error [OF assms(1) this k] True assms(2) show ?thesis
      by (fastforce simp: settles_as_def at_most_rejected_def)
  qed
  then obtain out where out: "at_most_rejected env k out \<or> (\<exists>status bs. out = [(k, Resolved (JObject (response_fields status bs)))])"
      and "settled s' = out @ settled s" "rq_state (request s') = NET_REQUEST_IDLE" "next_promise s' = next_promise s" by blast
  then have "fetch_abs s' = (fetch_abs s)\<lparr>fetch_phase := FetchIdle, outcomes := out @ outcomes (fetch_abs s)\<rparr>"
    by (simp add: fetch_abs_def)
  then show ?thesis using spec_settle [OF ph out] by simp
qed

lemma spec_worker:
  assumes "async_inv env s" and "net_fetch_worker env s = Some s'" and "reads_bounded env"
  shows "fetch_spec env (fetch_abs s) (fetch_abs s')"
proof (cases "\<exists>res buf. worker s = Some (WorkerFinished res buf)")
  case True
  then obtain res buf where w: "worker s = Some (WorkerFinished res buf)" by blast
  then have s': "s' = worker_publish res buf s" using assms(2) by (simp add: net_fetch_worker_def)
  have q: "fetch_phase (fetch_abs s) = FetchRunning (held_by (request s))"
    using running_of_worker [OF assms(1)] w by (simp add: fetch_abs_def)
  have "fetch_abs s' = (fetch_abs s)\<lparr>fetch_phase := FetchFinished (held_by (request s))\<rparr>"
    unfolding s' by (cases "(res, buf, s)" rule: worker_publish.cases) (simp_all add: fetch_abs_def held_by_def free_body_def)
  then show ?thesis using spec_finish [OF q] by simp
next
  case False
  have "fetch_abs s' = fetch_abs s"
  proof (cases "worker s")
    case None
    with assms(2) show ?thesis by (simp add: net_fetch_worker_def)
  next
    case (Some w)
    show ?thesis
    proof (cases w)
      case WorkerNew
      with Some worker_copy_ok [OF assms(1)] assms(2) show ?thesis by (auto simp: net_fetch_worker_def intro!: abs_same)
    next
      case (WorkerCopied u)
      with Some worker_transfer_ok [OF assms(1) _ assms(3)] assms(2) show ?thesis by (auto simp: net_fetch_worker_def intro!: abs_same)
    qed (use False Some in simp)
  qed
  then show ?thesis by (simp add: spec_stutter)
qed

lemma async_exec_spec:
  assumes "async_inv env s" and "reads_bounded env" and "async_exec js env op s = Some (r, s')"
  shows "fetch_spec env (fetch_abs s) (fetch_abs s')"
proof (cases op)
  case (A_fetch argv)
  with assms show ?thesis using spec_fetch by simp
next
  case (A_pump argv)
  with assms show ?thesis using spec_pump by simp
next
  case A_worker
  with assms show ?thesis using spec_worker by auto
next
  case (A_is_connected argv)
  with query_frame [OF assms(1) _ assms(3), of argv] have "fetch_abs s' = fetch_abs s" by (intro abs_same) (simp_all add: same_request_def)
  then show ?thesis by (simp add: spec_stutter)
next
  case (A_get_ip argv)
  with query_frame [OF assms(1) _ assms(3), of argv] have "fetch_abs s' = fetch_abs s" by (intro abs_same) (simp_all add: same_request_def)
  then show ?thesis by (simp add: spec_stutter)
qed

subsection \<open>A request in progress\<close>

definition demo_async :: "async_op list \<Rightarrow> async_state" where
  "demo_async ops = the (async_run js_prim demo_net_env ops async_start)"

definition demo_fetch :: async_op where
  "demo_fetch = A_fetch [JString ''http://x/'']"

lemma demo_run_total:
  assumes "async_inv demo_net_env s"
  shows "\<exists>s'. async_run js_prim demo_net_env ops s = Some s'"
  using assms
proof (induction ops arbitrary: s)
  case (Cons op ops)
  have "async_safe demo_net_env (async_exec js_prim demo_net_env op s)" by (rule async_exec_safe [OF demo_reads_bounded Cons.prems])
  then show ?case using Cons.IH by (auto simp: async_safe_def)
qed simp

lemma demo_async_run: "async_run js_prim demo_net_env ops async_start = Some (demo_async ops)"
  using demo_run_total [OF async_inv_start] by (auto simp: demo_async_def)

lemma demo_async_reachable: "(async_step js_prim demo_net_env)\<^sup>*\<^sup>* async_start (demo_async ops)"
  by (rule async_run_reachable [OF demo_async_run])

lemmas demo_async_eval = demo_async_def demo_fetch_def vitajs_net_fetch_def get_cstring_def js_prim_def async_ensure_def create_mutex_def
  load_net_module_def init_net_def init_netctl_def load_http_module_def init_http_def demo_net_env_def new_promise_def
  async_start_def request_zero_def strdup_url_def start_worker_def begin_request_def ask_def did_def Let_def

lemma demo_fetch_exec:
  "\<exists>s'. async_exec js_prim demo_net_env demo_fetch async_start = Some (Inr (JRef 0), s') \<and> rq_state (request s') = NET_REQUEST_RUNNING \<and>
     worker s' = Some WorkerNew \<and> demo_async [demo_fetch] = s'"
  by (simp add: demo_async_eval)

subsection \<open>Properties\<close>

text \<open>
  C17.  No interleaving of the main thread with the worker is undefined: in every reachable state
  every call of a JavaScript function and every step of the worker ends in a state (no string or
  function is used after it was freed, no byte that was not read is copied), every call of the
  network libraries was legal when it was made, and what is open is what the flags, the result
  that waits for \<open>__pump\<close> and nothing else account for.
\<close>

theorem async_never_undefined:
  assumes "reads_bounded env" and "(async_step js env)\<^sup>*\<^sup>* async_start s"
  shows "async_exec js env op s \<noteq> None \<and> res_ok env (trace s) \<and> res_of env (trace s) = lib_stack s \<and>
    body_of env (trace s) = body_held s \<and> strs_of (trace s) = []"
proof -
  have i: "async_inv env s" by (rule async_reachable [OF assms])
  then show ?thesis using async_exec_safe [OF assms(1) i, of js op] by (auto simp: async_inv_def lib_good_def stacked_def async_safe_def)
qed

theorem async_never_undefined_witness:
  "async_exec js_prim demo_net_env A_worker (demo_async [demo_fetch]) \<noteq> None"
  using async_never_undefined [OF demo_reads_bounded demo_async_reachable, of A_worker] by simp

text \<open>
  C1.  Promises: in every reachable state no promise has been settled twice, the functions that
  are alive are exactly the two the pending request holds, and the strings on the heap are exactly
  its URL and the copy of the worker; when no request is under way there are none of either.
\<close>

theorem async_promises_settled_once:
  assumes "reads_bounded env" and "(async_step js env)\<^sup>*\<^sup>* async_start s"
  shows "distinct (map fst (settled s)) \<and>
    (\<forall>f. live_funcs s f \<longleftrightarrow> rq_resolve (request s) = Some f \<or> rq_reject (request s) = Some f) \<and>
    dom (url_heap s) = set_option (rq_url (request s)) \<union> set_option (worker_url s) \<and>
    (rq_state (request s) = NET_REQUEST_IDLE \<longrightarrow> live_funcs s = (\<lambda>_. False) \<and> url_heap s = Map.empty \<and> worker s = None) \<and>
    (rq_state (request s) \<noteq> NET_REQUEST_IDLE \<longrightarrow> (\<exists>k. pending_promise s k))"
proof -
  have i: "async_inv env s" by (rule async_reachable [OF assms])
  then have p: "promises_ok s" "urls_ok s" "request_phase (rq_state (request s)) s" by (simp_all add: async_inv_def)
  have "dom (url_heap s) = set_option (rq_url (request s)) \<union> set_option (worker_url s)"
    using p(2) by (auto simp: urls_pair split: option.splits if_splits)
  moreover have "url_heap s = Map.empty \<and> live_funcs s = (\<lambda>_. False) \<and> worker s = None" if "rq_state (request s) = NET_REQUEST_IDLE"
    using p that by (auto simp: urls_pair worker_url_def promises_ok_def)
  moreover have "\<exists>k. pending_promise s k" if "rq_state (request s) \<noteq> NET_REQUEST_IDLE"
    using p(3) that by (cases "rq_state (request s)") auto
  ultimately show ?thesis using p(1) by (auto simp: promises_ok_def)
qed

theorem async_promises_settled_once_witness:
  "\<exists>k. pending_promise (demo_async [demo_fetch]) k"
  using async_promises_settled_once [OF demo_reads_bounded demo_async_reachable, of "[demo_fetch]"] demo_fetch_exec by auto



text \<open>
  One request at a time: a \<open>fetch\<close> while another request is under way, or while its
  result waits for \<open>__pump\<close>, returns a new promise that is rejected at once (or an exception),
  and leaves the request, its URL, its worker and its promise as they are.
\<close>

theorem busy_fetch_refused:
  assumes "reads_bounded env" and "(async_step js env)\<^sup>*\<^sup>* async_start s" and "rq_state (request s) \<noteq> NET_REQUEST_IDLE"
  shows "\<exists>r s'. vitajs_net_fetch js env argv s = Some (r, s') \<and> request s' = request s \<and> worker s' = worker s \<and> url_heap s' = url_heap s \<and>
    (case r of Inl e \<Rightarrow> settled s' = settled s
     | Inr v \<Rightarrow> v = JRef (next_promise s) \<and> (\<exists>out. at_most_rejected env (next_promise s) out \<and> settled s' = out @ settled s))"
proof (cases "\<exists>v url. argv = [v] \<and> ToCString js v = Some url")
  case True
  then obtain v url where a: "argv = [v]" "ToCString js v = Some url" by blast
  have i: "async_inv env s" by (rule async_reachable [OF assms(1,2)])
  from fetch_ok [OF i a(2)] obtain r s' where f: "vitajs_net_fetch js env argv s = Some (r, s')"
    "case r of Inl e \<Rightarrow> same_request s s' | Inr v \<Rightarrow> v = JRef (next_promise s) \<and> next_promise s' = Suc (next_promise s) \<and>
      (fetch_started url (next_promise s) s s' \<or> fetch_refused env (next_promise s) s s')"
    using a(1) by (auto simp: fetch_outcome_def)
  then have "(case r of Inl e \<Rightarrow> same_request s s' | Inr v \<Rightarrow> v = JRef (next_promise s) \<and> fetch_refused env (next_promise s) s s')"
    using assms(3) by (cases r) (auto simp: fetch_started_def)
  then show ?thesis using assms(3) f(1)
    by (cases r) (auto simp: same_request_def fetch_refused_def rejected_only_def at_most_rejected_def)
next
  case False
  then show ?thesis using fetch_bad_args [OF False, of env s] by auto
qed

theorem busy_fetch_refused_witness:
  "\<exists>r s'. vitajs_net_fetch js_prim demo_net_env [JString ''http://y/''] (demo_async [demo_fetch]) = Some (r, s') \<and>
     worker s' = worker (demo_async [demo_fetch])"
proof -
  have "rq_state (request (demo_async [demo_fetch])) \<noteq> NET_REQUEST_IDLE" using demo_fetch_exec by auto
  from busy_fetch_refused [OF demo_reads_bounded demo_async_reachable this, of "[JString ''http://y/'']"] show ?thesis by blast
qed

text \<open>
  C9.  Refinement: every step from a reachable state is a step of the machine that is idle,
  running for one promise or finished for it, hands out promises in order, refuses while it is
  busy, and settles a promise when it goes from finished to idle.
\<close>

theorem async_refines_machine:
  assumes "reads_bounded env" and "(async_step js env)\<^sup>*\<^sup>* async_start s" and "async_step js env s s'"
  shows "fetch_spec env (fetch_abs s) (fetch_abs s')"
proof -
  have "async_inv env s" by (rule async_reachable [OF assms(1,2)])
  with assms(1,3) show ?thesis by (auto elim!: async_stepE intro: async_exec_spec)
qed

theorem async_refines_machine_witness:
  "fetch_spec demo_net_env (fetch_abs async_start) (fetch_abs (demo_async [demo_fetch]))"
proof -
  obtain s where "async_exec js_prim demo_net_env demo_fetch async_start = Some (Inr (JRef 0), s)" "demo_async [demo_fetch] = s"
    using demo_fetch_exec by blast
  then have "async_step js_prim demo_net_env async_start (demo_async [demo_fetch])" by (auto intro: async_step.exec)
  from async_refines_machine [OF demo_reads_bounded rtranclp.rtrancl_refl this] show ?thesis .
qed

end
