(* ===== verification/Wav.thy ===== *)
theory Wav
  imports C_Float
begin

text \<open>
  WAV files of the audio module (the first part of src/src/modules/audio.c): reading of
  little-endian numbers, the RIFF chunk parser \<open>parse_wav\<close>, and \<open>load_clip\<close>, which
  resamples a file to 48 kHz stereo.

  A file is its bytes and a position; \<open>fread\<close> delivers what is left of it.  \<open>None\<close> as
  an outcome is undefined behaviour or a loop that never ends.
\<close>

subsection \<open>Files\<close>

record cfile =
  content :: "nat list"
  offset :: nat

definition fopen :: "nat list \<Rightarrow> cfile" where
  "fopen bytes = \<lparr>content = bytes, offset = 0\<rparr>"

definition fread :: "nat \<Rightarrow> cfile \<Rightarrow> nat list \<times> cfile" where
  "fread n f = (let got = segment (offset f) n (content f) in (got, f\<lparr>offset := offset f + length got\<rparr>))"

text \<open>\<open>fseek(f, off, SEEK_SET)\<close> with a signed 32-bit offset; it fails when that is negative.\<close>

definition fseek_set :: "int \<Rightarrow> cfile \<Rightarrow> cfile option" where
  "fseek_set off f = (if off < 0 then None else Some (f\<lparr>offset := nat off\<rparr>))"

definition u16 :: "cfile \<Rightarrow> nat \<times> cfile" where
  "u16 f = (case fread 2 f of (b, f) \<Rightarrow>
     (if length b \<noteq> 2 then 0 else b ! 0 OR push_bit 8 (b ! 1), f))"

definition u32 :: "cfile \<Rightarrow> nat \<times> cfile" where
  "u32 f = (case fread 4 f of (b, f) \<Rightarrow>
     (if length b \<noteq> 4 then 0
      else b ! 0 OR push_bit 8 (b ! 1) OR push_bit 16 (b ! 2) OR push_bit 24 (b ! 3), f))"

definition clamp16 :: "int \<Rightarrow> int" where
  "clamp16 v = (if v > 32767 then 32767 else if v < - 32768 then - 32768 else v)"

subsection \<open>The chunk parser\<close>

record wav_info =
  wi_format :: nat
  wi_channels :: nat
  wi_rate :: nat
  wi_bits :: nat
  wi_data_off :: nat
  wi_data_size :: nat

definition wav_zero :: wav_info where
  "wav_zero = \<lparr>wi_format = 0, wi_channels = 0, wi_rate = 0, wi_bits = 0, wi_data_off = 0, wi_data_size = 0\<rparr>"

definition MAX_WAV_BYTES :: nat where "MAX_WAV_BYTES = 64 * 1024 * 1024"

text \<open>The four bytes of a chunk identifier.\<close>

definition tag :: "string \<Rightarrow> nat list" where
  "tag s = map of_char s"

datatype wav_pass = WavBreak | WavReturn int | WavNext cfile wav_info bool bool

text \<open>
  The end of a pass: \<open>fseek(f, p + n + (n & 1), SEEK_SET)\<close>.  The sum of the \<open>long\<close> and
  the \<open>uint32_t\<close> is computed in 32 bits and read as a signed offset.
\<close>

definition wav_seek :: "nat \<Rightarrow> nat \<Rightarrow> cfile \<Rightarrow> wav_info \<Rightarrow> bool \<Rightarrow> bool \<Rightarrow> wav_pass" where
  "wav_seek p n f i fmt_found data_found =
     (case fseek_set (to_s32 (int p + int n + int (n mod 2))) f of
        None \<Rightarrow> WavReturn (- 1)
      | Some f \<Rightarrow> WavNext f i fmt_found data_found)"

definition wav_fmt :: "cfile \<Rightarrow> wav_info \<Rightarrow> wav_info" where
  "wav_fmt f i =
     (let (format, f) = u16 f; (channels, f) = u16 f; (rate, f) = u32 f; (_, f) = u32 f; (_, f) = u16 f;
          (bits, f) = u16 f
      in i\<lparr>wi_format := format, wi_channels := channels, wi_rate := rate, wi_bits := bits\<rparr>)"

definition wav_chunk :: "cfile \<Rightarrow> wav_info \<Rightarrow> bool \<Rightarrow> bool \<Rightarrow> wav_pass" where
  "wav_chunk f i fmt_found data_found =
     (let (id, f) = fread 4 f in
      if length id \<noteq> 4 then WavBreak
      else let (n, f) = u32 f; p = offset f in
      if id = tag ''fmt '' then
        (if n < 16 then WavReturn (- 1) else wav_seek p n f (wav_fmt f i) True data_found)
      else if id = tag ''data'' then wav_seek p n f (i\<lparr>wi_data_off := p, wi_data_size := n\<rparr>) fmt_found True
      else wav_seek p n f i fmt_found data_found)"

partial_function (option) wav_loop :: "cfile \<Rightarrow> wav_info \<Rightarrow> bool \<Rightarrow> bool \<Rightarrow> (int + (wav_info \<times> bool \<times> bool)) option" where
  "wav_loop f i fmt_found data_found =
     (if fmt_found \<and> data_found then Some (Inr (i, fmt_found, data_found))
      else case wav_chunk f i fmt_found data_found of
        WavBreak \<Rightarrow> Some (Inr (i, fmt_found, data_found))
      | WavReturn code \<Rightarrow> Some (Inl code)
      | WavNext f i fmt_found data_found \<Rightarrow> wav_loop f i fmt_found data_found)"

definition wav_check :: "wav_info \<Rightarrow> bool \<Rightarrow> bool \<Rightarrow> bool \<Rightarrow> int + wav_info" where
  "wav_check i fmt_found data_found enforce_max =
     (if \<not> fmt_found \<or> \<not> data_found \<or> wi_format i \<noteq> 1 \<or> wi_bits i \<noteq> 16 \<or>
         (wi_channels i \<noteq> 1 \<and> wi_channels i \<noteq> 2) \<or> wi_rate i = 0 \<or> wi_data_size i = 0 then Inl (- 2)
      else if enforce_max \<and> wi_data_size i > MAX_WAV_BYTES then Inl (- 3)
      else Inr i)"

text \<open>The result is the negative error code or the description of the samples.\<close>

definition parse_wav :: "cfile \<Rightarrow> bool \<Rightarrow> (int + wav_info) option" where
  "parse_wav f enforce_max =
     (let (id, f) = fread 4 f in
      if id \<noteq> tag ''RIFF'' then Some (Inl (- 1))
      else let (_, f) = u32 f; (id, f) = fread 4 f in
      if id \<noteq> tag ''WAVE'' then Some (Inl (- 1))
      else map_option (\<lambda>r. case r of Inl code \<Rightarrow> Inl code
                        | Inr (i, fmt_found, data_found) \<Rightarrow> wav_check i fmt_found data_found enforce_max)
             (wav_loop f wav_zero False False))"

subsection \<open>Loading a clip\<close>

definition OUT_RATE :: nat where "OUT_RATE = 48000"

text \<open>Little-endian 16-bit samples, as \<open>fread\<close> stores them in an \<open>int16_t\<close> array.\<close>

fun samples16 :: "nat list \<Rightarrow> int list" where
  "samples16 (a # b # bs) = to_s16 (int a + 256 * int b) # samples16 bs"
| "samples16 _ = []"

definition clip_output_frames :: "nat \<Rightarrow> nat \<Rightarrow> nat" where
  "clip_output_frames input_frames rate = ((input_frames * OUT_RATE + rate - 1) div rate) mod 2 ^ 32"

text \<open>Reading a cell of an array: \<open>None\<close> out of its bounds.\<close>

definition cell :: "'a list \<Rightarrow> nat \<Rightarrow> 'a option" where
  "cell xs k = (if k < length xs then Some (xs ! k) else None)"

text \<open>\<open>clamp16((int32_t)(l0 + (l1 - l0) * q))\<close>.\<close>

definition lerp16 :: "int \<Rightarrow> int \<Rightarrow> flt \<Rightarrow> int option" where
  "lerp16 l0 l1 q = map_option clamp16 (to_int32 (fadd f64 (of_c_int f64 l0) (fmul f64 (of_c_int f64 (l1 - l0)) q)))"

text \<open>The left and right sample of one source frame.\<close>

definition input_frame :: "int list \<Rightarrow> nat \<Rightarrow> nat \<Rightarrow> (int \<times> int) option" where
  "input_frame input channels k =
     (if channels = 1 then map_option (\<lambda>v. (v, v)) (cell input k)
      else case (cell input (k * 2), cell input (k * 2 + 1)) of (Some l, Some r) \<Rightarrow> Some (l, r) | _ \<Rightarrow> None)"

text \<open>One pass of the resampling loop.\<close>

definition clip_frame :: "int list \<Rightarrow> nat \<Rightarrow> nat \<Rightarrow> nat \<Rightarrow> nat \<Rightarrow> (int \<times> int) option" where
  "clip_frame input channels input_frames rate x =
     (let source_pos = fdiv f64 (fmul f64 (of_c_int f64 (int x)) (of_c_int f64 (int rate))) (of_c_int f64 (int OUT_RATE)) in
      case to_uint32 source_pos of
        None \<Rightarrow> None
      | Some a \<Rightarrow>
        let a = (if nat a \<ge> input_frames then input_frames - 1 else nat a);
            b = (if a + 1 < input_frames then a + 1 else a);
            q = fsub f64 source_pos (of_c_int f64 (int a)) in
        case (input_frame input channels a, input_frame input channels b) of
          (Some (l0, r0), Some (l1, r1)) \<Rightarrow>
            (case (lerp16 l0 l1 q, lerp16 r0 r1 q) of (Some l, Some r) \<Rightarrow> Some (l, r) | _ \<Rightarrow> None)
        | _ \<Rightarrow> None)"

text \<open>
  The whole loop, into a block of \<open>cells\<close> samples: its \<open>2 * output_frames\<close> writes go
  through the block in order, so they stay in it exactly when it has that many cells.
\<close>

definition resample :: "int list \<Rightarrow> nat \<Rightarrow> nat \<Rightarrow> nat \<Rightarrow> nat \<Rightarrow> nat \<Rightarrow> (int \<times> int) list option" where
  "resample input channels input_frames rate output_frames cells =
     (if cells < 2 * output_frames then None
      else those (map (clip_frame input channels input_frames rate) [0..<output_frames]))"

text \<open>What \<open>load_clip\<close> acquires and releases, in order.\<close>

datatype clip_event = FileOpened | FileClosed | InputAllocated | InputFreed | OutputAllocated

text \<open>
  \<open>fs\<close> is what \<open>fopen\<close> finds under a path and \<open>alloc\<close> whether \<open>malloc\<close>
  succeeds for a number of bytes.  The samples are the pairs of the interleaved output.
\<close>

definition load_clip ::
  "(string \<Rightarrow> nat list option) \<Rightarrow> (nat \<Rightarrow> bool) \<Rightarrow> string \<Rightarrow> ((int + (int \<times> int) list) \<times> clip_event list) option" where
  "load_clip fs alloc path =
     (case fs path of
        None \<Rightarrow> Some (Inl (- 10), [])
      | Some bytes \<Rightarrow>
        (case parse_wav (fopen bytes) True of
           None \<Rightarrow> None
         | Some (Inl code) \<Rightarrow> Some (Inl code, [FileOpened, FileClosed])
         | Some (Inr i) \<Rightarrow>
           let input_frames = wi_data_size i div (wi_channels i * 2) in
           (case (if input_frames = 0 then None else fseek_set (int (wi_data_off i)) (fopen bytes)) of
              None \<Rightarrow> Some (Inl (- 11), [FileOpened, FileClosed])
            | Some f \<Rightarrow>
              let input_samples = size_t (input_frames * wi_channels i) in
              if \<not> alloc (size_t (input_samples * 2)) then Some (Inl (- 12), [FileOpened, FileClosed])
              else let input = samples16 (fst (fread (input_samples * 2) f)) in
              if length input \<noteq> input_samples
              then Some (Inl (- 13), [FileOpened, InputAllocated, InputFreed, FileClosed])
              else let output_frames = clip_output_frames input_frames (wi_rate i); bytes_out = size_t (output_frames * 2 * 2) in
              if \<not> alloc bytes_out then Some (Inl (- 14), [FileOpened, InputAllocated, FileClosed, InputFreed])
              else map_option (\<lambda>output. (Inr output,
                     [FileOpened, InputAllocated, FileClosed, OutputAllocated, InputFreed]))
                (resample input (wi_channels i) input_frames (wi_rate i) output_frames (bytes_out div 2)))))"

subsection \<open>Little-endian numbers\<close>

definition le16 :: "nat \<Rightarrow> nat list" where
  "le16 n = [n mod 256, n div 256 mod 256]"

definition le32 :: "nat \<Rightarrow> nat list" where
  "le32 n = [n mod 256, n div 256 mod 256, n div 65536 mod 256, n div 16777216 mod 256]"

lemma length_le [simp]: "length (le16 n) = 2" "length (le32 n) = 4"
  by (simp_all add: le16_def le32_def)

lemma length_tag [simp]:
  "length (tag ''RIFF'') = 4" "length (tag ''WAVE'') = 4" "length (tag ''fmt '') = 4" "length (tag ''data'') = 4"
  by (simp_all add: tag_def)

lemma or_byte: "a < 256 \<Longrightarrow> a OR push_bit 8 y = a + 256 * y" for a y :: nat
  using or_push_bit_low [of a 8 y] by (simp add: or.commute)

lemma or_bytes4:
  fixes a b c d :: nat
  assumes "a < 256" "b < 256" "c < 256"
  shows "a OR push_bit 8 b OR push_bit 16 c OR push_bit 24 d = a + 256 * b + 65536 * c + 16777216 * d"
proof -
  have "push_bit 8 b OR push_bit 16 c OR push_bit 24 d = push_bit 8 (b OR push_bit 8 (c OR push_bit 8 d))"
    by (simp add: push_bit_or)
  then show ?thesis using assms by (simp add: or_byte)
qed

lemma digits4: "n < 2 ^ 32 \<Longrightarrow>
  n mod 256 + 256 * (n div 256 mod 256) + 65536 * (n div 65536 mod 256) + 16777216 * (n div 16777216 mod 256) = n"
  for n :: nat
proof -
  assume "n < 2 ^ 32"
  then have "n div 16777216 < 256" by (simp add: div_less_iff_less_mult)
  then have "n div 16777216 mod 256 = n div 16777216" by simp
  moreover have "n div 65536 = n div 16777216 * 256 + n div 65536 mod 256"
    using div_mult_mod_eq [of "n div 65536" 256] by (simp add: div_mult2_eq [symmetric])
  moreover have "n div 256 = n div 65536 * 256 + n div 256 mod 256"
    using div_mult_mod_eq [of "n div 256" 256] by (simp add: div_mult2_eq [symmetric])
  moreover have "n = n div 256 * 256 + n mod 256" by simp
  ultimately show ?thesis by linarith
qed

subsection \<open>Reading in order\<close>

text \<open>What is left of a file.\<close>

definition rest :: "cfile \<Rightarrow> nat list" where
  "rest f = drop (offset f) (content f)"

definition skip :: "nat \<Rightarrow> cfile \<Rightarrow> cfile" where
  "skip n f = f\<lparr>offset := offset f + n\<rparr>"

lemma skip_simps [simp]: "offset (skip n f) = offset f + n" "content (skip n f) = content f" "skip m (skip n f) = skip (n + m) f"
  by (simp_all add: skip_def add.assoc)

lemma rest_skip: "rest f = xs @ ys \<Longrightarrow> rest (skip (length xs) f) = ys"
  by (simp add: rest_def drop_drop [symmetric] add.commute)

lemma fread_prefix: "rest f = xs @ ys \<Longrightarrow> fread (length xs) f = (xs, skip (length xs) f)"
  by (simp add: fread_def segment_def rest_def skip_def Let_def)

lemma fread_short: "length (fst (fread n f)) = min n (length (content f) - offset f)"
  by (simp add: fread_def segment_def Let_def)

lemma u16_le16: "rest f = le16 n @ ys \<Longrightarrow> n < 2 ^ 16 \<Longrightarrow> u16 f = (n, skip 2 f)"
proof -
  assume r: "rest f = le16 n @ ys" and n: "n < 2 ^ 16"
  have "fread 2 f = (le16 n, skip 2 f)" using fread_prefix [OF r] by simp
  moreover have "n div 256 < 256" using n by (simp add: div_less_iff_less_mult)
  ultimately show ?thesis by (simp add: u16_def le16_def or_byte)
qed

lemma u32_bytes:
  assumes "rest f = a # b # c # d # ys" and "a < 256" "b < 256" "c < 256"
  shows "u32 f = (a + 256 * b + 65536 * c + 16777216 * d, skip 4 f)"
proof -
  have len: "length [a, b, c, d] = 4" by simp
  have "fread 4 f = ([a, b, c, d], skip 4 f)"
    using fread_prefix [of f "[a, b, c, d]" ys, unfolded len] assms(1) by simp
  then show ?thesis using assms by (simp add: u32_def or_bytes4)
qed

lemma u32_le32: "rest f = le32 n @ ys \<Longrightarrow> n < 2 ^ 32 \<Longrightarrow> u32 f = (n, skip 4 f)"
  using u32_bytes [of f "n mod 256" "n div 256 mod 256" "n div 65536 mod 256" "n div 16777216 mod 256" ys] digits4
  by (simp add: le32_def)

text \<open>The position after a number is read, whatever its value.\<close>

lemma u32_skip: "rest f = xs @ ys \<Longrightarrow> length xs = 4 \<Longrightarrow> snd (u32 f) = skip 4 f"
  using fread_prefix [of f xs ys] by (simp add: u32_def)

lemma u16_skip: "rest f = xs @ ys \<Longrightarrow> length xs = 2 \<Longrightarrow> snd (u16 f) = skip 2 f"
  using fread_prefix [of f xs ys] by (simp add: u16_def)

subsection \<open>The reference encoder\<close>

text \<open>A chunk: identifier, size, payload, and a padding byte after an odd payload.\<close>

definition riff_chunk :: "nat list \<times> nat list \<Rightarrow> nat list" where
  "riff_chunk c = fst c @ le32 (length (snd c)) @ snd c @ replicate (length (snd c) mod 2) 0"

definition fmt_payload :: "nat \<Rightarrow> nat \<Rightarrow> nat list \<Rightarrow> nat list" where
  "fmt_payload channels rate extra =
     le16 1 @ le16 channels @ le32 rate @ le32 (rate * channels * 2) @ le16 (channels * 2) @ le16 16 @ extra"

definition wav_file :: "nat list \<Rightarrow> (nat list \<times> nat list) list \<Rightarrow> nat \<Rightarrow> nat \<Rightarrow> nat list \<Rightarrow> (nat list \<times> nat list) list \<Rightarrow> nat list \<Rightarrow> nat list \<Rightarrow> nat list" where
  "wav_file riff_size pre channels rate extra mid data trailer =
     tag ''RIFF'' @ riff_size @ tag ''WAVE'' @ concat (map riff_chunk pre) @
     riff_chunk (tag ''fmt '', fmt_payload channels rate extra) @ concat (map riff_chunk mid) @
     riff_chunk (tag ''data'', data) @ trailer"

definition other_chunk :: "nat list \<times> nat list \<Rightarrow> bool" where
  "other_chunk c \<longleftrightarrow> length (fst c) = 4 \<and> fst c \<noteq> tag ''fmt '' \<and> fst c \<noteq> tag ''data''"

lemma length_riff_chunk: "length (fst c) = 4 \<Longrightarrow> length (riff_chunk c) = 8 + length (snd c) + length (snd c) mod 2"
  by (simp add: riff_chunk_def)

text \<open>A pass over one chunk that is all there.\<close>

lemma wav_seek_in_range:
  assumes "int p + int n + int (n mod 2) < 2 ^ 31"
  shows "wav_seek p n f i a b = WavNext (f\<lparr>offset := p + n + n mod 2\<rparr>) i a b"
proof -
  have "to_s32 (int p + int n + int (n mod 2)) = int (p + n + n mod 2)"
    using assms to_s32_id [of "int (p + n + n mod 2)"] by simp
  then show ?thesis by (simp add: wav_seek_def fseek_set_def)
qed

lemma wav_chunk_next:
  assumes "rest f = riff_chunk c @ ys" and "length (fst c) = 4" and "offset f + length (riff_chunk c) < 2 ^ 31"
    and "fst c = tag ''fmt '' \<Longrightarrow> 16 \<le> length (snd c)"
  shows "wav_chunk f i a b = WavNext (skip (length (riff_chunk c)) f)
    (if fst c = tag ''fmt '' then wav_fmt (skip 8 f) i
     else if fst c = tag ''data'' then i\<lparr>wi_data_off := offset f + 8, wi_data_size := length (snd c)\<rparr> else i)
    (a \<or> fst c = tag ''fmt '') (b \<or> fst c = tag ''data'')"
proof -
  let ?n = "length (snd c)"
  have len: "length (riff_chunk c) = 8 + ?n + ?n mod 2" using length_riff_chunk [OF assms(2)] .
  have r1: "rest f = fst c @ le32 ?n @ snd c @ replicate (?n mod 2) 0 @ ys" using assms(1) by (simp add: riff_chunk_def)
  have f1: "fread 4 f = (fst c, skip 4 f)" using fread_prefix [OF r1] assms(2) by simp
  have r2: "rest (skip 4 f) = le32 ?n @ snd c @ replicate (?n mod 2) 0 @ ys" using rest_skip [OF r1] assms(2) by simp
  have f2: "u32 (skip 4 f) = (?n, skip 8 f)" using u32_le32 [OF r2] assms(3) len by simp
  have seek: "wav_seek (offset f + 8) ?n (skip 8 f) j x y = WavNext (skip (length (riff_chunk c)) f) j x y" for j x y
    using wav_seek_in_range [of "offset f + 8" ?n "skip 8 f" j x y] assms(3) len by (simp add: skip_def algebra_simps)
  have ne: "tag ''data'' \<noteq> tag ''fmt ''" by (simp add: tag_def)
  show ?thesis using f1 f2 assms(2,4) seek ne by (auto simp: wav_chunk_def Let_def)
qed

lemma wav_loop_others:
  assumes "rest f = concat (map riff_chunk cs) @ ys" and "\<forall>c\<in>set cs. other_chunk c"
    and "offset f + length (concat (map riff_chunk cs)) < 2 ^ 31" and "\<not> (a \<and> b)"
  shows "wav_loop f i a b = wav_loop (skip (length (concat (map riff_chunk cs))) f) i a b"
  using assms
proof (induction cs arbitrary: f)
  case Nil
  then show ?case by (simp add: skip_def)
next
  case (Cons c cs)
  have c: "length (fst c) = 4" "fst c \<noteq> tag ''fmt ''" "fst c \<noteq> tag ''data''"
    using Cons.prems(2) by (simp_all add: other_chunk_def)
  have r: "rest f = riff_chunk c @ concat (map riff_chunk cs) @ ys" using Cons.prems(1) by simp
  have "wav_chunk f i a b = WavNext (skip (length (riff_chunk c)) f) i a b"
    using wav_chunk_next [OF r c(1)] Cons.prems(3) c by simp
  then have "wav_loop f i a b = wav_loop (skip (length (riff_chunk c)) f) i a b"
    using Cons.prems(4) by (subst wav_loop.simps) auto
  also have "\<dots> = wav_loop (skip (length (concat (map riff_chunk cs))) (skip (length (riff_chunk c)) f)) i a b"
    by (rule Cons.IH) (use Cons.prems rest_skip [OF r] in auto)
  finally show ?case by simp
qed

lemma wav_fmt_payload:
  assumes "rest f = fmt_payload channels rate extra @ ys" and "channels < 2 ^ 16" and "rate < 2 ^ 32"
  shows "wav_fmt f i = i\<lparr>wi_format := 1, wi_channels := channels, wi_rate := rate, wi_bits := 16\<rparr>"
proof -
  let ?t5 = "le16 16 @ extra @ ys"
  let ?t4 = "le16 (channels * 2) @ ?t5" and ?t3 = "le32 (rate * channels * 2) @ le16 (channels * 2) @ ?t5"
  let ?t2 = "le32 rate @ ?t3" and ?t1 = "le16 channels @ le32 rate @ ?t3"
  have r0: "rest f = le16 1 @ ?t1" using assms(1) by (simp add: fmt_payload_def)
  have r1: "rest (skip 2 f) = ?t1" using rest_skip [OF r0] by simp
  have r2: "rest (skip 4 f) = ?t2" using rest_skip [OF r1] by simp
  have r3: "rest (skip 8 f) = ?t3" using rest_skip [OF r2] by simp
  have r4: "rest (skip 12 f) = ?t4" using rest_skip [OF r3] by simp
  have r5: "rest (skip 14 f) = ?t5" using rest_skip [OF r4] by simp
  have 1: "u16 f = (1, skip 2 f)" using u16_le16 [OF r0] by simp
  have 2: "u16 (skip 2 f) = (channels, skip 4 f)" using u16_le16 [OF r1 assms(2)] by simp
  have 3: "u32 (skip 4 f) = (rate, skip 8 f)" using u32_le32 [OF r2 assms(3)] by simp
  have 4: "snd (u32 (skip 8 f)) = skip 12 f" using u32_skip [OF r3] by simp
  have 5: "snd (u16 (skip 12 f)) = skip 14 f" using u16_skip [OF r4] by simp
  have 6: "u16 (skip 14 f) = (16, skip 16 f)" using u16_le16 [OF r5] by simp
  show ?thesis by (simp add: wav_fmt_def Let_def case_prod_beta 1 2 3 4 5 6)
qed

definition wav_data_off :: "(nat list \<times> nat list) list \<Rightarrow> nat list \<Rightarrow> (nat list \<times> nat list) list \<Rightarrow> nat" where
  "wav_data_off pre extra mid =
     12 + length (concat (map riff_chunk pre)) + (24 + length extra + length extra mod 2) +
     length (concat (map riff_chunk mid)) + 8"

lemma length_fmt_payload [simp]: "length (fmt_payload channels rate extra) = 16 + length extra"
  by (simp add: fmt_payload_def)

lemma wav_loop_file:
  assumes "rest f = concat (map riff_chunk pre) @ riff_chunk (tag ''fmt '', fmt_payload channels rate extra) @
      concat (map riff_chunk mid) @ riff_chunk (tag ''data'', data) @ trailer"
    and "\<forall>c\<in>set (pre @ mid). other_chunk c" and "channels < 2 ^ 16" and "rate < 2 ^ 32"
    and "offset f = 12" and "wav_data_off pre extra mid + length data + 1 < 2 ^ 31"
  shows "wav_loop f wav_zero False False = Some (Inr
    (\<lparr>wi_format = 1, wi_channels = channels, wi_rate = rate, wi_bits = 16,
      wi_data_off = wav_data_off pre extra mid, wi_data_size = length data\<rparr>, True, True))"
proof -
  let ?fmt = "(tag ''fmt '', fmt_payload channels rate extra)" and ?data = "(tag ''data'', data)"
  let ?pre = "concat (map riff_chunk pre)" and ?mid = "concat (map riff_chunk mid)"
  have m: "(16 + length extra) mod 2 = length extra mod 2" by presburger
  have lf: "length (riff_chunk ?fmt) = 24 + length extra + length extra mod 2" by (simp add: length_riff_chunk m)
  have ld: "length (riff_chunk ?data) = 8 + length data + length data mod 2" by (simp add: length_riff_chunk)
  have ne: "tag ''data'' \<noteq> tag ''fmt ''" by (simp add: tag_def)
  have small: "wav_data_off pre extra mid + length data + length data mod 2 < 2 ^ 31" using assms(6) by linarith
  note off = small wav_data_off_def lf ld assms(5)
  let ?f1 = "skip (length ?pre) f"
  have r1: "rest ?f1 = riff_chunk ?fmt @ ?mid @ riff_chunk ?data @ trailer" using rest_skip [OF assms(1)] .
  have s1: "wav_loop f wav_zero False False = wav_loop ?f1 wav_zero False False"
    by (rule wav_loop_others [OF assms(1)]) (use assms(2) off in auto)
  let ?i = "wav_zero\<lparr>wi_format := 1, wi_channels := channels, wi_rate := rate, wi_bits := 16\<rparr>"
  let ?f2 = "skip (length (riff_chunk ?fmt)) ?f1"
  have "rest ?f1 = (tag ''fmt '' @ le32 (16 + length extra)) @ fmt_payload channels rate extra @
      replicate (length extra mod 2) 0 @ ?mid @ riff_chunk ?data @ trailer"
    using r1 by (simp add: riff_chunk_def m)
  from rest_skip [OF this] have r8: "rest (skip 8 ?f1) = fmt_payload channels rate extra @
      replicate (length extra mod 2) 0 @ ?mid @ riff_chunk ?data @ trailer" by simp
  have "wav_fmt (skip 8 ?f1) wav_zero = ?i" using wav_fmt_payload [OF r8 assms(3,4)] by simp
  then have "wav_chunk ?f1 wav_zero False False = WavNext ?f2 ?i True False"
    using wav_chunk_next [OF r1, of wav_zero False False] off ne by simp
  then have s2: "wav_loop ?f1 wav_zero False False = wav_loop ?f2 ?i True False" by (subst wav_loop.simps) simp
  have r2: "rest ?f2 = ?mid @ riff_chunk ?data @ trailer" using rest_skip [OF r1] .
  let ?f3 = "skip (length ?mid) ?f2"
  have s3: "wav_loop ?f2 ?i True False = wav_loop ?f3 ?i True False"
    by (rule wav_loop_others [OF r2]) (use assms(2) off in auto)
  have r3: "rest ?f3 = riff_chunk ?data @ trailer" using rest_skip [OF r2] .
  have "offset ?f3 + 8 = wav_data_off pre extra mid" using off by simp
  then have "wav_chunk ?f3 ?i True False = WavNext (skip (length (riff_chunk ?data)) ?f3)
      (?i\<lparr>wi_data_off := wav_data_off pre extra mid, wi_data_size := length data\<rparr>) True True"
    using wav_chunk_next [OF r3, of ?i True False] small ld ne by simp
  then have "wav_loop ?f3 ?i True False = Some (Inr
      (?i\<lparr>wi_data_off := wav_data_off pre extra mid, wi_data_size := length data\<rparr>, True, True))"
    by (subst wav_loop.simps) (simp add: wav_loop.simps)
  then show ?thesis unfolding s1 s2 s3 by (simp add: wav_zero_def)
qed

lemma fread_riff:
  assumes "length riff_size = 4"
  shows "fread 4 (fopen (tag ''RIFF'' @ riff_size @ tag ''WAVE'' @ ys)) = (tag ''RIFF'', skip 4 (fopen (tag ''RIFF'' @ riff_size @ tag ''WAVE'' @ ys)))"
    and "snd (u32 (skip 4 (fopen (tag ''RIFF'' @ riff_size @ tag ''WAVE'' @ ys)))) = skip 8 (fopen (tag ''RIFF'' @ riff_size @ tag ''WAVE'' @ ys))"
    and "fread 4 (skip 8 (fopen (tag ''RIFF'' @ riff_size @ tag ''WAVE'' @ ys))) = (tag ''WAVE'', skip 12 (fopen (tag ''RIFF'' @ riff_size @ tag ''WAVE'' @ ys)))"
    and "rest (skip 12 (fopen (tag ''RIFF'' @ riff_size @ tag ''WAVE'' @ ys))) = ys"
proof -
  let ?f = "fopen (tag ''RIFF'' @ riff_size @ tag ''WAVE'' @ ys)"
  have r0: "rest ?f = tag ''RIFF'' @ riff_size @ tag ''WAVE'' @ ys" by (simp add: rest_def fopen_def)
  have r4: "rest (skip 4 ?f) = riff_size @ tag ''WAVE'' @ ys" using rest_skip [OF r0] by simp
  have r8: "rest (skip 8 ?f) = tag ''WAVE'' @ ys" using rest_skip [OF r4] assms by simp
  show "fread 4 ?f = (tag ''RIFF'', skip 4 ?f)" using fread_prefix [OF r0] by simp
  show "snd (u32 (skip 4 ?f)) = skip 8 ?f" using u32_skip [OF r4 assms] by simp
  show "fread 4 (skip 8 ?f) = (tag ''WAVE'', skip 12 ?f)" using fread_prefix [OF r8] by simp
  show "rest (skip 12 ?f) = ys" using rest_skip [OF r8] by simp
qed

lemma parse_wav_header:
  assumes "length riff_size = 4"
  shows "parse_wav (fopen (tag ''RIFF'' @ riff_size @ tag ''WAVE'' @ ys)) enforce_max =
    map_option (\<lambda>r. case r of Inl code \<Rightarrow> Inl code
       | Inr (i, fmt_found, data_found) \<Rightarrow> wav_check i fmt_found data_found enforce_max)
      (wav_loop (skip 12 (fopen (tag ''RIFF'' @ riff_size @ tag ''WAVE'' @ ys))) wav_zero False False)"
  unfolding parse_wav_def Let_def case_prod_beta using fread_riff [OF assms, of ys] by simp

subsection \<open>Termination of the parser\<close>

text \<open>
  The chain of chunks: the first begins after the \<open>WAVE\<close> tag, the next after the end of the
  one before.  \<open>small_sizes\<close>: no chunk of the chain claims a size of \<open>2^31\<close> or more.
\<close>

definition chunk_size :: "nat list \<Rightarrow> nat \<Rightarrow> nat" where
  "chunk_size bytes k = fst (u32 (snd (fread 4 \<lparr>content = bytes, offset = k\<rparr>)))"

definition chunk_end :: "nat list \<Rightarrow> nat \<Rightarrow> nat" where
  "chunk_end bytes k =
     (let (n, f) = u32 (snd (fread 4 \<lparr>content = bytes, offset = k\<rparr>)) in offset f + n + n mod 2)"

definition first_chunk :: "nat list \<Rightarrow> cfile" where
  "first_chunk bytes = snd (fread 4 (snd (u32 (snd (fread 4 (fopen bytes))))))"

inductive chunk_at :: "nat list \<Rightarrow> nat \<Rightarrow> bool" for bytes where
  first: "chunk_at bytes (offset (first_chunk bytes))"
| follow: "chunk_at bytes k \<Longrightarrow> chunk_at bytes (chunk_end bytes k)"

definition small_sizes :: "nat list \<Rightarrow> bool" where
  "small_sizes bytes \<longleftrightarrow> (\<forall>k. chunk_at bytes k \<longrightarrow> chunk_size bytes k < 2 ^ 31)"

lemma fread_offset: "offset (snd (fread n f)) = offset f + length (fst (fread n f)) \<and> content (snd (fread n f)) = content f"
  by (simp add: fread_def Let_def)

lemma u32_content: "content (snd (u32 f)) = content f \<and> offset f \<le> offset (snd (u32 f)) \<and>
  offset (snd (u32 f)) \<le> max (offset f) (length (content f))"
  using fread_offset [of 4 f] fread_short [of 4 f] by (auto simp: u32_def split: prod.splits)

lemma wav_seek_progress:
  assumes "wav_seek p n f i a b = WavNext f' i' a' b'" and "p < 2 ^ 31" and "n < 2 ^ 31"
  shows "offset f' = p + n + n mod 2 \<and> offset f' < 2 ^ 31 \<and> content f' = content f"
proof -
  let ?t = "int p + int n + int (n mod 2)"
  have nn: "0 \<le> to_s32 ?t" and f': "f' = f\<lparr>offset := nat (to_s32 ?t)\<rparr>"
    using assms(1) by (auto simp: wav_seek_def fseek_set_def split: if_splits option.splits)
  have "n + n mod 2 \<le> 2 ^ 31"
  proof -
    have "n mod 2 \<le> 1" by simp
    with assms(3) show ?thesis by linarith
  qed
  then have "p + n + n mod 2 < 2 ^ 32" using assms(2) by simp
  moreover have "?t = int (p + n + n mod 2)" by simp
  ultimately have t: "0 \<le> ?t" "?t < 2 ^ 32" by (simp_all del: of_nat_add)
  have "?t < 2 ^ 31"
  proof (rule ccontr)
    assume "\<not> ?t < 2 ^ 31"
    then have "(?t + 2 ^ 31) mod 2 ^ 32 = ?t + 2 ^ 31 - 2 ^ 32" using t
      by (intro int_mod_pos_eq [of _ _ 1]) auto
    with nn t show False by (simp add: to_s32_def)
  qed
  then have "to_s32 ?t = ?t" "nat ?t < 2 ^ 31" using t by (auto simp: to_s32_id nat_less_iff)
  moreover have "nat ?t = p + n + n mod 2" by simp
  ultimately show ?thesis using f' by simp
qed

text \<open>One pass of the loop moves on to the next chunk of the chain.\<close>

lemma wav_chunk_progress:
  assumes "wav_chunk f i a b = WavNext f' i' a' b'" and "chunk_at (content f) (offset f)" and "small_sizes (content f)"
    and "length (content f) < 2 ^ 31"
  shows "offset f < offset f' \<and> content f' = content f \<and> offset f < length (content f) \<and> chunk_at (content f) (offset f')"
proof -
  obtain id f1 where r: "fread 4 f = (id, f1)" by fastforce
  obtain n f2 where u: "u32 f1 = (n, f2)" by fastforce
  have id: "length id = 4" using assms(1) r by (auto simp: wav_chunk_def Let_def split: if_splits)
  have f1: "offset f1 = offset f + 4" "content f1 = content f" using fread_offset [of 4 f] r id by auto
  have in_file: "offset f + 4 \<le> length (content f)" using fread_short [of 4 f] r id by simp
  have f2: "content f2 = content f" "offset f1 \<le> offset f2" "offset f2 < 2 ^ 31"
    using u32_content [of f1] u f1 in_file assms(4) by auto
  have f: "\<lparr>content = content f, offset = offset f\<rparr> = f" by simp
  have size: "chunk_size (content f) (offset f) = n" "chunk_end (content f) (offset f) = offset f2 + n + n mod 2"
    using r u by (simp_all add: chunk_size_def chunk_end_def f)
  then have n: "n < 2 ^ 31" using assms(2,3) by (auto simp: small_sizes_def)
  have "\<exists>j x y. wav_seek (offset f2) n f2 j x y = WavNext f' i' a' b'"
    using assms(1) r u id by (auto simp: wav_chunk_def Let_def split: if_splits)
  then have "offset f' = offset f2 + n + n mod 2 \<and> content f' = content f2" using wav_seek_progress f2(3) n by blast
  with f1 f2 in_file size chunk_at.follow [OF assms(2)] show ?thesis by auto
qed

lemma wav_loop_total:
  assumes "chunk_at (content f) (offset f)" and "small_sizes (content f)" and "length (content f) < 2 ^ 31"
  shows "\<exists>r. wav_loop f i a b = Some r"
  using assms
proof (induction "length (content f) - offset f" arbitrary: f i a b rule: less_induct)
  case less
  show ?case
  proof (cases "wav_chunk f i a b")
    case (WavNext f' i' a' b')
    note c = wav_chunk_progress [OF this less.prems]
    then have "length (content f') - offset f' < length (content f) - offset f" "content f' = content f" by auto
    with less.hyps [of f'] less.prems WavNext c show ?thesis by (subst wav_loop.simps) auto
  qed (subst wav_loop.simps; simp)+
qed

subsection \<open>Properties of the parser\<close>

definition demo_wav :: "nat list" where
  "demo_wav = wav_file [0, 0, 0, 0] [(tag ''LIST'', [1])] 2 48000 [] [] [1, 0, 255, 255, 0, 128, 255, 127] [7]"

lemma parse_wav_encoded:
  assumes "length riff_size = 4" and "\<forall>c\<in>set (pre @ mid). other_chunk c" and "channels = 1 \<or> channels = 2"
    and "0 < rate" and "rate < 2 ^ 32" and "data \<noteq> []" and "wav_data_off pre extra mid + length data + 1 < 2 ^ 31"
  shows "\<exists>i. parse_wav (fopen (wav_file riff_size pre channels rate extra mid data trailer)) False = Some (Inr i) \<and>
    wi_channels i = channels \<and> wi_rate i = rate \<and> wi_data_size i = length data \<and>
    segment (wi_data_off i) (wi_data_size i) (wav_file riff_size pre channels rate extra mid data trailer) = data"
proof -
  let ?mid = "concat (map riff_chunk mid)" and ?pre = "concat (map riff_chunk pre)"
  let ?body = "?pre @ riff_chunk (tag ''fmt '', fmt_payload channels rate extra) @ ?mid @
    riff_chunk (tag ''data'', data) @ trailer"
  let ?file = "tag ''RIFF'' @ riff_size @ tag ''WAVE'' @ ?body"
  let ?head = "tag ''RIFF'' @ riff_size @ tag ''WAVE'' @ ?pre @ riff_chunk (tag ''fmt '', fmt_payload channels rate extra) @
    ?mid @ tag ''data'' @ le32 (length data)"
  have m: "(16 + length extra) mod 2 = length extra mod 2" by presburger
  have "length ?head = wav_data_off pre extra mid"
    using assms(1) by (simp add: wav_data_off_def length_riff_chunk m)
  moreover have "?file = ?head @ data @ replicate (length data mod 2) 0 @ trailer" by (simp add: riff_chunk_def)
  ultimately have seg: "segment (wav_data_off pre extra mid) (length data) ?file = data" by (simp add: segment_def)
  have "wav_loop (skip 12 (fopen ?file)) wav_zero False False = Some (Inr
    (\<lparr>wi_format = 1, wi_channels = channels, wi_rate = rate, wi_bits = 16,
      wi_data_off = wav_data_off pre extra mid, wi_data_size = length data\<rparr>, True, True))"
    by (rule wav_loop_file [OF fread_riff(4) [OF assms(1)]]) (use assms in \<open>auto simp: fopen_def\<close>)
  with parse_wav_header [OF assms(1), of ?body False] assms(3-6) seg show ?thesis
    by (auto simp: wav_file_def wav_check_def)
qed

text \<open>
  C12.  Round trip with a reference encoder: a PCM file with any further chunks before, between
  and after its \<open>fmt\<close> and \<open>data\<close> chunks (odd sizes padded) is accepted, and the parser
  reports exactly its channels and rate and where its samples lie, as long as it is smaller
  than 2 GB.
\<close>

theorem parse_wav_roundtrip:
  assumes "length riff_size = 4" and "\<forall>c\<in>set (pre @ mid). other_chunk c" and "channels = 1 \<or> channels = 2"
    and "0 < rate" and "rate < 2 ^ 32" and "data \<noteq> []" and "wav_data_off pre extra mid + length data + 1 < 2 ^ 31"
  shows "\<exists>i. parse_wav (fopen (wav_file riff_size pre channels rate extra mid data trailer)) False = Some (Inr i) \<and>
    wi_channels i = channels \<and> wi_rate i = rate \<and> wi_data_size i = length data \<and>
    segment (wi_data_off i) (wi_data_size i) (wav_file riff_size pre channels rate extra mid data trailer) = data"
  by (rule parse_wav_encoded [OF assms])

theorem parse_wav_roundtrip_witness:
  "\<exists>i. parse_wav (fopen demo_wav) False = Some (Inr i) \<and> wi_channels i = 2 \<and> wi_rate i = 48000 \<and> wi_data_size i = 8"
  using parse_wav_roundtrip [of "[0, 0, 0, 0]" "[(tag ''LIST'', [1])]" "[]" 2 48000 "[1, 0, 255, 255, 0, 128, 255, 127]" "[]" "[7]"]
  by (auto simp: demo_wav_def other_chunk_def wav_data_off_def riff_chunk_def tag_def)

text \<open>
  C25.  Termination: on any file below 2 GB in which no chunk of the chain claims a size of
  \<open>2^31\<close> or more, the parser returns, with an error code or with a description that
  satisfies everything the callers rely on.
\<close>

theorem parse_wav_terminates:
  assumes "small_sizes bytes" and "length bytes < 2 ^ 31"
  shows "(\<exists>code. parse_wav (fopen bytes) enforce = Some (Inl code)) \<or>
    (\<exists>i. parse_wav (fopen bytes) enforce = Some (Inr i) \<and> wi_format i = 1 \<and> wi_bits i = 16 \<and>
       wi_channels i \<in> {1, 2} \<and> 0 < wi_rate i \<and> 0 < wi_data_size i \<and> (enforce \<longrightarrow> wi_data_size i \<le> MAX_WAV_BYTES))"
proof -
  let ?f = "snd (fread 4 (snd (u32 (snd (fread 4 (fopen bytes))))))"
  have c: "content ?f = bytes" by (simp add: fread_offset u32_content fopen_def)
  have "chunk_at bytes (offset ?f)" using chunk_at.first [of bytes] by (simp add: first_chunk_def)
  then obtain r where r: "wav_loop ?f wav_zero False False = Some r" using wav_loop_total [of ?f] assms c by metis
  have check: "(\<exists>code. wav_check i x y e = Inl code) \<or> wav_check i x y e = Inr i \<and> wi_format i = 1 \<and> wi_bits i = 16 \<and>
      wi_channels i \<in> {1, 2} \<and> 0 < wi_rate i \<and> 0 < wi_data_size i \<and> (e \<longrightarrow> wi_data_size i \<le> MAX_WAV_BYTES)" for i x y e
    by (auto simp: wav_check_def)
  let ?ok = "\<lambda>out. (\<exists>code. out = Some (Inl code)) \<or> (\<exists>i. out = Some (Inr i) \<and> wi_format i = 1 \<and> wi_bits i = 16 \<and>
       wi_channels i \<in> {1, 2} \<and> 0 < wi_rate i \<and> 0 < wi_data_size i \<and> (enforce \<longrightarrow> wi_data_size i \<le> MAX_WAV_BYTES))"
  have "?ok (Some (case r of Inl code \<Rightarrow> Inl code | Inr (i, x, y) \<Rightarrow> wav_check i x y enforce))"
    using check by (cases r) (simp, metis (no_types, lifting) case_prod_beta old.sum.simps(6))
  then show ?thesis using r by (simp add: parse_wav_def Let_def case_prod_beta)
qed

lemma small_sizes_closed:
  assumes "offset (first_chunk bytes) \<in> S" and "\<And>k. k \<in> S \<Longrightarrow> chunk_end bytes k \<in> S \<and> chunk_size bytes k < 2 ^ 31"
  shows "small_sizes bytes"
proof -
  have "k \<in> S" if "chunk_at bytes k" for k
    using that by induction (use assms in auto)
  with assms(2) show ?thesis by (auto simp: small_sizes_def)
qed

lemmas chunk_walk = chunk_end_def chunk_size_def first_chunk_def fopen_def fread_def segment_def u32_def Let_def

text \<open>A file with one stereo frame, \<open>(1, -2)\<close>, at 48000 Hz.\<close>

definition tiny_wav :: "nat list" where
  "tiny_wav = wav_file [0, 0, 0, 0] [] 2 48000 [] [] [1, 0, 254, 255] []"

lemma tiny_wav_small: "small_sizes tiny_wav" "length tiny_wav < 2 ^ 31" "\<forall>b\<in>set tiny_wav. b < 256"
proof -
  have w: "tiny_wav = [82, 73, 70, 70, 0, 0, 0, 0, 87, 65, 86, 69, 102, 109, 116, 32, 16, 0, 0, 0, 1, 0, 2, 0, 128, 187, 0, 0, 0, 238, 2, 0, 4, 0, 16, 0,
      100, 97, 116, 97, 4, 0, 0, 0, 1, 0, 254, 255]"
    by (simp add: tiny_wav_def wav_file_def riff_chunk_def fmt_payload_def tag_def le16_def le32_def)
  show "small_sizes tiny_wav"
    by (rule small_sizes_closed [of _ "{12, 36, 48}"]) (auto simp: w chunk_walk)
  show "length tiny_wav < 2 ^ 31" "\<forall>b\<in>set tiny_wav. b < 256" by (simp_all add: w)
qed

theorem parse_wav_terminates_witness: "\<exists>r. parse_wav (fopen tiny_wav) True = Some r"
  using parse_wav_terminates [OF tiny_wav_small(1,2), of True] by blast

text \<open>
  A file whose first chunk claims the size \<open>0xFFFFFFF8\<close>: the sum of the position and the size
  wraps around to the start of the chunk.
\<close>

definition looping_wav :: "nat list" where
  "looping_wav = tag ''RIFF'' @ [0, 0, 0, 0] @ tag ''WAVE'' @ tag ''JUNK'' @ [0xF8, 0xFF, 0xFF, 0xFF]"

lemma looping_chunk:
  assumes "f = skip 12 (fopen looping_wav)"
  shows "wav_chunk f i False False = WavNext f i False False"
proof -
  have r: "rest f = tag ''JUNK'' @ [0xF8, 0xFF, 0xFF, 0xFF]"
    unfolding assms looping_wav_def by (rule fread_riff(4)) simp
  have junk: "length (tag ''JUNK'') = 4" "tag ''JUNK'' \<noteq> tag ''fmt ''" "tag ''JUNK'' \<noteq> tag ''data''" by (simp_all add: tag_def)
  have f1: "fread 4 f = (tag ''JUNK'', skip 4 f)" using fread_prefix [OF r] junk(1) by simp
  have "rest (skip 4 f) = [0xF8, 0xFF, 0xFF, 0xFF]" using rest_skip [OF r] junk(1) by simp
  then have f2: "u32 (skip 4 f) = (0xFFFFFFF8, skip 8 f)" using u32_bytes [of "skip 4 f" "0xF8" "0xFF" "0xFF" "0xFF" "[]"] by simp
  have off: "offset f = 12" by (simp add: assms fopen_def)
  have "wav_seek 20 0xFFFFFFF8 (skip 8 f) i False False = WavNext (skip 8 f\<lparr>offset := 12\<rparr>) i False False"
    by (simp add: wav_seek_def fseek_set_def to_s32_def)
  moreover have "skip 8 f\<lparr>offset := 12\<rparr> = f" using off by (simp add: skip_def)
  ultimately show ?thesis using f1 f2 off junk by (simp add: wav_chunk_def Let_def)
qed

lemma wav_loop_stuck:
  assumes "\<And>i. wav_chunk f i False False = WavNext f i False False"
  shows "wav_loop f i False False = None"
proof (rule ccontr)
  assume "wav_loop f i False False \<noteq> None"
  then obtain r where r: "wav_loop f i False False = Some r" by blast
  have "\<not> (g = f \<and> \<not> a \<and> \<not> b)" if "wav_loop g j a b = Some r" for g j a b r
  proof (induction g j a b r rule: wav_loop.raw_induct)
    case (1 loop g j a b r)
    show ?case
    proof
      assume g: "g = f \<and> \<not> a \<and> \<not> b"
      with 1(2) assms have "loop f j False False = Some r" by simp
      from 1(1) [OF this] show False by simp
    qed
  next
    case 2
    show ?case by (rule that)
  qed
  from this [OF r] show False by simp
qed

text \<open>
  C28.  The parser can run forever: on a 20-byte file with a chunk of size \<open>0xFFFFFFF8\<close> the
  32-bit seek offset wraps to the chunk's own start, and \<open>parse_wav\<close> never returns.
\<close>

theorem parse_wav_can_diverge:
  "length looping_wav = 20 \<and> parse_wav (fopen looping_wav) enforce = None"
proof -
  have "parse_wav (fopen looping_wav) enforce = None"
    unfolding looping_wav_def
    by (subst parse_wav_header) (use wav_loop_stuck [OF looping_chunk] in \<open>simp_all add: looping_wav_def\<close>)
  then show ?thesis by (simp add: looping_wav_def tag_def)
qed

subsection \<open>Interpolation\<close>

definition int16 :: "int \<Rightarrow> bool" where
  "int16 v \<longleftrightarrow> - 32768 \<le> v \<and> v \<le> 32767"

lemma clamp16_int16 [simp]: "int16 (clamp16 v)"
  by (simp add: clamp16_def int16_def)

lemma clamp16_id: "int16 v \<Longrightarrow> clamp16 v = v"
  by (simp add: clamp16_def int16_def)

lemma int16_abs: "int16 v \<Longrightarrow> \<bar>v\<bar> < 2 ^ 53"
  by (auto simp: int16_def abs_if)

lemma of_c_int64: "\<bar>n\<bar> < 2 ^ 53 \<Longrightarrow> of_c_int f64 n = Fin (of_int n)"
  by (simp add: of_c_int_def b64.fround_int)

text \<open>Scaling an integer by a factor from 0 to 1 keeps the rounded product between 0 and it.\<close>

lemma scale_between:
  fixes t :: rat
  assumes "0 \<le> t" and "t \<le> 1"
  shows "of_int (min 0 d) \<le> of_int d * t \<and> of_int d * t \<le> of_int (max 0 d)"
proof (cases "0 \<le> d")
  case True
  then show ?thesis using assms mult_left_le [of t "of_int d"] by simp
next
  case False
  then have "(of_int d :: rat) \<le> 0" by simp
  then have "of_int d * 1 \<le> of_int d * t" and "of_int d * t \<le> 0"
    using mult_left_mono_neg [OF assms(2), of "of_int d"] mult_nonpos_nonneg [OF _ assms(1)] by blast+
  then show ?thesis using False by simp
qed

text \<open>The interpolated value lies between its neighbours.\<close>

lemma lerp_between:
  assumes "int16 l0" and "int16 l1" and "0 \<le> t" and "t \<le> 1"
  shows "\<exists>z. fadd f64 (of_c_int f64 l0) (fmul f64 (of_c_int f64 (l1 - l0)) (Fin t)) = Fin z \<and>
    of_int (min l0 l1) \<le> z \<and> z \<le> of_int (max l0 l1)"
proof -
  let ?d = "l1 - l0"
  have d: "\<bar>?d\<bar> \<le> 65535" using assms(1,2) unfolding int16_def by linarith
  have l0: "\<bar>l0\<bar> < 2 ^ 53" using assms(1) by (rule int16_abs)
  note s = scale_between [OF assms(3,4), of ?d]
  have "max 0 ?d \<le> 65535" "- 65535 \<le> min 0 ?d" using d by auto
  then have "(of_int (max 0 ?d) :: rat) \<le> of_int 65535" "(of_int (- 65535) :: rat) \<le> of_int (min 0 ?d)"
    by (simp_all only: of_int_le_iff)
  then have dr: "(of_int (max 0 ?d) :: rat) \<le> 65535" "(- 65535 :: rat) \<le> of_int (min 0 ?d)" by simp_all
  have "\<bar>of_int ?d * t\<bar> \<le> 65535" using s dr by (intro abs_leI) linarith+
  then have "\<bar>of_int ?d * t\<bar> < 2 ^ 53" by simp
  moreover have "\<bar>min 0 ?d\<bar> \<le> 2 ^ 53" "\<bar>max 0 ?d\<bar> \<le> 2 ^ 53" using d by (auto simp: min_def max_def)
  ultimately obtain y where y: "f64 (of_int ?d * t) = Fin y" "of_int (min 0 ?d) \<le> y" "y \<le> of_int (max 0 ?d)"
    using b64.fround_between [of "min 0 ?d" "of_int ?d * t" "max 0 ?d"] s by blast
  have sum: "of_int (min l0 l1) \<le> of_int l0 + y" "of_int l0 + y \<le> of_int (max l0 l1)"
    using y(2,3) by (auto simp: min_def max_def split: if_splits)
  have lr: "(of_int (max l0 l1) :: rat) \<le> 32767" "(- 32768 :: rat) \<le> of_int (min l0 l1)"
    using assms(1,2) unfolding int16_def by (simp_all add: max_def min_def)
  have "\<bar>of_int l0 + y\<bar> \<le> 32768" using sum lr by (intro abs_leI) linarith+
  then have "\<bar>of_int l0 + y\<bar> < 2 ^ 53" by simp
  moreover have "\<bar>min l0 l1\<bar> \<le> 2 ^ 53" "\<bar>max l0 l1\<bar> \<le> 2 ^ 53"
    using assms(1,2) by (auto simp: int16_def min_def max_def)
  ultimately obtain z where "f64 (of_int l0 + y) = Fin z" "of_int (min l0 l1) \<le> z" "z \<le> of_int (max l0 l1)"
    using b64.fround_between [of "min l0 l1" "of_int l0 + y" "max l0 l1"] sum by blast
  moreover have "\<bar>?d\<bar> < 2 ^ 53" using d by simp
  ultimately show ?thesis using y(1) l0 by (simp add: of_c_int64)
qed

text \<open>After truncation it still does; the clamp has nothing to do.\<close>

lemma lerp16_between:
  assumes "int16 l0" and "int16 l1" and "q = Fin t" and "0 \<le> t" and "t \<le> 1"
  shows "\<exists>v. lerp16 l0 l1 q = Some v \<and> min l0 l1 \<le> v \<and> v \<le> max l0 l1"
proof -
  from lerp_between [OF assms(1,2,4,5)] obtain z
    where z: "fadd f64 (of_c_int f64 l0) (fmul f64 (of_c_int f64 (l1 - l0)) q) = Fin z"
      "of_int (min l0 l1) \<le> z" "z \<le> of_int (max l0 l1)" unfolding assms(3) by blast
  have b: "min l0 l1 \<le> rtrunc z \<and> rtrunc z \<le> max l0 l1" using rtrunc_between z(2,3) by blast
  then have "int16 (rtrunc z)" using assms(1,2) by (auto simp: int16_def min_def max_def split: if_splits)
  then show ?thesis
    using b by (simp add: lerp16_def z(1) to_int32_def clamp16_id) (simp add: int16_def)
qed

lemma lerp16_zero: "int16 l0 \<Longrightarrow> int16 l1 \<Longrightarrow> lerp16 l0 l1 (Fin 0) = Some l0"
proof -
  assume i: "int16 l0" "int16 l1"
  then have "\<bar>l0\<bar> < 2 ^ 53" "\<bar>l1 - l0\<bar> < 2 ^ 53" by (auto simp: int16_def abs_if)
  moreover have "f64 0 = Fin 0" using b64.fround_int [of 0] by simp
  ultimately show ?thesis
    using i b64.fround_int [of l0] by (simp add: lerp16_def of_c_int64 to_int32_def clamp16_id int16_def)
qed

text \<open>The source position of an output frame lies in the input.\<close>

lemma clip_output_pos:
  assumes "x < clip_output_frames input_frames rate" and "0 < rate"
  shows "x * rate < input_frames * 48000"
proof -
  let ?t = "input_frames * 48000 + rate - 1"
  have "clip_output_frames input_frames rate \<le> ?t div rate"
    unfolding clip_output_frames_def OUT_RATE_def by (rule mod_less_eq_dividend)
  with assms(1) have "Suc x \<le> ?t div rate" by linarith
  then have "Suc x * rate \<le> ?t div rate * rate" by (rule mult_le_mono1)
  also have "\<dots> \<le> ?t" by (rule div_times_less_eq_dividend)
  finally have "Suc x * rate \<le> ?t" .
  then show ?thesis using assms(2) by simp
qed

definition clip_source :: "nat \<Rightarrow> nat \<Rightarrow> flt" where
  "clip_source rate x = fdiv f64 (fmul f64 (of_c_int f64 (int x)) (of_c_int f64 (int rate))) (of_c_int f64 (int OUT_RATE))"

lemma clip_source_exact:
  assumes "x * rate < 2 ^ 53" and "0 < rate" and "rate < 2 ^ 32"
  shows "clip_source rate x = f64 (of_nat (x * rate) / 48000)"
proof -
  have "x \<le> x * rate" using assms(2) by simp
  then have "x < 2 ^ 53" using assms(1) by linarith
  moreover have "\<bar>int x * int rate\<bar> < 2 ^ 53" using assms(1) by (simp flip: of_nat_mult)
  then have "f64 (of_int (int x * int rate)) = Fin (of_int (int x * int rate))" by (rule b64.fround_int)
  ultimately show ?thesis
    using assms(3) by (simp add: clip_source_def of_c_int64 OUT_RATE_def)
qed

lemma clip_source_in_range:
  assumes "x * rate < input_frames * 48000" and "0 < rate" and "rate < 2 ^ 32" and "input_frames \<le> 2 ^ 25"
  shows "\<exists>y. clip_source rate x = Fin y \<and> 0 \<le> y \<and> y \<le> of_nat input_frames"
proof -
  have "x * rate < 2 ^ 53" using assms(1,4) by simp
  note e = clip_source_exact [OF this assms(2,3)]
  have "(of_nat (x * rate) :: rat) \<le> of_nat (input_frames * 48000)" using assms(1) by (simp only: of_nat_le_iff)
  then have v: "of_nat (x * rate) / 48000 \<le> (of_nat input_frames :: rat)" by (simp add: divide_le_eq)
  have "(of_nat input_frames :: rat) \<le> of_nat (2 ^ 25)" using assms(4) by (simp only: of_nat_le_iff)
  then have "\<bar>of_nat (x * rate) / 48000 :: rat\<bar> < 2 ^ 53" using v by simp
  then show ?thesis
    using b64.fround_between [of 0 "of_nat (x * rate) / 48000" "int input_frames"] v assms(4) unfolding e by simp
qed

lemma clip_frame_source:
  "clip_frame input channels input_frames rate x =
     (case to_uint32 (clip_source rate x) of
        None \<Rightarrow> None
      | Some a \<Rightarrow>
        let a = (if nat a \<ge> input_frames then input_frames - 1 else nat a);
            b = (if a + 1 < input_frames then a + 1 else a);
            q = fsub f64 (clip_source rate x) (of_c_int f64 (int a)) in
        case (input_frame input channels a, input_frame input channels b) of
          (Some (l0, r0), Some (l1, r1)) \<Rightarrow>
            (case (lerp16 l0 l1 q, lerp16 r0 r1 q) of (Some l, Some r) \<Rightarrow> Some (l, r) | _ \<Rightarrow> None)
        | _ \<Rightarrow> None)"
  unfolding clip_frame_def clip_source_def Let_def by (rule refl)

lemma input_frame_in_bounds:
  assumes "length input = input_frames * channels" and "channels = 1 \<or> channels = 2" and "k < input_frames"
    and "\<forall>v\<in>set input. int16 v"
  shows "\<exists>l r. input_frame input channels k = Some (l, r) \<and> int16 l \<and> int16 r"
proof (cases "channels = 1")
  case True
  with assms show ?thesis by (simp add: input_frame_def cell_def)
next
  case False
  with assms(1-3) have "k * 2 + 1 < length input" by simp
  with False assms(4) show ?thesis by (simp add: input_frame_def cell_def)
qed

definition between :: "int \<Rightarrow> int \<Rightarrow> int \<Rightarrow> bool" where
  "between l0 l1 v \<longleftrightarrow> min l0 l1 \<le> v \<and> v \<le> max l0 l1"

text \<open>
  What one output frame is: the frames of the input around its source position, interpolated on
  both channels.
\<close>

lemma clip_frame_between:
  assumes "length input = input_frames * channels" and "channels = 1 \<or> channels = 2"
    and "\<forall>v\<in>set input. int16 v" and "0 < input_frames" and "input_frames \<le> 2 ^ 25"
    and "0 < rate" and "rate < 2 ^ 32" and "x < clip_output_frames input_frames rate"
  shows "\<exists>l r a b l0 r0 l1 r1. clip_frame input channels input_frames rate x = Some (l, r) \<and>
    a < input_frames \<and> b < input_frames \<and> b \<le> a + 1 \<and> a \<le> b \<and>
    input_frame input channels a = Some (l0, r0) \<and> input_frame input channels b = Some (l1, r1) \<and>
    between l0 l1 l \<and> between r0 r1 r"
proof -
  from clip_source_in_range [OF clip_output_pos [OF assms(8,6)] assms(6,7,5)]
  obtain y where y: "clip_source rate x = Fin y" "0 \<le> y" "y \<le> of_nat input_frames" by blast
  let ?k = "\<lfloor>y\<rfloor>"
  have k: "0 \<le> ?k" "?k \<le> int input_frames" using y(2,3) by (simp_all add: floor_le_iff)
  then have u: "to_uint32 (clip_source rate x) = Some ?k"
    using y assms(5) by (simp add: to_uint32_def rtrunc_floor)
  define a where "a = (if nat ?k \<ge> input_frames then input_frames - 1 else nat ?k)"
  define b where "b = (if a + 1 < input_frames then a + 1 else a)"
  have ab: "a < input_frames" "b < input_frames" "b \<le> a + 1" "a \<le> b"
    using assms(4) by (auto simp: a_def b_def split: if_splits)
  have t: "0 \<le> y - of_nat a \<and> y - of_nat a \<le> 1"
  proof (cases "nat ?k \<ge> input_frames")
    case True
    then have "int input_frames \<le> ?k" using k by linarith
    then have "of_int (int input_frames) \<le> y" by (simp only: le_floor_iff)
    then have "of_nat input_frames \<le> y" by simp
    with True y(3) assms(4) show ?thesis by (simp add: a_def of_nat_diff)
  next
    case False
    then have "(of_nat a :: rat) = of_int ?k" using k by (simp add: a_def)
    moreover have "y < of_int ?k + 1" "of_int ?k \<le> y" by linarith+
    ultimately show ?thesis by linarith
  qed
  then obtain q where q: "f64 (y - of_nat a) = Fin q" "0 \<le> q" "q \<le> 1" using b64.fround_unit by blast
  have "\<bar>int a\<bar> < 2 ^ 53" using ab(1) assms(5) by simp
  then have fq: "fsub f64 (clip_source rate x) (of_c_int f64 (int a)) = Fin q"
    using y(1) q(1) by (simp add: fsub_def of_c_int64)
  obtain l0 r0 where i0: "input_frame input channels a = Some (l0, r0)" "int16 l0" "int16 r0"
    using input_frame_in_bounds [OF assms(1,2) ab(1) assms(3)] by blast
  obtain l1 r1 where i1: "input_frame input channels b = Some (l1, r1)" "int16 l1" "int16 r1"
    using input_frame_in_bounds [OF assms(1,2) ab(2) assms(3)] by blast
  obtain l where l: "lerp16 l0 l1 (Fin q) = Some l" "between l0 l1 l"
    using lerp16_between [OF i0(2) i1(2) refl q(2,3)] by (auto simp: between_def)
  obtain r where r: "lerp16 r0 r1 (Fin q) = Some r" "between r0 r1 r"
    using lerp16_between [OF i0(3) i1(3) refl q(2,3)] by (auto simp: between_def)
  have "clip_frame input channels input_frames rate x = Some (l, r)"
    unfolding clip_frame_source u
    by (simp only: Let_def a_def [symmetric] b_def [symmetric] fq i0(1) i1(1) l(1) r(1) option.case prod.case)
  with ab i0(1) i1(1) l(2) r(2) show ?thesis by blast
qed

lemma those_map_total: "(\<forall>x\<in>set xs. \<exists>y. f x = Some y) \<Longrightarrow> those (map f xs) = Some (map (\<lambda>x. the (f x)) xs)"
  by (induction xs) auto

lemma samples16_int16: "v \<in> set (samples16 bs) \<Longrightarrow> int16 v"
  by (induction bs rule: samples16.induct) (auto simp: int16_def to_s16_range)

lemma length_samples16: "length (samples16 bs) = length bs div 2"
  by (induction bs rule: samples16.induct) auto

subsection \<open>What the parser guarantees to its callers\<close>

lemma u32_range:
  assumes "\<forall>b\<in>set (content f). b < 256"
  shows "fst (u32 f) < 2 ^ 32"
proof -
  obtain b f' where r: "fread 4 f = (b, f')" by fastforce
  have b: "\<forall>x\<in>set b. x < 256"
    using r assms by (auto simp: fread_def segment_def Let_def dest!: in_set_takeD in_set_dropD)
  show ?thesis
  proof (cases "length b = 4")
    case True
    then obtain b0 b1 b2 b3 where b4: "b = [b0, b1, b2, b3]" by (auto simp: numeral_eq_Suc length_Suc_conv)
    with r b show ?thesis by (simp add: u32_def or_bytes4)
  next
    case False
    with r show ?thesis by (simp add: u32_def)
  qed
qed

lemma u16_content: "content (snd (u16 f)) = content f"
  using fread_offset [of 2 f] by (auto simp: u16_def split: prod.splits)

lemma wav_fmt_rate:
  assumes "\<forall>b\<in>set (content f). b < 256"
  shows "wi_rate (wav_fmt f i) < 2 ^ 32"
  using u32_range [of "snd (u16 (snd (u16 f)))"] assms u16_content
  by (simp add: wav_fmt_def Let_def case_prod_beta)

lemma wav_seek_next:
  "wav_seek p n f i a b = WavNext f' i' a' b' \<Longrightarrow> content f' = content f \<and> i' = i"
  by (auto simp: wav_seek_def fseek_set_def split: if_splits option.splits)

lemma wav_chunk_rate:
  assumes "wav_chunk f i a b = WavNext f' i' a' b'" and "\<forall>x\<in>set (content f). x < 256" and "wi_rate i < 2 ^ 32"
  shows "content f' = content f \<and> wi_rate i' < 2 ^ 32"
proof -
  let ?f2 = "snd (u32 (snd (fread 4 f)))"
  have c: "content ?f2 = content f" using fread_offset [of 4 f] u32_content [of "snd (fread 4 f)"] by simp
  have "wi_rate (wav_fmt ?f2 i) < 2 ^ 32" using wav_fmt_rate [of ?f2] assms(2) c by simp
  then show ?thesis
    using assms(1,3) c by (auto simp: wav_chunk_def Let_def case_prod_beta split: if_splits dest!: wav_seek_next)
qed

lemma wav_loop_rate:
  assumes "wav_loop f i a b = Some r" and "\<forall>x\<in>set (content f). x < 256" and "wi_rate i < 2 ^ 32"
    and "r = Inr (j, x, y)"
  shows "wi_rate j < 2 ^ 32"
  using assms(2-)
proof (induction f i a b r rule: wav_loop.raw_induct)
  case (1 loop f i a b r)
  show ?case
  proof (cases "a \<and> b")
    case True
    with 1 show ?thesis by auto
  next
    case False
    show ?thesis
    proof (cases "wav_chunk f i a b")
      case (WavNext f' i' a' b')
      note c = wav_chunk_rate [OF this 1(3,4)]
      have "loop f' i' a' b' = Some r" using 1(2) False WavNext by auto
      from 1(1) [OF this] c 1(3,5) show ?thesis by simp
    qed (use 1 False in auto)
  qed
next
  case 2
  show ?case by (rule assms(1))
qed

definition wav_valid :: "wav_info \<Rightarrow> bool" where
  "wav_valid i \<longleftrightarrow> wi_format i = 1 \<and> wi_bits i = 16 \<and> (wi_channels i = 1 \<or> wi_channels i = 2) \<and>
     0 < wi_rate i \<and> wi_rate i < 2 ^ 32 \<and> 0 < wi_data_size i"

lemma parse_wav_valid:
  assumes "parse_wav (fopen bytes) enforce = Some (Inr i)" and "\<forall>b\<in>set bytes. b < 256"
  shows "wav_valid i \<and> (enforce \<longrightarrow> wi_data_size i \<le> MAX_WAV_BYTES)"
proof -
  let ?f = "snd (fread 4 (snd (u32 (snd (fread 4 (fopen bytes))))))"
  have c: "content ?f = bytes" by (simp add: fread_offset u32_content fopen_def)
  from assms(1) obtain r where r: "wav_loop ?f wav_zero False False = Some r"
      "(case r of Inl code \<Rightarrow> Inl code | Inr (i, x, y) \<Rightarrow> wav_check i x y enforce) = Inr i"
    by (auto simp: parse_wav_def Let_def case_prod_beta split: if_splits)
  then obtain j x y where "r = Inr (j, x, y)" by (cases r) auto
  with r have l: "wav_loop ?f wav_zero False False = Some (Inr (j, x, y))" "wav_check j x y enforce = Inr i" by simp_all
  have "wi_rate j < 2 ^ 32"
    using wav_loop_rate [OF l(1) _ _ refl] assms(2) c by (simp add: wav_zero_def)
  with l(2) show ?thesis by (auto simp: wav_check_def wav_valid_def split: if_splits)
qed

text \<open>
  A file below 2 GB without sizes of 2 GB or more: the sound data the parser finds ends below 2 GB,
  since the parser seeks to its end.
\<close>

definition wav_tame :: "nat list \<Rightarrow> bool" where
  "wav_tame bytes \<longleftrightarrow> (\<forall>b\<in>set bytes. b < 256) \<and> small_sizes bytes \<and> length bytes < 2 ^ 31"

definition data_extent :: "wav_info \<Rightarrow> nat" where
  "data_extent i = wi_data_off i + wi_data_size i"

lemma wav_seek_fits:
  "wav_seek p n f i a b = WavNext f' i' a' b' \<Longrightarrow> p < 2 ^ 31 \<Longrightarrow> n < 2 ^ 31 \<Longrightarrow> p + n < 2 ^ 31"
  using wav_seek_progress by (metis add_lessD1)

lemma wav_chunk_extent:
  assumes "wav_chunk f i a b = WavNext f' i' a' b'" and "wav_tame (content f)" and "chunk_at (content f) (offset f)" and "data_extent i < 2 ^ 31"
  shows "content f' = content f \<and> data_extent i' < 2 ^ 31 \<and> chunk_at (content f) (offset f')"
proof -
  obtain id f1 where r: "fread 4 f = (id, f1)" by fastforce
  obtain n f2 where u: "u32 f1 = (n, f2)" by fastforce
  have id: "length id = 4" using assms(1) r by (auto simp: wav_chunk_def Let_def split: if_splits)
  have f1: "content f1 = content f" "offset f1 \<le> length (content f)"
    using fread_offset [of 4 f] fread_short [of 4 f] r id by auto
  have f2: "content f2 = content f" "offset f2 < 2 ^ 31"
    using u32_content [of f1] u f1 assms(2) by (auto simp: wav_tame_def)
  have f: "\<lparr>content = content f, offset = offset f\<rparr> = f" by simp
  have "chunk_size (content f) (offset f) = n" using r u by (simp add: chunk_size_def f)
  then have n: "n < 2 ^ 31" using assms(2,3) by (auto simp: small_sizes_def wav_tame_def)
  have nx: "chunk_at (content f) (offset f')" using wav_chunk_progress [OF assms(1,3)] assms(2) by (simp add: wav_tame_def)
  have fmt: "data_extent (wav_fmt f2 i) = data_extent i" by (simp add: wav_fmt_def data_extent_def Let_def case_prod_beta)
  show ?thesis
  proof (cases "id = tag ''data''")
    case True
    then have "id \<noteq> tag ''fmt ''" by (simp add: tag_def)
    with True assms(1) r u id have s: "wav_seek (offset f2) n f2 (i\<lparr>wi_data_off := offset f2, wi_data_size := n\<rparr>) a True = WavNext f' i' a' b'"
      by (simp add: wav_chunk_def Let_def)
    show ?thesis using wav_seek_fits [OF s f2(2) n] wav_seek_next [OF s] f2(1) nx by (simp add: data_extent_def)
  next
    case False
    then have "\<exists>j x y. wav_seek (offset f2) n f2 j x y = WavNext f' i' a' b' \<and> data_extent j = data_extent i"
      using assms(1) r u id fmt by (auto simp: wav_chunk_def Let_def split: if_splits)
    with f2(1) assms(4) nx show ?thesis using wav_seek_next by metis
  qed
qed

lemma wav_loop_extent:
  assumes "wav_loop f i a b = Some r" and "wav_tame (content f)" and "chunk_at (content f) (offset f)"
    and "data_extent i < 2 ^ 31" and "r = Inr (j, x, y)"
  shows "data_extent j < 2 ^ 31"
  using assms(2-)
proof (induction f i a b r rule: wav_loop.raw_induct)
  case (1 loop f i a b r)
  show ?case
  proof (cases "a \<and> b")
    case True
    with 1 show ?thesis by auto
  next
    case False
    show ?thesis
    proof (cases "wav_chunk f i a b")
      case (WavNext f' i' a' b')
      note c = wav_chunk_extent [OF this 1(3-5)]
      have "loop f' i' a' b' = Some r" using 1(2) False WavNext by auto
      from 1(1) [OF this] c 1(3,6) show ?thesis by simp
    qed (use 1 False in auto)
  qed
next
  case 2
  show ?case by (rule assms(1))
qed

lemma parse_wav_tame:
  assumes "wav_tame bytes"
  shows "(\<exists>code. parse_wav (fopen bytes) enforce = Some (Inl code)) \<or>
    (\<exists>i. parse_wav (fopen bytes) enforce = Some (Inr i) \<and> wav_valid i \<and> data_extent i < 2 ^ 31)"
proof -
  let ?f = "snd (fread 4 (snd (u32 (snd (fread 4 (fopen bytes))))))"
  have c: "content ?f = bytes" by (simp add: fread_offset u32_content fopen_def)
  have at: "chunk_at bytes (offset ?f)" using chunk_at.first [of bytes] by (simp add: first_chunk_def)
  then obtain r where r: "wav_loop ?f wav_zero False False = Some r"
    using wav_loop_total [of ?f wav_zero False False] assms c by (auto simp: wav_tame_def)
  then have "\<exists>out. parse_wav (fopen bytes) enforce = Some out"
    by (simp add: parse_wav_def Let_def case_prod_beta)
  then obtain out where out: "parse_wav (fopen bytes) enforce = Some out" by blast
  show ?thesis
  proof (cases out)
    case (Inr i)
    with out r obtain j x y where l: "r = Inr (j, x, y)" "wav_check j x y enforce = Inr i"
      by (cases r) (auto simp: parse_wav_def Let_def case_prod_beta split: if_splits)
    have "data_extent j < 2 ^ 31" using wav_loop_extent [OF r _ _ _ l(1)] assms c at by (simp add: data_extent_def wav_zero_def)
    then have "data_extent i < 2 ^ 31" using l(2) by (auto simp: wav_check_def split: if_splits)
    moreover have "wav_valid i" using parse_wav_valid out Inr assms by (auto simp: wav_tame_def)
    ultimately show ?thesis using out Inr by blast
  qed (use out in blast)
qed

subsection \<open>Loading\<close>

text \<open>The resampling loop stays in its block and never misbehaves, as long as the block's size does not wrap.\<close>

lemma resample_total:
  assumes "length input = input_frames * channels" and "channels = 1 \<or> channels = 2"
    and "\<forall>v\<in>set input. int16 v" and "0 < input_frames" and "input_frames \<le> 2 ^ 25"
    and "0 < rate" and "rate < 2 ^ 32" and "n = clip_output_frames input_frames rate" and "n < 2 ^ 30"
  shows "\<exists>out. resample input channels input_frames rate n (size_t (n * 2 * 2) div 2) = Some out \<and> length out = n \<and>
    (\<forall>x<n. clip_frame input channels input_frames rate x = Some (out ! x))"
proof -
  have "size_t (n * 2 * 2) = n * 2 * 2" using assms(9) by (intro size_t_id) simp
  moreover have "\<forall>x\<in>set [0..<n]. \<exists>y. clip_frame input channels input_frames rate x = Some y"
    using clip_frame_between [OF assms(1-7)] assms(8) by fastforce
  from those_map_total [OF this] this
  have "those (map (clip_frame input channels input_frames rate) [0..<n]) =
      Some (map (\<lambda>x. the (clip_frame input channels input_frames rate x)) [0..<n])"
    "\<forall>x<n. clip_frame input channels input_frames rate x = Some (the (clip_frame input channels input_frames rate x))"
    by auto
  ultimately show ?thesis by (simp add: resample_def)
qed

lemma load_clip_sound:
  assumes "fs path = Some bytes" and "\<forall>b\<in>set bytes. b < 256" and "parse_wav (fopen bytes) True = Some (Inr i)"
    and "n = wi_data_size i div (wi_channels i * 2)" and "clip_output_frames n (wi_rate i) < 2 ^ 30"
  shows "\<exists>res ev. load_clip fs alloc path = Some (res, ev) \<and>
    (\<forall>out. res = Inr out \<longrightarrow> length out = clip_output_frames n (wi_rate i) \<and>
      (\<forall>x<length out. \<exists>a b l0 r0 l1 r1. a \<le> b \<and> b \<le> a + 1 \<and> b < n \<and>
         input_frame (samples16 (segment (wi_data_off i) (n * wi_channels i * 2) bytes)) (wi_channels i) a = Some (l0, r0) \<and>
         input_frame (samples16 (segment (wi_data_off i) (n * wi_channels i * 2) bytes)) (wi_channels i) b = Some (l1, r1) \<and>
         between l0 l1 (fst (out ! x)) \<and> between r0 r1 (snd (out ! x))))"
proof (cases "n = 0")
  case True
  with assms show ?thesis by (simp add: load_clip_def Let_def)
next
  case False
  have v: "wav_valid i" "wi_data_size i \<le> 64 * 1024 * 1024"
    using parse_wav_valid [OF assms(3,2)] by (auto simp: MAX_WAV_BYTES_def)
  have n25: "n \<le> 2 ^ 25" and nc: "n * wi_channels i < 2 ^ 31"
    using v assms(4) by (auto simp: wav_valid_def)
  let ?input = "samples16 (segment (wi_data_off i) (n * wi_channels i * 2) bytes)"
  have sz: "size_t (n * wi_channels i) = n * wi_channels i" using nc by (intro size_t_id) simp
  have input: "samples16 (fst (fread (n * wi_channels i * 2) (fopen bytes\<lparr>offset := wi_data_off i\<rparr>))) = ?input"
    by (simp add: fread_def fopen_def Let_def)
  show ?thesis
  proof (cases "length ?input = n * wi_channels i")
    case wrong: False
    with assms False sz input show ?thesis by (auto simp: load_clip_def fseek_set_def Let_def)
  next
    case len: True
    have i16: "\<forall>v\<in>set ?input. int16 v" using samples16_int16 by blast
    have ch: "wi_channels i = 1 \<or> wi_channels i = 2" and r: "0 < wi_rate i" "wi_rate i < 2 ^ 32"
      using v(1) by (auto simp: wav_valid_def)
    let ?m = "clip_output_frames n (wi_rate i)"
    obtain out where out: "resample ?input (wi_channels i) n (wi_rate i) ?m (size_t (?m * 2 * 2) div 2) = Some out" "length out = ?m"
        "\<forall>x<?m. clip_frame ?input (wi_channels i) n (wi_rate i) x = Some (out ! x)"
      using resample_total [OF len ch i16 _ n25 r refl assms(5)] False by auto
    have "\<exists>a b l0 r0 l1 r1. a \<le> b \<and> b \<le> a + 1 \<and> b < n \<and> input_frame ?input (wi_channels i) a = Some (l0, r0) \<and>
        input_frame ?input (wi_channels i) b = Some (l1, r1) \<and> between l0 l1 (fst (out ! x)) \<and> between r0 r1 (snd (out ! x))"
      if "x < ?m" for x
      using clip_frame_between [OF len ch i16 _ n25 r that] out(3) that False by fastforce
    with assms(1,3,4) False sz input len out(1,2) show ?thesis
      by (auto simp: load_clip_def fseek_set_def Let_def)
  qed
qed

text \<open>
  C26.  Loading a clip never leaves its buffers and never converts an out-of-range value: for
  any file the parser accepts whose resampled length is below \<open>2^30\<close> frames,
  \<open>load_clip\<close> returns an error code or \<open>ceil(frames * 48000 / rate)\<close> frames, each of
  which lies, on both channels, between two neighbouring frames of the file.
\<close>

theorem load_clip_interpolates:
  assumes "fs path = Some bytes" and "\<forall>b\<in>set bytes. b < 256" and "parse_wav (fopen bytes) True = Some (Inr i)"
    and "n = wi_data_size i div (wi_channels i * 2)" and "clip_output_frames n (wi_rate i) < 2 ^ 30"
  shows "\<exists>res ev. load_clip fs alloc path = Some (res, ev) \<and>
    (\<forall>out. res = Inr out \<longrightarrow> length out = clip_output_frames n (wi_rate i) \<and>
      (\<forall>x<length out. \<exists>a b l0 r0 l1 r1. a \<le> b \<and> b \<le> a + 1 \<and> b < n \<and>
         input_frame (samples16 (segment (wi_data_off i) (n * wi_channels i * 2) bytes)) (wi_channels i) a = Some (l0, r0) \<and>
         input_frame (samples16 (segment (wi_data_off i) (n * wi_channels i * 2) bytes)) (wi_channels i) b = Some (l1, r1) \<and>
         between l0 l1 (fst (out ! x)) \<and> between r0 r1 (snd (out ! x))))"
  by (rule load_clip_sound [where fs = fs and path = path, OF assms])

text \<open>
  A file a clip can be loaded from: the resampled clip is shorter than \<open>2^30\<close> frames.
\<close>

definition clip_tame :: "nat list \<Rightarrow> bool" where
  "clip_tame bytes \<longleftrightarrow> wav_tame bytes \<and> (\<forall>i. parse_wav (fopen bytes) True = Some (Inr i) \<longrightarrow>
     clip_output_frames (wi_data_size i div (wi_channels i * 2)) (wi_rate i) < 2 ^ 30)"

lemma input_frame_int16:
  "input_frame (samples16 bs) ch k = Some (l, r) \<Longrightarrow> int16 l \<and> int16 r"
proof -
  have "int16 (samples16 bs ! j)" if "j < length (samples16 bs)" for j
    using samples16_int16 nth_mem that by blast
  then show "input_frame (samples16 bs) ch k = Some (l, r) \<Longrightarrow> int16 l \<and> int16 r"
    by (auto simp: input_frame_def cell_def split: if_splits)
qed

lemma load_clip_tame:
  assumes "\<And>bytes. fs path = Some bytes \<Longrightarrow> clip_tame bytes"
  shows "\<exists>res ev. load_clip fs alloc path = Some (res, ev) \<and>
    (\<forall>out. res = Inr out \<longrightarrow> length out < 2 ^ 30 \<and> (\<forall>(l, r)\<in>set out. int16 l \<and> int16 r))"
proof (cases "fs path")
  case None
  then show ?thesis by (simp add: load_clip_def)
next
  case (Some bytes)
  have t: "clip_tame bytes" by (rule assms) (rule Some)
  from parse_wav_tame [of bytes True] t consider (err) code where "parse_wav (fopen bytes) True = Some (Inl code)"
    | (ok) i where "parse_wav (fopen bytes) True = Some (Inr i)" by (auto simp: clip_tame_def)
  then show ?thesis
  proof cases
    case err
    with Some show ?thesis by (simp add: load_clip_def)
  next
    case (ok i)
    let ?n = "wi_data_size i div (wi_channels i * 2)"
    have b: "\<forall>b\<in>set bytes. b < 256" and n: "clip_output_frames ?n (wi_rate i) < 2 ^ 30"
      using t ok by (auto simp: clip_tame_def wav_tame_def)
    obtain res ev where l: "load_clip fs alloc path = Some (res, ev)"
      and o: "\<And>out. res = Inr out \<Longrightarrow> length out = clip_output_frames ?n (wi_rate i) \<and>
      (\<forall>x<length out. \<exists>a b l0 r0 l1 r1. a \<le> b \<and> b \<le> a + 1 \<and> b < ?n \<and>
         input_frame (samples16 (segment (wi_data_off i) (?n * wi_channels i * 2) bytes)) (wi_channels i) a = Some (l0, r0) \<and>
         input_frame (samples16 (segment (wi_data_off i) (?n * wi_channels i * 2) bytes)) (wi_channels i) b = Some (l1, r1) \<and>
         between l0 l1 (fst (out ! x)) \<and> between r0 r1 (snd (out ! x)))"
      using load_clip_sound [where fs = fs and path = path and alloc = alloc, OF Some b ok refl n] by blast
    have "int16 (fst (out ! x)) \<and> int16 (snd (out ! x))" if "res = Inr out" "x < length out" for out x
    proof -
      from o [OF that(1)] that(2) obtain l0 r0 l1 r1 where "int16 l0" "int16 r0" "int16 l1" "int16 r1"
          "between l0 l1 (fst (out ! x))" "between r0 r1 (snd (out ! x))"
        using input_frame_int16 by metis
      then show ?thesis by (auto simp: between_def int16_def)
    qed
    then have "\<forall>(l, r)\<in>set out. int16 l \<and> int16 r" if "res = Inr out" for out
      using that by (fastforce simp: in_set_conv_nth)
    with l o n show ?thesis by auto
  qed
qed

text \<open>The inverse of \<open>samples16\<close> on stereo frames.\<close>

definition sample_bytes :: "int \<Rightarrow> nat list" where
  "sample_bytes v = le16 (nat (v mod 65536))"

definition frames_bytes :: "(int \<times> int) list \<Rightarrow> nat list" where
  "frames_bytes frames = concat (map (\<lambda>(l, r). sample_bytes l @ sample_bytes r) frames)"

definition interleave :: "(int \<times> int) list \<Rightarrow> int list" where
  "interleave frames = concat (map (\<lambda>(l, r). [l, r]) frames)"

lemma samples16_sample_bytes:
  assumes "int16 v"
  shows "samples16 (sample_bytes v @ bs) = v # samples16 bs"
proof -
  let ?n = "nat (v mod 65536)"
  have "?n div 256 < 256" by (simp add: div_less_iff_less_mult nat_less_iff)
  then have "?n mod 256 + 256 * (?n div 256 mod 256) = ?n" by (simp add: add.commute)
  then have "int (?n mod 256) + 256 * int (?n div 256 mod 256) = int ?n"
    by (metis of_nat_add of_nat_mult of_nat_numeral)
  also have "\<dots> = v mod 65536" by simp
  finally have "to_s16 (int (?n mod 256) + 256 * int (?n div 256 mod 256)) = to_s16 (v mod 65536)" by (rule arg_cong)
  also have "\<dots> = to_s16 v" by (simp add: to_s16_def mod_add_left_eq)
  also have "\<dots> = v" using assms by (intro to_s16_id) (auto simp: int16_def)
  finally show ?thesis by (simp add: sample_bytes_def le16_def)
qed

lemma samples16_frames:
  "\<forall>(l, r)\<in>set frames. int16 l \<and> int16 r \<Longrightarrow> samples16 (frames_bytes frames) = interleave frames"
  by (induction frames) (auto simp: frames_bytes_def interleave_def samples16_sample_bytes)

lemma length_frames_bytes [simp]: "length (frames_bytes frames) = 4 * length frames"
  by (induction frames) (auto simp: frames_bytes_def sample_bytes_def)

lemma nth_interleave:
  "k < length frames \<Longrightarrow> length (interleave frames) = 2 * length frames \<and>
   interleave frames ! (k * 2) = fst (frames ! k) \<and> interleave frames ! (k * 2 + 1) = snd (frames ! k)"
proof (induction frames arbitrary: k)
  case (Cons f frames)
  have "length (interleave frames) = 2 * length frames" by (induction frames) (auto simp: interleave_def)
  with Cons show ?case by (cases k) (auto simp: interleave_def split: prod.splits)
qed simp

lemma input_frame_interleave:
  "k < length frames \<Longrightarrow> input_frame (interleave frames) 2 k = Some (frames ! k)"
  using nth_interleave [of k frames] by (simp add: input_frame_def cell_def)

text \<open>At 48 kHz the source position of frame \<open>x\<close> is \<open>x\<close>, and nothing is interpolated.\<close>

lemma clip_frame_48k:
  assumes "\<forall>(l, r)\<in>set frames. int16 l \<and> int16 r" and "x < length frames" and "length frames \<le> 2 ^ 25"
  shows "clip_frame (interleave frames) 2 (length frames) 48000 x = Some (frames ! x)"
proof -
  have x: "x * 48000 < 2 ^ 53" using assms(2,3) by simp
  have "clip_source 48000 x = f64 (of_nat (x * 48000) / 48000)" by (rule clip_source_exact [OF x]) simp_all
  also have "\<dots> = f64 (of_int (int x))" by simp
  also have "\<dots> = Fin (of_nat x)" using x b64.fround_int [of "int x"] by simp
  finally have y: "clip_source 48000 x = Fin (of_nat x)" .
  have u: "to_uint32 (Fin (of_nat x)) = Some (int x)"
    using assms(2,3) rtrunc_of_int [of "int x"] by (simp add: to_uint32_def)
  have z: "f64 0 = Fin 0" using b64.fround_int [of 0] by simp
  have "\<bar>int x\<bar> < 2 ^ 53" using x by simp
  then have q: "fsub f64 (Fin (of_nat x)) (of_c_int f64 (int x)) = Fin 0" using z by (simp add: fsub_def of_c_int64)
  define b where "b = (if x + 1 < length frames then x + 1 else x)"
  have b: "b < length frames" using assms(2) by (simp add: b_def)
  obtain l0 r0 l1 r1 where f: "frames ! x = (l0, r0)" "frames ! b = (l1, r1)" by fastforce
  then have "int16 l0 \<and> int16 r0" "int16 l1 \<and> int16 r1"
    using assms(1) nth_mem [OF assms(2)] nth_mem [OF b] by auto
  then have "lerp16 l0 l1 (Fin 0) = Some l0" "lerp16 r0 r1 (Fin 0) = Some r0" by (auto intro: lerp16_zero)
  moreover have "(if nat (int x) \<ge> length frames then length frames - 1 else nat (int x)) = x" using assms(2) by simp
  ultimately show ?thesis
    unfolding clip_frame_source y u
    by (simp only: option.case Let_def b_def [symmetric] q f input_frame_interleave [OF assms(2)]
        input_frame_interleave [OF b] prod.case)
qed

lemma clip_output_48k: "n < 2 ^ 32 \<Longrightarrow> clip_output_frames n 48000 = n"
proof -
  assume "n < 2 ^ 32"
  moreover have "(n * 48000 + 48000 - 1) div 48000 = n"
    using div_mult_self1 [of 48000 47999 n] by (simp add: algebra_simps)
  ultimately show ?thesis by (simp add: clip_output_frames_def OUT_RATE_def)
qed

lemma parse_wav_enforce:
  assumes "parse_wav f False = Some (Inr i)" and "wi_data_size i \<le> MAX_WAV_BYTES"
  shows "parse_wav f True = Some (Inr i)"
proof -
  let ?f = "snd (fread 4 (snd (u32 (snd (fread 4 f)))))"
  have check: "wav_check j x y False = Inr i \<Longrightarrow> wav_check j x y True = Inr i" for j x y
    using assms(2) by (auto simp: wav_check_def split: if_splits)
  from assms(1) obtain r where r: "wav_loop ?f wav_zero False False = Some r"
      "(case r of Inl code \<Rightarrow> Inl code | Inr (i, x, y) \<Rightarrow> wav_check i x y False) = Inr i"
    by (auto simp: parse_wav_def Let_def case_prod_beta split: if_splits)
  then have "(case r of Inl code \<Rightarrow> Inl code | Inr (i, x, y) \<Rightarrow> wav_check i x y True) = Inr i"
    using check by (cases r) (auto split: prod.splits)
  with assms(1) r(1) show ?thesis by (simp add: parse_wav_def Let_def case_prod_beta split: if_splits)
qed

lemma load_clip_frames:
  assumes "fs path = Some (wav_file riff_size pre 2 48000 extra mid (frames_bytes frames) trailer)"
    and "length riff_size = 4" and "\<forall>c\<in>set (pre @ mid). other_chunk c" and "frames \<noteq> []"
    and "\<forall>(l, r)\<in>set frames. int16 l \<and> int16 r" and "4 * length frames \<le> MAX_WAV_BYTES"
    and "wav_data_off pre extra mid + 4 * length frames + 1 < 2 ^ 31" and "\<forall>n. alloc n"
  shows "\<exists>ev. load_clip fs alloc path = Some (Inr frames, ev)"
proof -
  let ?file = "wav_file riff_size pre 2 48000 extra mid (frames_bytes frames) trailer"
  have ne: "frames_bytes frames \<noteq> []" using assms(4) length_frames_bytes [of frames] by fastforce
  obtain i where i: "parse_wav (fopen ?file) False = Some (Inr i)" "wi_channels i = 2" "wi_rate i = 48000"
      "wi_data_size i = 4 * length frames" "segment (wi_data_off i) (wi_data_size i) ?file = frames_bytes frames"
    using parse_wav_encoded [OF assms(2,3) _ _ _ ne, of 2 48000 extra trailer] assms(7) by auto
  have p: "parse_wav (fopen ?file) True = Some (Inr i)"
    using parse_wav_enforce [OF i(1)] i(4) assms(6) by simp
  have len: "length frames \<le> 2 ^ 24" using assms(6) by (simp add: MAX_WAV_BYTES_def)
  have input: "samples16 (fst (fread (4 * length frames) (fopen ?file\<lparr>offset := wi_data_off i\<rparr>))) = interleave frames"
    using i(4,5) samples16_frames [OF assms(5)] by (simp add: fread_def fopen_def Let_def)
  have li: "length (interleave frames) = length frames * 2" using nth_interleave [of 0 frames] assms(4) by simp
  have frames: "those (map (clip_frame (interleave frames) 2 (length frames) 48000) [0..<length frames]) = Some frames"
  proof -
    have f: "clip_frame (interleave frames) 2 (length frames) 48000 x = Some (frames ! x)" if "x < length frames" for x
      using clip_frame_48k [OF assms(5) that] len by simp
    then have "those (map (clip_frame (interleave frames) 2 (length frames) 48000) [0..<length frames]) =
        Some (map (\<lambda>x. the (clip_frame (interleave frames) 2 (length frames) 48000 x)) [0..<length frames])"
      by (intro those_map_total) auto
    also have "map (\<lambda>x. the (clip_frame (interleave frames) 2 (length frames) 48000 x)) [0..<length frames] = frames"
      by (rule nth_equalityI) (simp_all add: f)
    finally show ?thesis .
  qed
  have sz: "size_t (length frames * 2) = length frames * 2" "size_t (length frames * 2 * 2) = length frames * 2 * 2"
    using len by (auto intro!: size_t_id)
  have out: "clip_output_frames (length frames) 48000 = length frames" using len by (intro clip_output_48k) simp
  have comm: "length frames * 2 * 2 = 4 * length frames" by simp
  have "resample (interleave frames) 2 (length frames) 48000 (length frames) (length frames * 2 * 2 div 2) = Some frames"
    using frames by (simp add: resample_def)
  then show ?thesis
    using assms(1,4,8) p i(2-4) sz out input li
    by (simp add: load_clip_def fseek_set_def Let_def comm)
qed

text \<open>
  C27.  Loading is exact at the output rate: a stereo file at 48 kHz, with any further chunks in
  it, loads as exactly the frames it was made from, when memory suffices.
\<close>

theorem load_clip_roundtrip:
  assumes "fs path = Some (wav_file riff_size pre 2 48000 extra mid (frames_bytes frames) trailer)"
    and "length riff_size = 4" and "\<forall>c\<in>set (pre @ mid). other_chunk c" and "frames \<noteq> []"
    and "\<forall>(l, r)\<in>set frames. int16 l \<and> int16 r" and "4 * length frames \<le> MAX_WAV_BYTES"
    and "wav_data_off pre extra mid + 4 * length frames + 1 < 2 ^ 31" and "\<forall>n. alloc n"
  shows "\<exists>ev. load_clip fs alloc path = Some (Inr frames, ev)"
  by (rule load_clip_frames [where fs = fs and path = path, OF assms])

theorem load_clip_roundtrip_witness:
  "\<exists>ev. load_clip [''a.wav'' \<mapsto> wav_file [0, 0, 0, 0] [(tag ''LIST'', [1])] 2 48000 [] []
      (frames_bytes [(1, - 1), (- 32768, 32767)]) [7]] (\<lambda>n. True) ''a.wav'' = Some (Inr [(1, - 1), (- 32768, 32767)], ev)"
  by (rule load_clip_roundtrip)
    (auto simp: other_chunk_def tag_def wav_data_off_def riff_chunk_def MAX_WAV_BYTES_def int16_def)

theorem load_clip_interpolates_witness:
  "\<exists>res ev. load_clip [''a.wav'' \<mapsto> demo_wav] (\<lambda>n. True) ''a.wav'' = Some (res, ev)"
proof -
  have bytes: "\<forall>b\<in>set demo_wav. b < 256"
    by (simp add: demo_wav_def wav_file_def riff_chunk_def fmt_payload_def tag_def le16_def le32_def)
  obtain i where i: "parse_wav (fopen demo_wav) False = Some (Inr i)" "wi_channels i = 2" "wi_rate i = 48000" "wi_data_size i = 8"
    using parse_wav_encoded [of "[0, 0, 0, 0]" "[(tag ''LIST'', [1])]" "[]" 2 48000 "[1, 0, 255, 255, 0, 128, 255, 127]" "[]" "[7]"]
    by (auto simp: demo_wav_def other_chunk_def wav_data_off_def riff_chunk_def tag_def)
  then have "parse_wav (fopen demo_wav) True = Some (Inr i)"
    by (intro parse_wav_enforce) (simp_all add: MAX_WAV_BYTES_def)
  moreover have "clip_output_frames (wi_data_size i div (wi_channels i * 2)) (wi_rate i) < 2 ^ 30"
    using i by (simp add: clip_output_frames_def OUT_RATE_def)
  ultimately show ?thesis
    using load_clip_interpolates [of "[''a.wav'' \<mapsto> demo_wav]" "''a.wav''" demo_wav i _ "\<lambda>n. True", OF _ bytes _ refl] by auto
qed

text \<open>
  Whatever the file and however memory runs out, \<open>load_clip\<close> closes the file and
  frees its input buffer exactly as often as it has opened and allocated them, and it leaves an
  output buffer behind only when it succeeds.
\<close>

theorem load_clip_releases:
  "case load_clip fs alloc path of
     None \<Rightarrow> True
   | Some (res, ev) \<Rightarrow>
       count_list ev FileOpened = count_list ev FileClosed \<and> count_list ev InputAllocated = count_list ev InputFreed \<and>
       count_list ev OutputAllocated = (case res of Inl _ \<Rightarrow> 0 | Inr _ \<Rightarrow> 1)"
  by (auto simp: load_clip_def Let_def split: option.splits sum.splits if_splits)

text \<open>
  The size of the output block wraps around for low sample rates: 22370 frames at a rate
  of 1 Hz resample to more than \<open>2^30\<close> frames, the block gets 72704 bytes, and the
  resampling loop leaves it.
\<close>

theorem load_clip_can_overflow:
  "clip_output_frames 22370 1 = 1073760000 \<and> size_t (clip_output_frames 22370 1 * 2 * 2) = 72704 \<and>
   resample input channels 22370 1 (clip_output_frames 22370 1) (size_t (clip_output_frames 22370 1 * 2 * 2) div 2) = None"
  by (simp add: clip_output_frames_def OUT_RATE_def size_t_def resample_def)

end
