(* ===== verification/Audio_Stream.thy ===== *)
theory Audio_Stream
  imports Wav
begin

text \<open>
  Streams of the audio module (src/src/modules/audio.c): the per-stream cache of decoded
  frames, its refill from a WAV file or from the Vorbis decoder, and \<open>mix_stream\<close>, which the
  mixer calls for every output frame.

  An open \<open>FILE\<close> is a handle, and \<open>files\<close> maps the open handles to what is in the
  file.  The Vorbis decoder is the Tremor library: a stream keeps the history of its decoder
  calls, and the answers are the record \<open>ogg_env\<close>.
\<close>

subsection \<open>Streams\<close>

definition STREAM_CACHE :: nat where "STREAM_CACHE = 4096"

datatype stream_type = STREAM_NONE | STREAM_WAV | STREAM_OGG

datatype ogg_call = OvPcmSeek int | OvRead nat

record ogg_env =
  ov_ret :: "ogg_call list \<Rightarrow> ogg_call \<Rightarrow> int"
  ov_sample :: "ogg_call list \<Rightarrow> nat \<Rightarrow> int"
  ov_hole :: int

type_synonym handle = nat

type_synonym file_table = "handle \<Rightarrow> nat list option"

record stream =
  s_used :: bool
  s_playing :: bool
  s_paused :: bool
  s_loop :: bool
  s_type :: stream_type
  s_f :: "handle option"
  s_info :: wav_info
  s_ogg :: "ogg_call list"
  s_ogg_file :: handle
  s_ogg_open :: bool
  ogg_decode_frame :: int
  s_rate :: nat
  s_channels :: nat
  s_frames :: int
  s_pos :: flt
  s_vol :: flt
  cache_start :: int
  cache_frames :: nat
  cache :: "int list"

text \<open>The stream that \<open>memset\<close> leaves.\<close>

definition stream_zero :: stream where
  "stream_zero =
     \<lparr>s_used = False, s_playing = False, s_paused = False, s_loop = False, s_type = STREAM_NONE, s_f = None,
      s_info = wav_zero, s_ogg = [], s_ogg_file = 0, s_ogg_open = False, ogg_decode_frame = 0, s_rate = 0,
      s_channels = 0, s_frames = 0, s_pos = Fin 0, s_vol = Fin 0, cache_start = 0, cache_frames = 0,
      cache = replicate (STREAM_CACHE * 2) 0\<rparr>"

subsection \<open>Refilling the cache\<close>


text \<open>\<open>(uint32_t)(s->frames - frame)\<close>, at most the cache's capacity.\<close>

definition fill_want :: "stream \<Rightarrow> int \<Rightarrow> nat" where
  "fill_want s frame = (let want = nat (to_u32 (s_frames s - frame)) in if want > STREAM_CACHE then STREAM_CACHE else want)"

text \<open>
  \<open>for (i = cache_frames; i > 0; i--)\<close>: each sample is read before a write to a higher index
  overwrites it.
\<close>

fun expand_mono :: "nat \<Rightarrow> int list \<Rightarrow> int list" where
  "expand_mono 0 c = c"
| "expand_mono (Suc i) c = (let v = c ! i in expand_mono i (c[i * 2 := v, i * 2 + 1 := v]))"

text \<open>
  \<open>stream_fill_wav\<close>: the boolean is False for the result -1.  \<open>None\<close>: undefined
  behaviour (the file is not open, the signed file offset overflows, a copy leaves the cache).
\<close>

definition stream_fill_wav :: "file_table \<Rightarrow> stream \<Rightarrow> int \<Rightarrow> (bool \<times> stream) option" where
  "stream_fill_wav files s frame =
     (case s_f s of
        None \<Rightarrow> Some (False, s)
      | Some h \<Rightarrow>
        if frame < 0 \<or> frame \<ge> s_frames s then Some (False, s)
        else let want = fill_want s frame;
                 off = int (wi_data_off (s_info s)) + to_s32 (frame * int (s_channels s) * 2) in
        if off \<ge> 2 ^ 31 then None
        else case files h of
          None \<Rightarrow> None
        | Some bytes \<Rightarrow>
          (case fseek_set off (fopen bytes) of
             None \<Rightarrow> Some (False, s)
           | Some f \<Rightarrow>
             let items = (if s_channels s = 2 then want * 2 else want);
                 got = samples16 (fst (fread (items * 2) f)) in
             (case write_at (cache s) 0 got of
                None \<Rightarrow> None
              | Some c \<Rightarrow>
                let n = (if s_channels s = 2 then length got div 2 else length got);
                    c = (if s_channels s = 2 then c else expand_mono n c) in
                Some (n \<noteq> 0, s\<lparr>cache := c, cache_frames := n, cache_start := frame\<rparr>))))"

text \<open>
  One read of the decoder in \<open>stream_fill_ogg\<close>.  \<open>OggMore\<close>: another pass of the loop.
\<close>

datatype ogg_pass = OggMore stream | OggBreak stream | OggError stream

definition ogg_copy :: "ogg_env \<Rightarrow> ogg_call list \<Rightarrow> stream \<Rightarrow> nat \<Rightarrow> stream option" where
  "ogg_copy env h s n =
     (let base = cache_frames s;
          src = (if s_channels s = 1 then concat (map (\<lambda>i. [ov_sample env h i, ov_sample env h i]) [0..<n])
                 else map (ov_sample env h) [0..<n * 2]) in
      map_option (\<lambda>c. s\<lparr>cache := c, cache_frames := base + n, ogg_decode_frame := ogg_decode_frame s + int n\<rparr>)
        (write_at (cache s) (base * 2) src))"

definition ogg_requested :: "nat \<Rightarrow> stream \<Rightarrow> nat" where
  "ogg_requested want s = min ((want - cache_frames s) * s_channels s * 2) (STREAM_CACHE * 2 * 2)"

definition ogg_decoded :: "ogg_env \<Rightarrow> ogg_call list \<Rightarrow> int \<Rightarrow> nat \<Rightarrow> stream \<Rightarrow> ogg_pass option" where
  "ogg_decoded env h bytes want s =
     (let decoded = nat (to_u32 bytes) div 2 div s_channels s; remaining = want - cache_frames s in
      if bytes = 0 then Some (OggBreak s)
      else if bytes < 0 then Some (if bytes = ov_hole env then OggMore s else OggError s)
      else if decoded = 0 then Some (OggMore s)
      else map_option OggMore (ogg_copy env h s (min decoded remaining)))"

definition ogg_read :: "ogg_env \<Rightarrow> nat \<Rightarrow> stream \<Rightarrow> ogg_pass option" where
  "ogg_read env want s =
     (let call = OvRead (ogg_requested want s); h = s_ogg s in
      ogg_decoded env h (ov_ret env h call) want (s\<lparr>s_ogg := call # h\<rparr>))"

partial_function (option) ogg_loop :: "ogg_env \<Rightarrow> nat \<Rightarrow> stream \<Rightarrow> (bool \<times> stream) option" where
  "ogg_loop env want s =
     (if cache_frames s < want
      then Option.bind (ogg_read env want s) (\<lambda>p. case p of
             OggMore s \<Rightarrow> ogg_loop env want s
           | OggBreak s \<Rightarrow> Some (cache_frames s \<noteq> 0, s)
           | OggError s \<Rightarrow> Some (False, s))
      else Some (cache_frames s \<noteq> 0, s))"

definition stream_fill_ogg :: "ogg_env \<Rightarrow> stream \<Rightarrow> int \<Rightarrow> (bool \<times> stream) option" where
  "stream_fill_ogg env s frame =
     (if \<not> s_ogg_open s \<or> frame < 0 \<or> frame \<ge> s_frames s then Some (False, s)
      else let want = fill_want s frame;
               seek = (ogg_decode_frame s \<noteq> frame);
               ok = (\<not> seek \<or> ov_ret env (s_ogg s) (OvPcmSeek frame) \<ge> 0);
               s = (if seek then s\<lparr>s_ogg := OvPcmSeek frame # s_ogg s\<rparr> else s) in
      if \<not> ok then Some (False, s)
      else let s = (if seek then s\<lparr>ogg_decode_frame := frame\<rparr> else s) in
      ogg_loop env want (s\<lparr>cache_start := frame, cache_frames := 0\<rparr>))"

definition stream_fill :: "ogg_env \<Rightarrow> file_table \<Rightarrow> stream \<Rightarrow> int \<Rightarrow> (bool \<times> stream) option" where
  "stream_fill env files s frame =
     (if frame < 0 \<or> frame \<ge> s_frames s then Some (False, s)
      else if cache_frames s \<noteq> 0 \<and> frame \<ge> cache_start s \<and> frame < cache_start s + int (cache_frames s)
      then Some (True, s)
      else case s_type s of
        STREAM_OGG \<Rightarrow> stream_fill_ogg env s frame
      | STREAM_WAV \<Rightarrow> stream_fill_wav files s frame
      | STREAM_NONE \<Rightarrow> Some (False, s))"

text \<open>The frame at a position, or nothing (-1).\<close>

definition stream_sample ::
  "ogg_env \<Rightarrow> file_table \<Rightarrow> stream \<Rightarrow> int \<Rightarrow> ((int \<times> int) option \<times> stream) option" where
  "stream_sample env files s frame =
     (case stream_fill env files s frame of
        None \<Rightarrow> None
      | Some (ok, s) \<Rightarrow>
        if \<not> ok then Some (None, s)
        else let offset = frame - cache_start s in
        if offset < 0 \<or> offset \<ge> int (cache_frames s) then Some (None, s)
        else case (cell (cache s) (nat offset * 2), cell (cache s) (nat offset * 2 + 1)) of
          (Some l, Some r) \<Rightarrow> Some (Some (l, r), s)
        | _ \<Rightarrow> None)"

subsection \<open>Mixing\<close>

text \<open>\<open>(int32_t)((l0 + (l1 - l0) * q) * gain)\<close>, in double precision.\<close>

definition stream_term :: "int \<Rightarrow> int \<Rightarrow> flt \<Rightarrow> flt \<Rightarrow> int option" where
  "stream_term l0 l1 q gain =
     to_int32 (fmul f64 (fadd f64 (of_c_int f64 l0) (fmul f64 (of_c_int f64 (l1 - l0)) q)) gain)"

text \<open>Adding to an \<open>int32_t\<close>: \<open>None\<close> on overflow.\<close>

definition add32 :: "int \<Rightarrow> int \<Rightarrow> int option" where
  "add32 a b = (if - (2 ^ 31) \<le> a + b \<and> a + b < 2 ^ 31 then Some (a + b) else None)"

definition accumulate :: "int \<times> int \<Rightarrow> int option \<Rightarrow> int option \<Rightarrow> (int \<times> int) option" where
  "accumulate acc l r =
     (case (l, r) of
        (Some l, Some r) \<Rightarrow> (case (add32 (fst acc) l, add32 (snd acc) r) of (Some l, Some r) \<Rightarrow> Some (l, r) | _ \<Rightarrow> None)
      | _ \<Rightarrow> None)"

definition stream_rewind :: "stream \<Rightarrow> stream" where
  "stream_rewind s =
     (let s = s\<lparr>s_pos := Fin 0, cache_frames := 0\<rparr> in
      if s_type s = STREAM_OGG then s\<lparr>ogg_decode_frame := - 1\<rparr> else s)"

text \<open>Interpolation between the frames at the position of the stream, and one step ahead.\<close>

definition mix_at ::
  "ogg_env \<Rightarrow> file_table \<Rightarrow> flt \<Rightarrow> stream \<Rightarrow> int \<times> int \<Rightarrow> ((int \<times> int) \<times> stream) option" where
  "mix_at env files master_volume s acc =
     (case to_int64 (s_pos s) of
        None \<Rightarrow> None
      | Some a \<Rightarrow>
        let b = (if a + 1 < s_frames s then a + 1 else a) in
        (case stream_sample env files s a of
           None \<Rightarrow> None
         | Some (None, s) \<Rightarrow> Some (acc, s\<lparr>s_playing := False\<rparr>)
         | Some (Some (l0, r0), s) \<Rightarrow>
           (case stream_sample env files s b of
              None \<Rightarrow> None
            | Some (second, s) \<Rightarrow>
              let (l1, r1) = (case second of None \<Rightarrow> (l0, r0) | Some lr \<Rightarrow> lr);
                  q = fsub f64 (s_pos s) (of_c_int f64 a);
                  gain = fmul f32 (s_vol s) master_volume;
                  pos = fadd f64 (s_pos s) (fdiv f64 (of_c_int f64 (int (s_rate s))) (of_c_int f64 (int OUT_RATE))) in
              map_option (\<lambda>acc. (acc, s\<lparr>s_pos := pos\<rparr>))
                (accumulate acc (stream_term l0 l1 q gain) (stream_term r0 r1 q gain)))))"

definition mix_stream ::
  "ogg_env \<Rightarrow> file_table \<Rightarrow> flt \<Rightarrow> stream \<Rightarrow> int \<times> int \<Rightarrow> ((int \<times> int) \<times> stream) option" where
  "mix_stream env files master_volume s acc =
     (if \<not> s_used s \<or> \<not> s_playing s \<or> s_paused s then Some (acc, s)
      else if flt_ge (s_pos s) (of_c_int f64 (s_frames s)) then
        (if s_loop s then mix_at env files master_volume (stream_rewind s) acc
         else Some (acc, s\<lparr>s_playing := False\<rparr>))
      else mix_at env files master_volume s acc)"

subsection \<open>The cache holds what is in the file\<close>

lemma expand_mono_nth:
  "2 * n \<le> length c \<Longrightarrow> length (expand_mono n c) = length c \<and>
   (\<forall>j. 2 * n \<le> j \<longrightarrow> expand_mono n c ! j = c ! j) \<and>
   (\<forall>k<n. expand_mono n c ! (k * 2) = c ! k \<and> expand_mono n c ! (k * 2 + 1) = c ! k)"
proof (induction n arbitrary: c)
  case (Suc i)
  let ?c = "c[i * 2 := c ! i, i * 2 + 1 := c ! i]"
  have ih: "length (expand_mono i ?c) = length ?c"
      "\<And>j. 2 * i \<le> j \<Longrightarrow> expand_mono i ?c ! j = ?c ! j"
      "\<And>k. k < i \<Longrightarrow> expand_mono i ?c ! (k * 2) = ?c ! k \<and> expand_mono i ?c ! (k * 2 + 1) = ?c ! k"
    using Suc.IH [of ?c] Suc.prems by auto
  have "expand_mono i ?c ! (k * 2) = c ! k \<and> expand_mono i ?c ! (k * 2 + 1) = c ! k" if "k < Suc i" for k
  proof (cases "k = i")
    case True
    with ih(2) [of "i * 2"] ih(2) [of "i * 2 + 1"] Suc.prems show ?thesis by simp
  next
    case False
    with that ih(3) [of k] show ?thesis by simp
  qed
  moreover have "expand_mono i ?c ! j = c ! j" if "2 * Suc i \<le> j" for j
    using ih(2) [of j] that by simp
  ultimately show ?case using ih(1) by (simp add: Let_def)
qed simp

lemma expand_mono_set: "2 * n \<le> length c \<Longrightarrow> set (expand_mono n c) \<subseteq> set c"
proof
  fix x assume n: "2 * n \<le> length c" and "x \<in> set (expand_mono n c)"
  then obtain j where j: "j < length c" "x = expand_mono n c ! j" using expand_mono_nth [OF n] by (auto simp: in_set_conv_nth)
  show "x \<in> set c"
  proof (cases "2 * n \<le> j")
    case True
    with j expand_mono_nth [OF n] show ?thesis by (metis nth_mem)
  next
    case False
    then have k: "j div 2 < n" by linarith
    have "j = j div 2 * 2 \<or> j = j div 2 * 2 + 1" by presburger
    with j k expand_mono_nth [OF n] have "x = c ! (j div 2)" by metis
    moreover have "j div 2 < length c" using k n by linarith
    ultimately show ?thesis by simp
  qed
qed

lemma samples16_drop: "samples16 (drop (2 * k) bs) = drop k (samples16 bs)"
proof (induction bs arbitrary: k rule: samples16.induct)
  case (1 a b bs)
  then show ?case by (cases k) auto
qed (auto simp: drop_Cons' split: nat.splits)

lemma samples16_take: "samples16 (take (2 * k) bs) = take k (samples16 bs)"
proof (induction bs arbitrary: k rule: samples16.induct)
  case (1 a b bs)
  then show ?case by (cases k) auto
qed (auto simp: take_Cons' split: nat.splits)

text \<open>The samples of the stream's file, and the frame at a position, as the file has them.\<close>

definition file_samples :: "stream \<Rightarrow> nat list \<Rightarrow> int list" where
  "file_samples s bytes = samples16 (drop (wi_data_off (s_info s)) bytes)"

definition file_frame :: "stream \<Rightarrow> nat list \<Rightarrow> int \<Rightarrow> (int \<times> int) option" where
  "file_frame s bytes frame =
     (if frame < 0 \<or> frame \<ge> s_frames s then None
      else input_frame (file_samples s bytes) (s_channels s) (nat frame))"

definition cache_shape :: "stream \<Rightarrow> bool" where
  "cache_shape s \<longleftrightarrow> length (cache s) = STREAM_CACHE * 2 \<and> cache_frames s \<le> STREAM_CACHE \<and> (\<forall>v\<in>set (cache s). int16 v)"

definition cache_holds :: "stream \<Rightarrow> nat list \<Rightarrow> bool" where
  "cache_holds s bytes \<longleftrightarrow> cache_shape s \<and> (cache_frames s \<noteq> 0 \<longrightarrow> 0 \<le> cache_start s) \<and>
     (\<forall>k<cache_frames s. Some (cache s ! (k * 2), cache s ! (k * 2 + 1)) =
        input_frame (file_samples s bytes) (s_channels s) (nat (cache_start s) + k))"

text \<open>A stream that plays an open WAV file below 2 GB.\<close>

definition wav_stream :: "file_table \<Rightarrow> stream \<Rightarrow> nat list \<Rightarrow> bool" where
  "wav_stream files s bytes \<longleftrightarrow> s_type s = STREAM_WAV \<and> (\<exists>h. s_f s = Some h \<and> files h = Some bytes) \<and>
     (s_channels s = 1 \<or> s_channels s = 2) \<and> int (wi_data_off (s_info s)) + s_frames s * int (s_channels s) * 2 < 2 ^ 31"

text \<open>Only the cache changes.\<close>

definition same_stream :: "stream \<Rightarrow> stream \<Rightarrow> bool" where
  "same_stream s s' \<longleftrightarrow>
     s_used s' = s_used s \<and> s_playing s' = s_playing s \<and> s_paused s' = s_paused s \<and> s_loop s' = s_loop s \<and>
     s_type s' = s_type s \<and> s_f s' = s_f s \<and> s_info s' = s_info s \<and> s_ogg_file s' = s_ogg_file s \<and>
     s_ogg_open s' = s_ogg_open s \<and> s_rate s' = s_rate s \<and> s_channels s' = s_channels s \<and>
     s_frames s' = s_frames s \<and> s_pos s' = s_pos s \<and> s_vol s' = s_vol s"

lemma same_stream_refl [simp]: "same_stream s s"
  by (simp add: same_stream_def)

lemma same_stream_trans: "same_stream s s' \<Longrightarrow> same_stream s' s'' \<Longrightarrow> same_stream s s''"
  by (simp add: same_stream_def)

lemma same_stream_file: "same_stream s s' \<Longrightarrow> file_frame s' bytes = file_frame s bytes \<and> wav_stream files s' bytes = wav_stream files s bytes"
  by (rule conjI, rule ext) (simp_all add: same_stream_def file_frame_def file_samples_def wav_stream_def)

lemma fseek_nat: "fseek_set (int n) f = Some (f\<lparr>offset := n\<rparr>)"
  by (simp add: fseek_set_def)

lemma samples_at:
  assumes "off = wi_data_off (s_info s) + 2 * k" and "fseek_set (int off) (fopen bytes) = Some f"
  shows "samples16 (fst (fread (n * 2) f)) = take n (drop k (file_samples s bytes))"
proof -
  have "fst (fread (n * 2) f) = take (2 * n) (drop (2 * k) (drop (wi_data_off (s_info s)) bytes))"
  proof -
    have "f = fopen bytes\<lparr>offset := off\<rparr>" using assms(2) unfolding fseek_nat by simp
    then show ?thesis by (simp add: assms(1) fread_def fopen_def segment_def Let_def mult.commute add.commute)
  qed
  then show ?thesis by (simp only: samples16_take samples16_drop file_samples_def)
qed

text \<open>What the stored samples are as frames, for both channel counts.\<close>

lemma stored_frames:
  assumes "ch = 1 \<or> ch = 2" and "got = take (n * ch) (drop (k0 * ch) S)" and "n \<le> STREAM_CACHE"
    and "length c0 = STREAM_CACHE * 2" and "write_at c0 0 got = Some c1"
    and "m = (if ch = 2 then length got div 2 else length got)" and "c = (if ch = 2 then c1 else expand_mono m c1)"
  shows "length c = STREAM_CACHE * 2 \<and> m \<le> n \<and> (\<forall>k<m. Some (c ! (k * 2), c ! (k * 2 + 1)) = input_frame S ch (k0 + k)) \<and>
    (0 < n \<longrightarrow> (m = 0 \<longleftrightarrow> input_frame S ch k0 = None)) \<and> set c \<subseteq> set got \<union> set c0"
proof -
  have len: "length got = min (n * ch) (length S - k0 * ch)" using assms(2) by simp
  have c1: "length c1 = STREAM_CACHE * 2" "take (length got) c1 = got" "set c1 \<subseteq> set got \<union> set c0"
    using assms(4,5) by (auto simp: write_at_def split: if_splits dest: in_set_dropD)
  have nth: "c1 ! j = S ! (k0 * ch + j)" if "j < length got" for j
  proof -
    have "c1 ! j = got ! j" using that c1(2) by (metis nth_take)
    also have "\<dots> = drop (k0 * ch) S ! j" using that len by (simp add: assms(2))
    also have "\<dots> = S ! (k0 * ch + j)" using that len by (intro nth_drop) linarith
    finally show ?thesis .
  qed
  show ?thesis
  proof (cases "ch = 2")
    case True
    have k: "Some (c1 ! (k * 2), c1 ! (k * 2 + 1)) = input_frame S 2 (k0 + k)" if "k < length got div 2" for k
    proof -
      have g: "k * 2 < length got" "k * 2 + 1 < length got" using that by linarith+
      then have "(k0 + k) * 2 + 1 < length S" using len True by simp
      with g nth [of "k * 2"] nth [of "k * 2 + 1"] True show ?thesis by (simp add: input_frame_def cell_def algebra_simps)
    qed
    have "length got div 2 \<le> n" using len True by simp
    moreover have "length got div 2 = 0 \<longleftrightarrow> input_frame S 2 k0 = None" if "0 < n"
      using len True that by (auto simp: input_frame_def cell_def)
    ultimately show ?thesis using True assms(6,7) c1 k by simp
  next
    case False
    with assms(1) have ch: "ch = 1" by simp
    have m: "m \<le> n" "m = length got" using len ch assms(6) by simp_all
    then have n2: "2 * m \<le> length c1" using assms(3) c1(1) by simp
    note e = expand_mono_nth [OF n2]
    have k: "Some (expand_mono m c1 ! (k * 2), expand_mono m c1 ! (k * 2 + 1)) = input_frame S 1 (k0 + k)" if "k < m" for k
    proof -
      have "k0 + k < length S" using that m len ch by auto
      with e that nth [of k] m ch show ?thesis by (simp add: input_frame_def cell_def)
    qed
    have "m = 0 \<longleftrightarrow> input_frame S 1 k0 = None" if "0 < n"
      using len m that ch by (auto simp: input_frame_def cell_def)
    with k m(1) e c1 ch assms(7) expand_mono_set [OF n2] show ?thesis by auto
  qed
qed

lemma fill_want_bounds:
  "s_frames s - frame < 2 ^ 32 \<Longrightarrow> frame < s_frames s \<Longrightarrow> 0 < fill_want s frame"
  "fill_want s frame \<le> STREAM_CACHE"
  by (auto simp: fill_want_def Let_def to_u32_id STREAM_CACHE_def)

text \<open>
  A refill from the file: it never misbehaves, and afterwards the cache starts at the wanted
  frame and holds what is in the file from there on.
\<close>

lemma stream_fill_wav_holds:
  assumes "wav_stream files s bytes" and "cache_shape s" and "0 \<le> frame" and "frame < s_frames s"
  shows "\<exists>ok s'. stream_fill_wav files s frame = Some (ok, s') \<and> cache_holds s' bytes \<and> same_stream s s' \<and>
    cache_start s' = frame \<and> ok = (cache_frames s' \<noteq> 0) \<and> (ok \<longleftrightarrow> file_frame s bytes frame \<noteq> None)"
proof -
  let ?ch = "s_channels s" and ?d = "wi_data_off (s_info s)" and ?S = "file_samples s bytes"
  obtain h where h: "s_f s = Some h" "files h = Some bytes" and ch: "?ch = 1 \<or> ?ch = 2"
    and lim: "int ?d + s_frames s * int ?ch * 2 < 2 ^ 31"
    using assms(1) by (auto simp: wav_stream_def)
  let ?k0 = "nat frame * ?ch"
  have le: "frame * int ?ch * 2 \<le> s_frames s * int ?ch * 2" using assms(4) by (simp add: mult_right_mono)
  have nonneg: "0 \<le> frame * int ?ch * 2" using assms(3) by simp
  have "to_s32 (frame * int ?ch * 2) = frame * int ?ch * 2" using le nonneg lim by (intro to_s32_id) linarith+
  then have off: "int ?d + to_s32 (frame * int ?ch * 2) = int (?d + 2 * ?k0)"
    using assms(3) by (simp add: algebra_simps)
  have off31: "int (?d + 2 * ?k0) < 2 ^ 31" using off le nonneg lim \<open>to_s32 _ = _\<close> by linarith
  obtain f where f: "fseek_set (int (?d + 2 * ?k0)) (fopen bytes) = Some f" using fseek_nat by blast
  let ?n = "fill_want s frame"
  let ?items = "if ?ch = 2 then ?n * 2 else ?n"
  have items: "?items = ?n * ?ch" using ch by auto
  let ?got = "samples16 (fst (fread (?items * 2) f))"
  have got: "?got = take (?n * ?ch) (drop ?k0 ?S)" using samples_at [OF refl f] items by simp
  have fr: "s_frames s - frame < 2 ^ 32"
  proof -
    have "s_frames s \<le> s_frames s * int ?ch * 2" using ch assms(3,4) by auto
    then show ?thesis using lim assms(3) by simp
  qed
  note nb = fill_want_bounds(1) [OF fr assms(4)] fill_want_bounds(2) [of s frame]
  have "length ?got \<le> length (cache s)" using got nb(2) ch assms(2) by (auto simp: cache_shape_def)
  then obtain c1 where c1: "write_at (cache s) 0 ?got = Some c1" using write_at_in_bounds [of 0 ?got "cache s"] by auto
  define m where "m = (if ?ch = 2 then length ?got div 2 else length ?got)"
  define c where "c = (if ?ch = 2 then c1 else expand_mono m c1)"
  have st: "length c = STREAM_CACHE * 2" "m \<le> ?n" "\<forall>k<m. Some (c ! (k * 2), c ! (k * 2 + 1)) = input_frame ?S ?ch (nat frame + k)"
      "m = 0 \<longleftrightarrow> input_frame ?S ?ch (nat frame) = None" "set c \<subseteq> set ?got \<union> set (cache s)"
    using stored_frames [OF ch got nb(2) _ c1 m_def c_def] assms(2) nb(1) by (auto simp: cache_shape_def)
  let ?s = "s\<lparr>cache := c, cache_frames := m, cache_start := frame\<rparr>"
  have fs: "file_samples ?s bytes = ?S" by (simp add: file_samples_def)
  have "stream_fill_wav files s frame = Some (m \<noteq> 0, ?s)"
    using h assms(3,4) off off31 f c1
    by (simp add: stream_fill_wav_def Let_def m_def [symmetric] c_def [symmetric])
  moreover have "cache_holds ?s bytes"
    using st nb(2) assms(2,3) fs samples16_int16 by (auto simp: cache_holds_def cache_shape_def)
  moreover have "same_stream s ?s" by (simp add: same_stream_def)
  moreover have "m \<noteq> 0 \<longleftrightarrow> file_frame s bytes frame \<noteq> None" using st(4) assms(3,4) by (simp add: file_frame_def)
  ultimately show ?thesis by auto
qed

text \<open>
  Reading through the cache is reading the file: whatever the cache holds, the frame delivered
  is the one in the file, and nothing is delivered where the file has none.
\<close>

lemma stream_sample_file:
  assumes "wav_stream files s bytes" and "cache_holds s bytes"
  shows "\<exists>s'. stream_sample env files s frame = Some (file_frame s bytes frame, s') \<and> cache_holds s' bytes \<and> same_stream s s'"
proof (cases "frame < 0 \<or> frame \<ge> s_frames s")
  case True
  with assms show ?thesis by (auto simp: stream_sample_def stream_fill_def file_frame_def)
next
  case False
  have hit: "stream_sample env files s frame = Some (file_frame s bytes frame, s') \<and> cache_holds s' bytes \<and> same_stream s s'"
    if "stream_fill env files s frame = Some (True, s')" "cache_holds s' bytes" "same_stream s s'"
      "cache_start s' \<le> frame" "frame < cache_start s' + int (cache_frames s')" for s'
  proof -
    let ?k = "nat (frame - cache_start s')"
    have k: "?k < cache_frames s'" "nat (cache_start s') + ?k = nat frame" using that(2,4,5) by (auto simp: cache_holds_def)
    then have "?k * 2 + 1 < length (cache s')" using that(2) by (auto simp: cache_holds_def cache_shape_def)
    moreover have "Some (cache s' ! (?k * 2), cache s' ! (?k * 2 + 1)) = input_frame (file_samples s' bytes) (s_channels s') (nat frame)"
      using that(2) k by (metis cache_holds_def)
    moreover have "file_samples s' bytes = file_samples s bytes" "s_channels s' = s_channels s"
      using that(3) by (simp_all add: same_stream_def file_samples_def)
    ultimately show ?thesis
      using that False by (auto simp: stream_sample_def cell_def file_frame_def Let_def)
  qed
  show ?thesis
  proof (cases "cache_frames s \<noteq> 0 \<and> frame \<ge> cache_start s \<and> frame < cache_start s + int (cache_frames s)")
    case True
    with False hit [of s] assms show ?thesis by (auto simp: stream_fill_def)
  next
    case miss: False
    have "cache_shape s" using assms(2) by (simp add: cache_holds_def)
    with stream_fill_wav_holds [OF assms(1)] False obtain ok s' where
      w: "stream_fill_wav files s frame = Some (ok, s')" "cache_holds s' bytes" "same_stream s s'" "cache_start s' = frame"
        "ok = (cache_frames s' \<noteq> 0)" "ok \<longleftrightarrow> file_frame s bytes frame \<noteq> None"
      by (metis linorder_not_le)
    have fill: "stream_fill env files s frame = Some (ok, s')"
      using False miss assms(1) w(1) by (auto simp: stream_fill_def wav_stream_def)
    show ?thesis
    proof (cases ok)
      case True
      with hit [of s'] fill w show ?thesis by auto
    next
      case False
      with w(6) have "file_frame s bytes frame = None" by blast
      with False fill w(2,3) show ?thesis by (simp add: stream_sample_def)
    qed
  qed
qed

subsection \<open>The decoder\<close>

text \<open>
  What is assumed of the decoder: it delivers 16-bit samples, and it does not report holes or
  fragments of a frame forever (some rank of its history goes down with each of them).
\<close>

definition ogg_live :: "ogg_env \<Rightarrow> bool" where
  "ogg_live env \<longleftrightarrow> (\<forall>h i. int16 (ov_sample env h i)) \<and>
     (\<exists>rank :: ogg_call list \<Rightarrow> nat. \<forall>h n.
        ov_ret env h (OvRead n) = ov_hole env \<or> nat (to_u32 (ov_ret env h (OvRead n))) < 4 \<and> ov_ret env h (OvRead n) \<noteq> 0 \<longrightarrow>
        rank (OvRead n # h) < rank h)"

lemma length_pairs: "length (concat (map (\<lambda>i. [f i, f i]) xs)) = 2 * length xs"
  by (induction xs) auto

lemma ogg_copy_shape:
  assumes "\<forall>h i. int16 (ov_sample env h i)" and "cache_shape s" and "cache_frames s + n \<le> STREAM_CACHE"
  shows "\<exists>s'. ogg_copy env h s n = Some s' \<and> cache_shape s' \<and> cache_frames s' = cache_frames s + n \<and>
    cache_start s' = cache_start s \<and> same_stream s s' \<and> s_ogg s' = s_ogg s"
proof -
  let ?src = "if s_channels s = 1 then concat (map (\<lambda>i. [ov_sample env h i, ov_sample env h i]) [0..<n])
    else map (ov_sample env h) [0..<n * 2]"
  have len: "length ?src = n * 2" by (simp add: length_pairs)
  have "cache_frames s * 2 + length ?src \<le> length (cache s)" using assms(2,3) len by (simp add: cache_shape_def)
  then obtain c where c: "write_at (cache s) (cache_frames s * 2) ?src = Some c" using write_at_in_bounds by blast
  have "set c \<subseteq> set (cache s) \<union> set ?src"
    using c by (auto simp: write_at_def split: if_splits dest: in_set_takeD in_set_dropD)
  moreover have "\<forall>v\<in>set ?src. int16 v" using assms(1) by auto
  ultimately have "\<forall>v\<in>set c. int16 v" using assms(2) by (auto simp: cache_shape_def)
  moreover have "length c = length (cache s)" using c by (rule write_at_length)
  ultimately show ?thesis
    using c assms(2,3) by (simp add: ogg_copy_def Let_def cache_shape_def same_stream_def)
qed

fun ogg_pass_ok :: "stream \<Rightarrow> nat \<Rightarrow> (ogg_call list \<Rightarrow> nat) \<Rightarrow> ogg_pass \<Rightarrow> bool" where
  "ogg_pass_ok s want rank (OggMore s') \<longleftrightarrow> cache_shape s' \<and> cache_start s' = cache_start s \<and> same_stream s s' \<and>
     (cache_frames s < cache_frames s' \<or> cache_frames s' = cache_frames s \<and> rank (s_ogg s') < rank (s_ogg s))"
| "ogg_pass_ok s want rank (OggBreak s') \<longleftrightarrow> cache_shape s' \<and> cache_start s' = cache_start s \<and> same_stream s s'"
| "ogg_pass_ok s want rank (OggError s') \<longleftrightarrow> cache_shape s' \<and> cache_start s' = cache_start s \<and> same_stream s s'"

lemma ogg_decoded_ok:
  assumes samples: "\<forall>h i. int16 (ov_sample env h i)"
    and s: "cache_shape s" "cache_frames s < want" "want \<le> STREAM_CACHE"
    and short: "bytes = ov_hole env \<or> nat (to_u32 bytes) div 2 div s_channels s = 0 \<and> bytes \<noteq> 0 \<Longrightarrow>
      rank (s_ogg s) < rank h"
    and s0: "same_stream s0 s" "cache_frames s0 = cache_frames s" "cache_start s0 = cache_start s" "s_ogg s0 = h"
  shows "\<exists>p. ogg_decoded env h bytes want s = Some p \<and> ogg_pass_ok s0 want rank p"
proof -
  define decoded where "decoded = nat (to_u32 bytes) div 2 div s_channels s"
  define n where "n = min decoded (want - cache_frames s)"
  have eq: "ogg_decoded env h bytes want s =
     (if bytes = 0 then Some (OggBreak s)
      else if bytes < 0 then Some (if bytes = ov_hole env then OggMore s else OggError s)
      else if decoded = 0 then Some (OggMore s) else map_option OggMore (ogg_copy env h s n))"
    by (simp only: ogg_decoded_def Let_def decoded_def n_def)
  have "cache_frames s + n \<le> STREAM_CACHE" using s(2,3) by (simp add: n_def)
  from ogg_copy_shape [OF samples s(1) this, of h] obtain s' where
    s': "ogg_copy env h s n = Some s'" "cache_shape s'" "cache_frames s' = cache_frames s + n"
      "cache_start s' = cache_start s" "same_stream s s'"
    by blast
  have pos: "0 < n" if "decoded \<noteq> 0" using that s(2) by (simp add: n_def)
  show ?thesis
  proof (cases "bytes > 0 \<and> decoded \<noteq> 0")
    case True
    with pos s0 s' same_stream_trans [OF s0(1) s'(5)] show ?thesis unfolding eq by simp
  next
    case False
    with short s(1) s0 show ?thesis unfolding eq by (auto simp: decoded_def [symmetric])
  qed
qed

lemma ogg_read_ok:
  assumes samples: "\<forall>h i. int16 (ov_sample env h i)"
    and rank: "\<forall>h n. ov_ret env h (OvRead n) = ov_hole env \<or> nat (to_u32 (ov_ret env h (OvRead n))) < 4 \<and> ov_ret env h (OvRead n) \<noteq> 0 \<longrightarrow>
        rank (OvRead n # h) < rank h"
    and "cache_shape s" and "cache_frames s < want" and "want \<le> STREAM_CACHE" and ch: "s_channels s = 1 \<or> s_channels s = 2"
  shows "\<exists>p. ogg_read env want s = Some p \<and> ogg_pass_ok s want rank p"
proof -
  let ?h = "s_ogg s" and ?call = "OvRead (ogg_requested want s)"
  have div4: "n div 2 div c = 0 \<Longrightarrow> n < 4" if "c = 1 \<or> c = 2" for n c :: nat using that by (elim disjE) simp_all
  show ?thesis
    unfolding ogg_read_def Let_def
  proof (rule ogg_decoded_ok [OF samples])
    show "ov_ret env ?h ?call = ov_hole env \<or> nat (to_u32 (ov_ret env ?h ?call)) div 2 div s_channels (s\<lparr>s_ogg := ?call # ?h\<rparr>) = 0 \<and>
        ov_ret env ?h ?call \<noteq> 0 \<Longrightarrow> rank (s_ogg (s\<lparr>s_ogg := ?call # ?h\<rparr>)) < rank ?h"
      using rank div4 [OF ch] by auto
  qed (use assms(3-5) in \<open>simp_all add: cache_shape_def same_stream_def\<close>)
qed

lemma ogg_loop_total:
  assumes "ogg_live env" and "cache_shape s" and "want \<le> STREAM_CACHE" and "s_channels s = 1 \<or> s_channels s = 2"
  shows "\<exists>ok s'. ogg_loop env want s = Some (ok, s') \<and> cache_shape s' \<and> cache_start s' = cache_start s \<and>
    same_stream s s' \<and> (ok \<longrightarrow> cache_frames s' \<noteq> 0)"
proof -
  obtain rank :: "ogg_call list \<Rightarrow> nat" where env: "\<forall>h i. int16 (ov_sample env h i)"
    "\<forall>h n. ov_ret env h (OvRead n) = ov_hole env \<or> nat (to_u32 (ov_ret env h (OvRead n))) < 4 \<and> ov_ret env h (OvRead n) \<noteq> 0 \<longrightarrow>
        rank (OvRead n # h) < rank h"
    using assms(1) unfolding ogg_live_def by blast
  have "wf (inv_image (less_than <*lex*> less_than) (\<lambda>s. (want - cache_frames s, rank (s_ogg s))))" by (auto intro: wf_inv_image)
  then show ?thesis using assms(2,4)
  proof (induction s rule: wf_induct_rule)
    case (less s)
    show ?case
    proof (cases "cache_frames s < want")
      case False
      with less.prems show ?thesis by (subst ogg_loop.simps) simp
    next
      case True
      obtain p where p: "ogg_read env want s = Some p" "ogg_pass_ok s want rank p"
        using ogg_read_ok [OF env less.prems(1) True assms(3) less.prems(2)] by blast
      show ?thesis
      proof (cases p)
        case (OggMore s')
        with p True have "(s', s) \<in> inv_image (less_than <*lex*> less_than) (\<lambda>s. (want - cache_frames s, rank (s_ogg s)))" by auto
        moreover have "cache_shape s'" "s_channels s' = 1 \<or> s_channels s' = 2" "same_stream s s'" "cache_start s' = cache_start s"
          using p OggMore less.prems(2) by (auto simp: same_stream_def)
        ultimately obtain ok s2 where "ogg_loop env want s' = Some (ok, s2)" "cache_shape s2" "cache_start s2 = cache_start s"
            "same_stream s s2" "ok \<longrightarrow> cache_frames s2 \<noteq> 0"
          using less.IH [of s'] same_stream_trans by metis
        with p(1) OggMore True show ?thesis by (subst ogg_loop.simps) simp
      next
        case (OggBreak s')
        with p True show ?thesis by (subst ogg_loop.simps) auto
      next
        case (OggError s')
        with p True show ?thesis by (subst ogg_loop.simps) auto
      qed
    qed
  qed
qed

lemma same_stream_cache:
  "same_stream s (s\<lparr>cache_start := a, cache_frames := n\<rparr>)" "same_stream s (s\<lparr>s_ogg := h\<rparr>)"
  "same_stream s (s\<lparr>s_ogg := h, ogg_decode_frame := d, cache_start := a, cache_frames := n\<rparr>)"
  by (simp_all add: same_stream_def)

lemma stream_fill_ogg_total:
  assumes "ogg_live env" and "cache_shape s" and "s_channels s = 1 \<or> s_channels s = 2"
  shows "\<exists>ok s'. stream_fill_ogg env s frame = Some (ok, s') \<and> cache_shape s' \<and> same_stream s s' \<and>
    (ok \<longrightarrow> cache_frames s' \<noteq> 0 \<and> cache_start s' = frame)"
proof -
  have run: "\<exists>ok s'. ogg_loop env (fill_want s frame) t = Some (ok, s') \<and> cache_shape s' \<and> same_stream s s' \<and>
      (ok \<longrightarrow> cache_frames s' \<noteq> 0 \<and> cache_start s' = frame)"
    if t: "same_stream s t" "cache t = cache s" "cache_frames t = 0" "cache_start t = frame" for t
  proof -
    have "cache_shape t" "s_channels t = 1 \<or> s_channels t = 2"
      using t assms(2,3) by (auto simp: cache_shape_def same_stream_def)
    from ogg_loop_total [OF assms(1) this(1) fill_want_bounds(2) this(2), of s frame] t(1,4) same_stream_trans
    show ?thesis by blast
  qed
  let ?seek = "s\<lparr>s_ogg := OvPcmSeek frame # s_ogg s\<rparr>"
  have "same_stream s ?seek" "cache_shape ?seek" using assms(2) by (simp_all add: same_stream_def cache_shape_def)
  moreover have "\<exists>ok s'. ogg_loop env (fill_want s frame) (?seek\<lparr>ogg_decode_frame := frame, cache_start := frame, cache_frames := 0\<rparr>) = Some (ok, s') \<and>
      cache_shape s' \<and> same_stream s s' \<and> (ok \<longrightarrow> cache_frames s' \<noteq> 0 \<and> cache_start s' = frame)"
    by (rule run) (simp_all add: same_stream_def)
  moreover have "\<exists>ok s'. ogg_loop env (fill_want s frame) (s\<lparr>cache_start := frame, cache_frames := 0\<rparr>) = Some (ok, s') \<and>
      cache_shape s' \<and> same_stream s s' \<and> (ok \<longrightarrow> cache_frames s' \<noteq> 0 \<and> cache_start s' = frame)"
    by (rule run) (simp_all add: same_stream_def)
  ultimately show ?thesis using assms(2) by (auto simp: stream_fill_ogg_def Let_def)
qed

lemma stream_sample_ogg:
  assumes "ogg_live env" and "cache_shape s" and "s_channels s = 1 \<or> s_channels s = 2" and "s_type s = STREAM_OGG"
  shows "\<exists>res s'. stream_sample env files s frame = Some (res, s') \<and> cache_shape s' \<and> same_stream s s' \<and>
    (\<forall>l r. res = Some (l, r) \<longrightarrow> int16 l \<and> int16 r)"
proof -
  have fill: "\<exists>ok s'. stream_fill env files s frame = Some (ok, s') \<and> cache_shape s' \<and> same_stream s s'"
    using stream_fill_ogg_total [OF assms(1-3), of frame] assms(2,4) by (auto simp: stream_fill_def)
  then obtain ok s' where f: "stream_fill env files s frame = Some (ok, s')" "cache_shape s'" "same_stream s s'" by blast
  show ?thesis
  proof (cases "ok \<and> 0 \<le> frame - cache_start s' \<and> frame - cache_start s' < int (cache_frames s')")
    case False
    then have "stream_sample env files s frame = Some (None, s')" using f(1) by (auto simp: stream_sample_def Let_def)
    with f(2,3) show ?thesis by blast
  next
    case True
    define k where "k = nat (frame - cache_start s')"
    have k: "k * 2 < length (cache s')" "k * 2 + 1 < length (cache s')"
      using True f(2) by (auto simp: k_def cache_shape_def)
    have "stream_sample env files s frame = Some (Some (cache s' ! (k * 2), cache s' ! (k * 2 + 1)), s')"
      using True f(1) k by (simp add: stream_sample_def Let_def cell_def k_def [symmetric])
    moreover have "int16 (cache s' ! (k * 2))" "int16 (cache s' ! (k * 2 + 1))" using k f(2) by (simp_all add: cache_shape_def)
    ultimately show ?thesis using f(2,3) by blast
  qed
qed

subsection \<open>Mixing a source of frames\<close>

text \<open>A volume from 0 to 1.\<close>

definition unit_vol :: "flt \<Rightarrow> bool" where
  "unit_vol v \<longleftrightarrow> (\<exists>t. v = Fin t \<and> 0 \<le> t \<and> t \<le> 1)"

lemma unit_vol_mul: "unit_vol v \<Longrightarrow> unit_vol w \<Longrightarrow> unit_vol (fmul f32 v w)"
proof -
  assume "unit_vol v" "unit_vol w"
  then obtain s t where st: "v = Fin s" "0 \<le> s" "s \<le> 1" "w = Fin t" "0 \<le> t" "t \<le> 1" by (auto simp: unit_vol_def)
  then have "0 \<le> s * t" "s * t \<le> 1" by (auto intro: mult_le_one)
  with b32.fround_unit [of "s * t"] st show ?thesis by (auto simp: unit_vol_def)
qed

text \<open>A value between two integers of different sign, scaled down and rounded, stays there.\<close>

lemma scaled_int16:
  fixes z g :: rat
  assumes "int16 lo" and "int16 hi" and "lo \<le> 0" and "0 \<le> hi" and "of_int lo \<le> z" and "z \<le> of_int hi"
    and "0 \<le> g" and "g \<le> 1"
  shows "(\<exists>v. to_int32 (f64 (z * g)) = Some v \<and> int16 v) \<and> (\<exists>v. to_int32 (f32 (z * g)) = Some v \<and> int16 v)"
proof -
  have b: "of_int lo \<le> z * g \<and> z * g \<le> of_int hi"
  proof (cases "0 \<le> z")
    case True
    then have "0 \<le> z * g" "z * g \<le> z" using assms(7,8) by (simp_all add: mult_left_le)
    with assms(3,6) show ?thesis by (auto intro: order_trans [of _ 0])
  next
    case False
    then have "z * g \<le> 0" "z * 1 \<le> z * g"
      using assms(7,8) by (auto simp: mult_nonpos_nonneg intro: mult_left_mono_neg)
    with assms(4,5) show ?thesis by (auto intro: order_trans [of _ 0])
  qed
  have lh: "(- 32768 :: rat) \<le> of_int lo" "(of_int hi :: rat) \<le> 32767"
    using assms(1,2) by (simp_all add: int16_def)
  have "\<bar>z * g\<bar> \<le> 32768" using b lh by (intro abs_leI) linarith+
  then have small: "\<bar>z * g\<bar> < 2 ^ 53" "\<bar>z * g\<bar> < 2 ^ 24" by simp_all
  have small': "\<bar>lo\<bar> \<le> 2 ^ 53" "\<bar>hi\<bar> \<le> 2 ^ 53" "\<bar>lo\<bar> \<le> 2 ^ 24" "\<bar>hi\<bar> \<le> 2 ^ 24" using assms(1,2) by (auto simp: int16_def)
  have cut: "\<exists>v. to_int32 (Fin y) = Some v \<and> int16 v" if "of_int lo \<le> y" "y \<le> of_int hi" for y
  proof -
    from that have "lo \<le> rtrunc y \<and> rtrunc y \<le> hi" by (rule rtrunc_between)
    then have "int16 (rtrunc y)" using assms(1,2) by (auto simp: int16_def)
    then show ?thesis by (auto simp: to_int32_def int16_def)
  qed
  obtain y where y: "f64 (z * g) = Fin y" "of_int lo \<le> y" "y \<le> of_int hi"
    using b64.fround_between [of lo "z * g" hi] b small small' by blast
  obtain w where w: "f32 (z * g) = Fin w" "of_int lo \<le> w" "w \<le> of_int hi"
    using b32.fround_between [of lo "z * g" hi] b small small' by blast
  show ?thesis using cut [OF y(2,3)] cut [OF w(2,3)] by (simp only: y(1) w(1))
qed

lemma stream_term_int16:
  assumes "int16 l0" and "int16 l1" and "0 \<le> t" and "t \<le> 1" and "unit_vol gain"
  shows "\<exists>v. stream_term l0 l1 (Fin t) gain = Some v \<and> int16 v"
proof -
  obtain g where g: "gain = Fin g" "0 \<le> g" "g \<le> 1" using assms(5) by (auto simp: unit_vol_def)
  obtain z where z: "fadd f64 (of_c_int f64 l0) (fmul f64 (of_c_int f64 (l1 - l0)) (Fin t)) = Fin z"
      "of_int (min l0 l1) \<le> z" "z \<le> of_int (max l0 l1)"
    using lerp_between [OF assms(1-4)] by blast
  let ?lo = "min 0 (min l0 l1)" and ?hi = "max 0 (max l0 l1)"
  have "int16 ?lo" "int16 ?hi" using assms(1,2) by (auto simp: int16_def min_def max_def)
  moreover have "of_int ?lo \<le> z" "z \<le> of_int ?hi" using z(2,3) by auto
  ultimately show ?thesis
    using scaled_int16 [of ?lo ?hi z g] g by (simp add: stream_term_def z(1))
qed

definition headroom :: "int \<Rightarrow> int \<times> int \<Rightarrow> bool" where
  "headroom n acc \<longleftrightarrow> \<bar>fst acc\<bar> \<le> n * 32768 \<and> \<bar>snd acc\<bar> \<le> n * 32768"

lemma accumulate_headroom:
  assumes "headroom n acc" and "0 \<le> n" and "n < 60000" and "int16 l" and "int16 r"
  shows "\<exists>acc'. accumulate acc (Some l) (Some r) = Some acc' \<and> headroom (n + 1) acc'"
proof -
  have "\<bar>fst acc\<bar> \<le> n * 32768" "\<bar>snd acc\<bar> \<le> n * 32768" "\<bar>l\<bar> \<le> 32768" "\<bar>r\<bar> \<le> 32768"
    using assms by (auto simp: headroom_def int16_def)
  then have "\<bar>fst acc + l\<bar> \<le> (n + 1) * 32768 \<and> \<bar>snd acc + r\<bar> \<le> (n + 1) * 32768"
    using abs_triangle_ineq [of "fst acc" l] abs_triangle_ineq [of "snd acc" r] by (auto simp: distrib_right)
  moreover have "(n + 1) * 32768 < 2 ^ 31" using assms(3) by simp
  ultimately have "add32 (fst acc) l = Some (fst acc + l)" "add32 (snd acc) r = Some (snd acc + r)"
    "headroom (n + 1) (fst acc + l, snd acc + r)" by (auto simp: add32_def headroom_def)
  then show ?thesis by (simp add: accumulate_def)
qed

text \<open>Moving a position on by one output frame.\<close>

lemma position_step:
  assumes "0 \<le> p" and "p < 2 ^ 52" and "rate < 2 ^ 32"
  shows "\<exists>p'. fadd f64 (Fin p) (fdiv f64 (of_c_int f64 (int rate)) (of_c_int f64 (int OUT_RATE))) = Fin p' \<and> 0 \<le> p'"
proof -
  have r: "(of_nat rate :: rat) < 2 ^ 32" using assms(3) by (metis of_nat_less_iff of_nat_numeral of_nat_power)
  then have "(0 :: rat) \<le> of_nat rate / 48000" "of_nat rate / 48000 \<le> (of_int 100000 :: rat)" by (simp_all add: divide_le_eq)
  moreover from this have "\<bar>of_nat rate / 48000 :: rat\<bar> < 2 ^ 53" by simp
  ultimately obtain y where y: "f64 (of_nat rate / 48000) = Fin y" "0 \<le> y" "y \<le> 100000"
    using b64.fround_between [of 0 "of_nat rate / 48000" 100000] by auto
  have sum: "0 \<le> p + y" "p + y < 2 ^ 53" using assms(1,2) y(2,3) by simp_all
  then obtain p' where "f64 (p + y) = Fin p'" "0 \<le> p'"
    using b64.fround_between [of 0 "p + y" "2 ^ 53"] by auto
  then show ?thesis using y(1) assms(3) by (simp add: of_c_int64 OUT_RATE_def)
qed

text \<open>
  The interface between the mixer and a stream: reading a frame never misbehaves, delivers
  16-bit samples and changes nothing but the cache.  Everything the mixer does with a stream is
  proved from it.
\<close>

locale frame_source =
  fixes env :: ogg_env and files :: file_table and source_ok :: "stream \<Rightarrow> bool"
  assumes sample_total: "source_ok s \<Longrightarrow> \<exists>res s'. stream_sample env files s frame = Some (res, s') \<and> source_ok s' \<and>
      same_stream s s' \<and> (\<forall>l r. res = Some (l, r) \<longrightarrow> int16 l \<and> int16 r)"
    and source_control: "source_ok (s\<lparr>s_playing := b, s_pos := p\<rparr>) = source_ok s"
    and source_empty: "source_ok s \<Longrightarrow> source_ok (s\<lparr>cache_frames := 0, ogg_decode_frame := d\<rparr>)"
begin

lemma source_pos: "source_ok (s\<lparr>s_pos := p\<rparr>) = source_ok s"
  using source_control [where s = s and b = "s_playing s" and p = p] by simp

lemma source_playing: "source_ok (s\<lparr>s_playing := b\<rparr>) = source_ok s"
  using source_control [where s = s and b = b and p = "s_pos s"] by simp

lemma mix_at_total:
  assumes "source_ok s" and "s_pos s = Fin p" and "0 \<le> p" and "p < of_int (s_frames s) \<or> p = 0" and "s_frames s < 2 ^ 52"
    and "s_rate s < 2 ^ 32" and "unit_vol (s_vol s)" and "unit_vol master" and "headroom n acc" and "0 \<le> n" and "n < 60000"
  shows "\<exists>acc' s' p'. mix_at env files master s acc = Some (acc', s') \<and> headroom (n + 1) acc' \<and> source_ok s' \<and>
    same_stream (s\<lparr>s_playing := s_playing s', s_pos := Fin p'\<rparr>) s' \<and> 0 \<le> p'"
proof -
  let ?a = "\<lfloor>p\<rfloor>"
  have p52: "p < 2 ^ 52"
  proof -
    have "(of_int (s_frames s) :: rat) < of_int (2 ^ 52)" using assms(5) by (simp only: of_int_less_iff)
    with assms(4) show ?thesis by auto
  qed
  then have "?a < 2 ^ 52" by (simp add: floor_less_iff)
  moreover have a0: "0 \<le> ?a" using assms(3) by simp
  ultimately have a: "to_int64 (s_pos s) = Some ?a" "\<bar>?a\<bar> < 2 ^ 53" using assms(2,3) by (simp_all add: to_int64_def rtrunc_floor)
  obtain r1 s1 where 1: "stream_sample env files s ?a = Some (r1, s1)" "source_ok s1" "same_stream s s1"
      "\<forall>l r. r1 = Some (l, r) \<longrightarrow> int16 l \<and> int16 r"
    using sample_total [OF assms(1)] by blast
  let ?b = "if ?a + 1 < s_frames s then ?a + 1 else ?a"
  obtain r2 s2 where 2: "stream_sample env files s1 ?b = Some (r2, s2)" "source_ok s2" "same_stream s1 s2"
      "\<forall>l r. r2 = Some (l, r) \<longrightarrow> int16 l \<and> int16 r"
    using sample_total [OF 1(2)] by blast
  have hr: "headroom (n + 1) acc" using assms(9,10) by (auto simp: headroom_def)
  show ?thesis
  proof (cases r1)
    case None
    then have "mix_at env files master s acc = Some (acc, s1\<lparr>s_playing := False\<rparr>)"
      using a(1) 1(1) by (simp add: mix_at_def Let_def)
    with hr 1(2,3) source_playing assms(2,3) show ?thesis by (intro exI [of _ acc] exI [of _ "s1\<lparr>s_playing := False\<rparr>"] exI [of _ p]) (auto simp: same_stream_def)
  next
    case (Some lr)
    obtain l0 r0 where lr: "lr = (l0, r0)" by fastforce
    obtain l1 r1' where lr2: "(case r2 of None \<Rightarrow> (l0, r0) | Some lr \<Rightarrow> lr) = (l1, r1')" by fastforce
    have i16: "int16 l0" "int16 r0" "int16 l1" "int16 r1'"
      using 1(4) 2(4) Some lr lr2 by (auto split: option.splits)
    have ss: "same_stream s s2" using 1(3) 2(3) by (rule same_stream_trans)
    have pos2: "s_pos s2 = Fin p" "s_vol s2 = s_vol s" "s_rate s2 = s_rate s" using ss assms(2) by (simp_all add: same_stream_def)
    have "0 \<le> p - of_int ?a" "p - of_int ?a \<le> 1" by linarith+
    from b64.fround_unit [OF this] obtain q where q: "f64 (p - of_int ?a) = Fin q" "0 \<le> q" "q \<le> 1" by blast
    have fq: "fsub f64 (s_pos s2) (of_c_int f64 ?a) = Fin q" using q(1) a(2) pos2(1) by (simp add: fsub_def of_c_int64)
    have gain: "unit_vol (fmul f32 (s_vol s2) master)" using assms(7,8) pos2(2) unit_vol_mul by simp
    obtain l where l: "stream_term l0 l1 (Fin q) (fmul f32 (s_vol s2) master) = Some l" "int16 l"
      using stream_term_int16 [OF i16(1,3) q(2,3) gain] by blast
    obtain r where r: "stream_term r0 r1' (Fin q) (fmul f32 (s_vol s2) master) = Some r" "int16 r"
      using stream_term_int16 [OF i16(2,4) q(2,3) gain] by blast
    obtain acc' where acc': "accumulate acc (Some l) (Some r) = Some acc'" "headroom (n + 1) acc'"
      using accumulate_headroom [OF assms(9-11) l(2) r(2)] by blast
    obtain p' where p': "fadd f64 (Fin p) (fdiv f64 (of_c_int f64 (int (s_rate s2))) (of_c_int f64 (int OUT_RATE))) = Fin p'" "0 \<le> p'"
      using position_step [OF assms(3) p52 assms(6)] pos2(3) by auto
    have "mix_at env files master s acc = Some (acc', s2\<lparr>s_pos := Fin p'\<rparr>)"
      using a(1) 1(1) 2(1) Some lr lr2 fq l(1) r(1) acc'(1) p'(1) pos2(1) by (simp add: mix_at_def Let_def)
    moreover have "same_stream (s\<lparr>s_playing := s_playing (s2\<lparr>s_pos := Fin p'\<rparr>), s_pos := Fin p'\<rparr>) (s2\<lparr>s_pos := Fin p'\<rparr>)"
      using ss by (simp add: same_stream_def)
    ultimately show ?thesis using acc'(2) p'(2) 2(2) source_pos by blast
  qed
qed

end

definition wav_source :: "file_table \<Rightarrow> stream \<Rightarrow> bool" where
  "wav_source files s \<longleftrightarrow> (\<exists>bytes. wav_stream files s bytes \<and> cache_holds s bytes)"

definition ogg_source :: "stream \<Rightarrow> bool" where
  "ogg_source s \<longleftrightarrow> s_type s = STREAM_OGG \<and> s_ogg_open s \<and> cache_shape s \<and> (s_channels s = 1 \<or> s_channels s = 2)"

interpretation wav_src: frame_source env files "wav_source files" for env files
proof unfold_locales
  fix s frame
  assume "wav_source files s"
  then obtain bytes where s: "wav_stream files s bytes" "cache_holds s bytes" by (auto simp: wav_source_def)
  obtain s' where s': "stream_sample env files s frame = Some (file_frame s bytes frame, s')" "cache_holds s' bytes" "same_stream s s'"
    using stream_sample_file [OF s] by blast
  moreover have "wav_source files s'" using s' s(1) same_stream_file [OF s'(3)] by (auto simp: wav_source_def)
  moreover have "int16 l \<and> int16 r" if "file_frame s bytes frame = Some (l, r)" for l r
    using that input_frame_int16 by (auto simp: file_frame_def file_samples_def split: if_splits)
  ultimately show "\<exists>res s'. stream_sample env files s frame = Some (res, s') \<and> wav_source files s' \<and> same_stream s s' \<and>
      (\<forall>l r. res = Some (l, r) \<longrightarrow> int16 l \<and> int16 r)" by blast
next
  fix s b p
  show "wav_source files (s\<lparr>s_playing := b, s_pos := p\<rparr>) = wav_source files s"
    by (simp add: wav_source_def wav_stream_def cache_holds_def cache_shape_def file_samples_def)
next
  fix s d
  assume "wav_source files s"
  then show "wav_source files (s\<lparr>cache_frames := 0, ogg_decode_frame := d\<rparr>)"
    by (simp add: wav_source_def wav_stream_def cache_holds_def cache_shape_def) blast
qed

text \<open>The decoder as a source, for a decoder that is \<open>ogg_live\<close>.\<close>

definition ogg_source_of :: "ogg_env \<Rightarrow> stream \<Rightarrow> bool" where
  "ogg_source_of env s \<longleftrightarrow> ogg_live env \<and> ogg_source s"

interpretation ogg_src: frame_source env files "ogg_source_of env" for env files
proof unfold_locales
  fix s frame
  assume "ogg_source_of env s"
  then have live: "ogg_live env" and s: "cache_shape s" "s_channels s = 1 \<or> s_channels s = 2" "s_type s = STREAM_OGG" "s_ogg_open s"
    by (auto simp: ogg_source_of_def ogg_source_def)
  obtain res s' where s': "stream_sample env files s frame = Some (res, s')" "cache_shape s'" "same_stream s s'"
      "\<forall>l r. res = Some (l, r) \<longrightarrow> int16 l \<and> int16 r"
    using stream_sample_ogg [OF live s(1-3)] by blast
  moreover have "ogg_source_of env s'" using live s s'(2,3) by (simp add: ogg_source_of_def ogg_source_def same_stream_def)
  ultimately show "\<exists>res s'. stream_sample env files s frame = Some (res, s') \<and> ogg_source_of env s' \<and> same_stream s s' \<and>
      (\<forall>l r. res = Some (l, r) \<longrightarrow> int16 l \<and> int16 r)" by blast
qed (simp_all add: ogg_source_of_def ogg_source_def cache_shape_def)

subsection \<open>A stream in the mixer\<close>

text \<open>
  The invariant of a stream slot.  \<open>stream_params\<close> is what the mixer computes with,
  \<open>stream_ok\<close> adds the source of the frames; a slot that is not in use is never read.
\<close>

definition stream_params :: "stream \<Rightarrow> bool" where
  "stream_params s \<longleftrightarrow> s_frames s < 2 ^ 52 \<and> s_rate s < 2 ^ 32 \<and> unit_vol (s_vol s) \<and> (\<exists>p. s_pos s = Fin p \<and> 0 \<le> p)"

definition stream_ok :: "file_table \<Rightarrow> stream \<Rightarrow> bool" where
  "stream_ok files s \<longleftrightarrow> (s_used s \<longrightarrow> stream_params s \<and> 0 \<le> s_frames s \<and> (wav_source files s \<or> ogg_source s))"

text \<open>What a stream owns does not change while it plays.\<close>

definition same_handles :: "stream \<Rightarrow> stream \<Rightarrow> bool" where
  "same_handles s s' \<longleftrightarrow> s_used s' = s_used s \<and> s_type s' = s_type s \<and> s_f s' = s_f s \<and>
     s_ogg_file s' = s_ogg_file s \<and> s_ogg_open s' = s_ogg_open s \<and> s_rate s' = s_rate s"

lemma same_handles_refl [simp]: "same_handles s s"
  by (simp add: same_handles_def)

lemma stream_rewind_simps [simp]:
  "s_used (stream_rewind s) = s_used s" "s_frames (stream_rewind s) = s_frames s" "s_rate (stream_rewind s) = s_rate s"
  "s_vol (stream_rewind s) = s_vol s" "s_pos (stream_rewind s) = Fin 0" "s_type (stream_rewind s) = s_type s"
  "s_f (stream_rewind s) = s_f s" "s_ogg_file (stream_rewind s) = s_ogg_file s" "s_ogg_open (stream_rewind s) = s_ogg_open s"
  by (simp_all add: stream_rewind_def Let_def)

lemma stream_rewind_eq: "stream_rewind s =
  s\<lparr>s_pos := Fin 0, cache_frames := 0, ogg_decode_frame := if s_type s = STREAM_OGG then - 1 else ogg_decode_frame s\<rparr>"
  by (simp add: stream_rewind_def Let_def)

lemma stream_rewind_source: "wav_source files s \<or> ogg_source s \<Longrightarrow> wav_source files (stream_rewind s) \<or> ogg_source (stream_rewind s)"
  unfolding stream_rewind_eq
  by (auto simp: wav_source_def wav_stream_def cache_holds_def ogg_source_def cache_shape_def)

lemma mix_at_ok:
  assumes "ogg_live env" and "s_used s" and "stream_params s" and "0 \<le> s_frames s" and "wav_source files s \<or> ogg_source s"
    and "s_pos s = Fin p" and "p < of_int (s_frames s) \<or> p = 0" and "unit_vol master" and "headroom n acc" and "0 \<le> n" and "n < 60000"
  shows "\<exists>acc' s'. mix_at env files master s acc = Some (acc', s') \<and> headroom (n + 1) acc' \<and> stream_ok files s' \<and> same_handles s s'"
proof -
  have p: "0 \<le> p" "s_frames s < 2 ^ 52" "s_rate s < 2 ^ 32" "unit_vol (s_vol s)" using assms(3,6) by (auto simp: stream_params_def)
  have "\<exists>acc' s' p'. mix_at env files master s acc = Some (acc', s') \<and> headroom (n + 1) acc' \<and> (wav_source files s' \<or> ogg_source s') \<and>
      same_stream (s\<lparr>s_playing := s_playing s', s_pos := Fin p'\<rparr>) s' \<and> 0 \<le> p'"
  proof (cases "wav_source files s")
    case True
    from wav_src.mix_at_total [OF this assms(6) p(1) assms(7) p(2,3,4) assms(8-11)] show ?thesis by blast
  next
    case False
    then have "ogg_source_of env s" using assms(1,5) by (simp add: ogg_source_of_def)
    from ogg_src.mix_at_total [OF this assms(6) p(1) assms(7) p(2,3,4) assms(8-11)] show ?thesis
      unfolding ogg_source_of_def by blast
  qed
  then obtain acc' s' p' where r: "mix_at env files master s acc = Some (acc', s')" "headroom (n + 1) acc'"
      "wav_source files s' \<or> ogg_source s'" "same_stream (s\<lparr>s_playing := s_playing s', s_pos := Fin p'\<rparr>) s'" "0 \<le> p'"
    by blast
  have "stream_ok files s'" using r(3-5) assms(3,4) by (auto simp: stream_ok_def stream_params_def same_stream_def)
  moreover have "same_handles s s'" using r(4) by (simp add: same_handles_def same_stream_def)
  ultimately show ?thesis using r(1,2) by blast
qed

lemma mix_stream_ok:
  assumes "ogg_live env" and "stream_ok files s" and "unit_vol master" and "headroom n acc" and "0 \<le> n" and "n < 60000"
  shows "\<exists>acc' s'. mix_stream env files master s acc = Some (acc', s') \<and> headroom (n + 1) acc' \<and> stream_ok files s' \<and> same_handles s s'"
proof -
  have hr: "headroom (n + 1) acc" using assms(4,5) by (auto simp: headroom_def)
  show ?thesis
  proof (cases "s_used s \<and> s_playing s \<and> \<not> s_paused s")
    case False
    with hr assms(2) show ?thesis by (auto simp: mix_stream_def)
  next
    case True
    have ok: "stream_params s" "0 \<le> s_frames s" "wav_source files s \<or> ogg_source s" using True assms(2) by (auto simp: stream_ok_def)
    obtain p where p: "s_pos s = Fin p" using ok(1) by (auto simp: stream_params_def)
    have "\<bar>s_frames s\<bar> < 2 ^ 53" using ok(1,2) by (simp add: stream_params_def)
    then have ge: "flt_ge (s_pos s) (of_c_int f64 (s_frames s)) \<longleftrightarrow> \<not> p < of_int (s_frames s)" by (simp add: p of_c_int64)
    show ?thesis
    proof (cases "p < of_int (s_frames s)")
      case True
      with mix_at_ok [OF assms(1) _ ok p _ assms(3-6)] ge \<open>s_used s \<and> _\<close> show ?thesis by (simp add: mix_stream_def)
    next
      case over: False
      show ?thesis
      proof (cases "s_loop s")
        case loop: True
        have "stream_params (stream_rewind s)" using ok(1) by (simp add: stream_params_def)
        from mix_at_ok [OF assms(1) _ this _ stream_rewind_source [OF ok(3)], of 0 master n acc] True ok(2) assms(3-6)
        have "\<exists>acc' s'. mix_at env files master (stream_rewind s) acc = Some (acc', s') \<and> headroom (n + 1) acc' \<and>
            stream_ok files s' \<and> same_handles (stream_rewind s) s'" by simp
        with True over ge loop show ?thesis by (simp add: mix_stream_def same_handles_def)
      next
        case False
        have "wav_source files (s\<lparr>s_playing := False\<rparr>) \<or> ogg_source (s\<lparr>s_playing := False\<rparr>)"
          using ok(3) wav_src.source_playing by (auto simp: ogg_source_def cache_shape_def)
        then have "stream_ok files (s\<lparr>s_playing := False\<rparr>)" using ok(1,2) by (simp add: stream_ok_def stream_params_def)
        with True over ge False hr show ?thesis by (simp add: mix_stream_def same_handles_def)
      qed
    qed
  qed
qed

subsection \<open>Properties\<close>

text \<open>
  C8.  The cache is transparent: for a stream that plays a WAV file, with any content of the
  cache that an earlier refill left, \<open>stream_sample\<close> delivers exactly the frame the file has
  at that position (a mono sample on both channels), and nothing past the end of the stream or
  of the file, without leaving the cache; and the cache stays such.
\<close>

theorem stream_cache_transparent:
  assumes "wav_stream files s bytes" and "cache_holds s bytes"
  shows "\<exists>s'. stream_sample env files s frame =
      Some (if frame < 0 \<or> s_frames s \<le> frame then None
            else input_frame (samples16 (drop (wi_data_off (s_info s)) bytes)) (s_channels s) (nat frame), s') \<and>
    wav_stream files s' bytes \<and> cache_holds s' bytes"
proof -
  obtain s' where s': "stream_sample env files s frame = Some (file_frame s bytes frame, s')" "cache_holds s' bytes" "same_stream s s'"
    using stream_sample_file [OF assms] by blast
  have "wav_stream files s' bytes" using same_stream_file [OF s'(3)] assms(1) by simp
  with s'(1,2) show ?thesis by (auto simp: file_frame_def file_samples_def)
qed

definition demo_stream :: stream where
  "demo_stream = stream_zero\<lparr>s_used := True, s_playing := True, s_type := STREAM_WAV, s_f := Some 7, s_channels := 1,
     s_rate := 24000, s_frames := 2, s_vol := Fin 1\<rparr>"

definition demo_files :: file_table where
  "demo_files = [7 \<mapsto> [1, 0, 3, 0]]"

text \<open>A decoder that has nothing to deliver.\<close>

definition demo_ogg_env :: ogg_env where
  "demo_ogg_env = \<lparr>ov_ret = (\<lambda>h c. 0), ov_sample = (\<lambda>h i. 0), ov_hole = - 3\<rparr>"

lemma demo_ogg_live: "ogg_live demo_ogg_env"
  by (simp add: ogg_live_def demo_ogg_env_def int16_def)

lemma demo_stream_wav: "wav_stream demo_files demo_stream [1, 0, 3, 0] \<and> cache_holds demo_stream [1, 0, 3, 0]"
  by (simp add: demo_stream_def demo_files_def stream_zero_def wav_stream_def cache_holds_def cache_shape_def wav_zero_def
      STREAM_CACHE_def int16_def)

theorem stream_cache_transparent_witness:
  "\<exists>s'. stream_sample demo_ogg_env demo_files demo_stream 1 = Some (Some (3, 3), s')"
proof -
  have "to_s16 1 = 1" "to_s16 3 = 3" by (simp_all add: to_s16_def)
  then show ?thesis
    using stream_cache_transparent [OF conjunct1 [OF demo_stream_wav] conjunct2 [OF demo_stream_wav], of demo_ogg_env 1]
    by (auto simp: demo_stream_def stream_zero_def wav_zero_def input_frame_def cell_def)
qed

end
