(* ===== verification/Audio.thy ===== *)
theory Audio
  imports Js_Api Audio_Stream
begin

text \<open>
  The audio module (src/src/modules/audio.c): the tables of clips, voices and streams, the mixer
  thread, initialisation and shutdown, and the JavaScript functions.

  The statics are the record \<open>audio_state\<close>.  A block of samples is an address and
  \<open>heap\<close> maps the allocated ones to their frames; \<open>files\<close> maps the open file handles
  to what is in them.  \<open>free\<close>, \<open>fclose\<close> and \<open>ov_clear\<close> of something that is
  not allocated or open, and a read through such a pointer, are undefined behaviour: the outcome
  \<open>None\<close>.  Every access to the tables happens under the mutex, or while no mixer thread
  exists, so an operation and a pass of the mixer are atomic steps.
\<close>

subsection \<open>State\<close>

definition GRAIN :: nat where "GRAIN = 1024"
definition MAX_CLIPS :: nat where "MAX_CLIPS = 64"
definition MAX_VOICES :: nat where "MAX_VOICES = 16"
definition MAX_STREAMS :: nat where "MAX_STREAMS = 4"

lemmas audio_limits = MAX_CLIPS_def MAX_VOICES_def MAX_STREAMS_def

record clip =
  c_used :: bool
  c_samples :: nat
  c_frames :: nat

record voice =
  v_active :: bool
  v_clip :: int
  v_pos :: nat
  v_vol :: flt
  v_loop :: bool

definition clip_zero :: clip where
  "clip_zero = \<lparr>c_used = False, c_samples = 0, c_frames = 0\<rparr>"

definition voice_zero :: voice where
  "voice_zero = \<lparr>v_active = False, v_clip = 0, v_pos = 0, v_vol = Fin 0, v_loop = False\<rparr>"

datatype audio_call =
    MutexInit | MutexDestroy | OpenPort | SetVolume int | ReleasePort int | ThreadCreate | ThreadJoin
  | AudioOutput int "(int \<times> int) list"
  | FileOpen string | OvOpen | OvInfo | OvPcmTotal

text \<open>
  \<open>a_fs\<close>: what \<open>fopen\<close> finds under a path; \<open>a_alloc\<close>: whether \<open>malloc\<close>
  succeeds; \<open>a_ogg_info\<close>: channels and rate the decoder reports, if any.
\<close>

record audio_env =
  a_ret :: "audio_call list \<Rightarrow> audio_call \<Rightarrow> int"
  a_fs :: "audio_call list \<Rightarrow> string \<Rightarrow> nat list option"
  a_alloc :: "audio_call list \<Rightarrow> nat \<Rightarrow> bool"
  a_ogg :: ogg_env
  a_ogg_info :: "audio_call list \<Rightarrow> (int \<times> int) option"
  a_ogg_total :: "audio_call list \<Rightarrow> int"
  buffers_aligned :: bool

record audio_state = "audio_call traced" +
  clips :: "clip list"
  voices :: "voice list"
  streams :: "stream list"
  heap :: "nat \<Rightarrow> (int \<times> int) list option"
  files :: file_table
  next_id :: nat
  mutex_init :: bool
  initialized :: bool
  port :: int
  running :: bool
  master :: flt
  js_pending :: "js_error option"

definition audio_start :: audio_state where
  "audio_start =
     \<lparr>trace = [], clips = replicate MAX_CLIPS clip_zero, voices = replicate MAX_VOICES voice_zero,
      streams = replicate MAX_STREAMS stream_zero, heap = Map.empty, files = Map.empty, next_id = 1,
      mutex_init = False, initialized = False, port = - 1, running = False, master = Fin 1, js_pending = None\<rparr>"

subsection \<open>The mixer\<close>

text \<open>\<open>(int32_t)(sample * gain)\<close>, in single precision.\<close>

definition voice_term :: "int \<Rightarrow> flt \<Rightarrow> int option" where
  "voice_term sample gain = to_int32 (fmul f32 (of_c_int f32 sample) gain)"

definition voice_play ::
  "(nat \<Rightarrow> (int \<times> int) list option) \<Rightarrow> flt \<Rightarrow> clip \<Rightarrow> voice \<Rightarrow> int \<times> int \<Rightarrow> ((int \<times> int) \<times> voice) option" where
  "voice_play h master_volume c v acc =
     (case Option.bind (h (c_samples c)) (\<lambda>xs. cell xs (v_pos v)) of
        None \<Rightarrow> None
      | Some (l, r) \<Rightarrow>
        let gain = fmul f32 (v_vol v) master_volume in
        map_option (\<lambda>acc. (acc, v\<lparr>v_pos := (v_pos v + 1) mod 2 ^ 32\<rparr>))
          (accumulate acc (voice_term l gain) (voice_term r gain)))"

definition mix_voice ::
  "clip list \<Rightarrow> (nat \<Rightarrow> (int \<times> int) list option) \<Rightarrow> flt \<Rightarrow> voice \<Rightarrow> int \<times> int \<Rightarrow> ((int \<times> int) \<times> voice) option" where
  "mix_voice cs h master_volume v acc =
     (if \<not> v_active v then Some (acc, v)
      else if v_clip v < 0 \<or> v_clip v \<ge> int MAX_CLIPS \<or> \<not> c_used (cs ! nat (v_clip v))
      then Some (acc, v\<lparr>v_active := False\<rparr>)
      else let c = cs ! nat (v_clip v) in
      if v_pos v \<ge> c_frames c then
        (if v_loop v \<and> c_frames c \<noteq> 0 then voice_play h master_volume c (v\<lparr>v_pos := 0\<rparr>) acc
         else Some (acc, v\<lparr>v_active := False\<rparr>))
      else voice_play h master_volume c v acc)"

text \<open>The two inner loops: every element of a table adds to the accumulators.\<close>

fun mix_list :: "('a \<Rightarrow> int \<times> int \<Rightarrow> ((int \<times> int) \<times> 'a) option) \<Rightarrow> 'a list \<Rightarrow> int \<times> int \<Rightarrow> ((int \<times> int) \<times> 'a list) option" where
  "mix_list f [] acc = Some (acc, [])"
| "mix_list f (x # xs) acc =
     (case f x acc of
        None \<Rightarrow> None
      | Some (acc, y) \<Rightarrow> map_option (\<lambda>(acc, ys). (acc, y # ys)) (mix_list f xs acc))"

definition mix_frame :: "audio_env \<Rightarrow> flt \<Rightarrow> audio_state \<Rightarrow> ((int \<times> int) \<times> audio_state) option" where
  "mix_frame env master_volume s =
     (case mix_list (mix_voice (clips s) (heap s) master_volume) (voices s) (0, 0) of
        None \<Rightarrow> None
      | Some (acc, vs) \<Rightarrow>
        (case mix_list (mix_stream (a_ogg env) (files s) master_volume) (streams s) acc of
           None \<Rightarrow> None
         | Some (acc, ss) \<Rightarrow> Some ((clamp16 (fst acc), clamp16 (snd acc)), s\<lparr>voices := vs, streams := ss\<rparr>)))"

fun mix_frames :: "audio_env \<Rightarrow> flt \<Rightarrow> nat \<Rightarrow> audio_state \<Rightarrow> ((int \<times> int) list \<times> audio_state) option" where
  "mix_frames env m 0 s = Some ([], s)"
| "mix_frames env m (Suc n) s =
     (case mix_frame env m s of
        None \<Rightarrow> None
      | Some (f, s) \<Rightarrow> map_option (\<lambda>(fs, s). (f # fs, s)) (mix_frames env m n s))"

text \<open>One pass of \<open>mixthread\<close>: a buffer of \<open>GRAIN\<close> frames is mixed and played.\<close>

definition mixthread :: "audio_env \<Rightarrow> audio_state \<Rightarrow> audio_state option" where
  "mixthread env s =
     (if \<not> running s then Some s
      else case mix_frames env (master s) GRAIN s of
        None \<Rightarrow> None
      | Some (buffer, s) \<Rightarrow>
        let call = AudioOutput (port s) buffer; result = ask (a_ret env) s call; s = did call s in
        Some (if result < 0 then s\<lparr>running := False\<rparr> else s))"

subsection \<open>Initialisation\<close>

definition clear_tables :: "audio_state \<Rightarrow> audio_state" where
  "clear_tables s = s\<lparr>clips := replicate MAX_CLIPS clip_zero, voices := replicate MAX_VOICES voice_zero,
     streams := replicate MAX_STREAMS stream_zero\<rparr>"

definition ensure :: "audio_env \<Rightarrow> audio_state \<Rightarrow> int \<times> audio_state" where
  "ensure env s =
     (if initialized s then (0, s)
      else if \<not> buffers_aligned env then (- 3, s)
      else let need = \<not> mutex_init s; mret = (if need then ask (a_ret env) s MutexInit else 0);
               s = (if need then did MutexInit s else s) in
      if mret \<noteq> 0 then (- 1, s)
      else let s = s\<lparr>mutex_init := True\<rparr>; p = ask (a_ret env) s OpenPort; s = (did OpenPort s)\<lparr>port := p\<rparr> in
      if p < 0 then (p, s)
      else let s = clear_tables (did (SetVolume p) s);
               s = s\<lparr>voices := map (v_clip_update (\<lambda>_. - 1)) (voices s), master := Fin 1, running := True\<rparr>;
               tret = ask (a_ret env) s ThreadCreate; s = did ThreadCreate s in
      if tret \<noteq> 0 then (- 2, (did (ReleasePort p) s)\<lparr>port := - 1, running := False\<rparr>)
      else (0, s\<lparr>initialized := True\<rparr>))"

definition freeclip :: "audio_state \<Rightarrow> int" where
  "freeclip s = scan_free c_used (clips s) 0"

definition freevoice :: "audio_state \<Rightarrow> int" where
  "freevoice s = scan_free v_active (voices s) 0"

definition freestream :: "audio_state \<Rightarrow> int" where
  "freestream s = scan_free s_used (streams s) 0"

definition initerr :: "int \<Rightarrow> js_error" where
  "initerr result = InternalError (''Unable to initialize PS Vita audio: 0x'' @ hex08 result)"

subsection \<open>Arguments\<close>

definition getid :: "js_engine \<Rightarrow> jsval \<Rightarrow> nat \<Rightarrow> string \<Rightarrow> nat js_result" where
  "getid js value limit name =
     (case ToInt32 js value of
        None \<Rightarrow> Inl Pending
      | Some ident \<Rightarrow> (if ident < 0 \<or> ident \<ge> int limit then Inl (RangeError (''Invalid '' @ name @ '' id'')) else Inr (nat ident)))"

definition clampv :: "flt \<Rightarrow> flt" where
  "clampv v = (if flt_less v (Fin 0) then Fin 0 else if flt_less (Fin 1) v then Fin 1 else v)"

definition getvol :: "js_engine \<Rightarrow> jsval \<Rightarrow> flt option" where
  "getvol js value = map_option (\<lambda>d. clampv (fcvt f32 d)) (ToFloat64 js value)"

text \<open>The optional volume and loop arguments of \<open>play\<close> and \<open>play_stream\<close>.\<close>

definition get_play_options :: "js_engine \<Rightarrow> jsval list \<Rightarrow> (flt \<times> bool) option" where
  "get_play_options js argv =
     (case (if length argv \<ge> 2 then getvol js (argv ! 1) else Some (Fin 1)) of
        None \<Rightarrow> None
      | Some volume \<Rightarrow>
        map_option (\<lambda>loop. (volume, loop)) (if length argv \<ge> 3 then ToBool js (argv ! 2) else Some False))"

subsection \<open>Clips and voices\<close>

text \<open>\<open>free\<close>: nothing for NULL, undefined for a block that is not allocated.\<close>

definition free_block :: "nat \<Rightarrow> audio_state \<Rightarrow> audio_state option" where
  "free_block b s =
     (if b = 0 then Some s else if heap s b = None then None else Some (s\<lparr>heap := (heap s)(b := None)\<rparr>))"

text \<open>The block that \<open>load_clip\<close> has filled.\<close>

definition new_block :: "(int \<times> int) list \<Rightarrow> audio_state \<Rightarrow> nat \<times> audio_state" where
  "new_block xs s = (next_id s, s\<lparr>heap := (heap s)(next_id s \<mapsto> xs), next_id := next_id s + 1\<rparr>)"

definition loadwav :: "js_engine \<Rightarrow> audio_env \<Rightarrow> jsval list \<Rightarrow> audio_state \<Rightarrow> (jsval js_result \<times> audio_state) option" where
  "loadwav js env argv s =
     (if length argv \<noteq> 1 then Some (Inl (SyntaxError ''load_wav(path) expects one argument''), s)
      else case ensure env s of (init_result, s) \<Rightarrow>
      if init_result < 0 then Some (Inl (initerr init_result), s)
      else case ToCString js (argv ! 0) of
        None \<Rightarrow> Some (Inl Pending, s)
      | Some path \<Rightarrow>
        (case load_clip (a_fs env (trace s)) (a_alloc env (trace s)) path of
           None \<Rightarrow> None
         | Some (Inl result, _) \<Rightarrow>
             Some (Inl (InternalError (''Unable to load WAV (error '' @ dec result @ '')'')), did (FileOpen path) s)
         | Some (Inr samples, _) \<Rightarrow>
           (case new_block samples (did (FileOpen path) s) of (b, s) \<Rightarrow>
            let ident = freeclip s in
            if ident \<ge> 0
            then Some (Inr (JInt ident),
              s\<lparr>clips := (clips s)[nat ident := \<lparr>c_used = True, c_samples = b, c_frames = length samples\<rparr>]\<rparr>)
            else map_option (Pair (Inl (InternalError ''Audio clip limit reached''))) (free_block b s))))"

definition stop_voices_of :: "nat \<Rightarrow> voice list \<Rightarrow> voice list" where
  "stop_voices_of ident vs = map (\<lambda>v. if v_active v \<and> v_clip v = int ident then v\<lparr>v_active := False\<rparr> else v) vs"

definition freewav :: "js_engine \<Rightarrow> jsval list \<Rightarrow> audio_state \<Rightarrow> (jsval js_result \<times> audio_state) option" where
  "freewav js argv s =
     (if length argv \<noteq> 1 then Some (Inl (SyntaxError ''free(clipId) expects one argument''), s)
      else case getid js (argv ! 0) MAX_CLIPS ''clip'' of
        Inl e \<Rightarrow> Some (Inl e, s)
      | Inr ident \<Rightarrow>
        if \<not> initialized s then Some (Inr JUndefined, s)
        else let s = s\<lparr>voices := stop_voices_of ident (voices s)\<rparr>; c = clips s ! ident in
        map_option (\<lambda>s. (Inr JUndefined, s\<lparr>clips := (clips s)[ident := clip_zero]\<rparr>))
          (if c_used c then free_block (c_samples c) s else Some s))"

definition play :: "js_engine \<Rightarrow> audio_env \<Rightarrow> jsval list \<Rightarrow> audio_state \<Rightarrow> jsval js_result \<times> audio_state" where
  "play js env argv s =
     (if length argv < 1 \<or> length argv > 3
      then (Inl (SyntaxError ''play(clipId[,volume[,loop]]) expects 1-3 arguments''), s)
      else case ensure env s of (init_result, s) \<Rightarrow>
      if init_result < 0 then (Inl (initerr init_result), s)
      else case getid js (argv ! 0) MAX_CLIPS ''clip'' of
        Inl e \<Rightarrow> (Inl e, s)
      | Inr ident \<Rightarrow>
        (case get_play_options js argv of
           None \<Rightarrow> (Inl Pending, s)
         | Some (volume, loop) \<Rightarrow>
           if \<not> c_used (clips s ! ident) then (Inl (RangeError ''Invalid or freed clip id''), s)
           else let voice_id = freevoice s in
           (Inr (JInt voice_id),
            if voice_id \<ge> 0
            then s\<lparr>voices := (voices s)[nat voice_id :=
                     \<lparr>v_active = True, v_clip = int ident, v_pos = 0, v_vol = volume, v_loop = loop\<rparr>]\<rparr>
            else s)))"

definition stop :: "js_engine \<Rightarrow> jsval list \<Rightarrow> audio_state \<Rightarrow> jsval js_result \<times> audio_state" where
  "stop js argv s =
     (if length argv \<noteq> 1 then (Inl (SyntaxError ''stop(voiceId) expects one argument''), s)
      else case getid js (argv ! 0) MAX_VOICES ''voice'' of
        Inl e \<Rightarrow> (Inl e, s)
      | Inr ident \<Rightarrow>
        (Inr JUndefined,
         if initialized s
         then s\<lparr>voices := (voices s)[ident := (voices s ! ident)\<lparr>v_active := False, v_clip := - 1, v_pos := 0\<rparr>]\<rparr> else s))"

definition stopall :: "jsval list \<Rightarrow> audio_state \<Rightarrow> jsval js_result \<times> audio_state" where
  "stopall argv s =
     (if argv \<noteq> [] then (Inl (SyntaxError ''stop_all() expects no arguments''), s)
      else (Inr JUndefined,
        if initialized s
        then s\<lparr>voices := map (v_active_update (\<lambda>_. False)) (voices s),
               streams := map (s_playing_update (\<lambda>_. False)) (streams s)\<rparr> else s))"

text \<open>A failed \<open>getid\<close> is answered with false here; the exception it has raised stays pending.\<close>

definition isplaying :: "js_engine \<Rightarrow> jsval list \<Rightarrow> audio_state \<Rightarrow> jsval js_result \<times> audio_state" where
  "isplaying js argv s =
     (if length argv \<noteq> 1 then (Inl (SyntaxError ''is_playing(voiceId) expects one argument''), s)
      else case getid js (argv ! 0) MAX_VOICES ''voice'' of
        Inl e \<Rightarrow> (Inr (JBool False), s\<lparr>js_pending := Some e\<rparr>)
      | Inr ident \<Rightarrow> (Inr (JBool (initialized s \<and> v_active (voices s ! ident))), s))"

definition voicevol :: "js_engine \<Rightarrow> jsval list \<Rightarrow> audio_state \<Rightarrow> jsval js_result \<times> audio_state" where
  "voicevol js argv s =
     (if length argv \<noteq> 2 then (Inl (SyntaxError ''set_voice_volume(voiceId,volume) expects two arguments''), s)
      else case getid js (argv ! 0) MAX_VOICES ''voice'' of
        Inl e \<Rightarrow> (Inl e, s)
      | Inr ident \<Rightarrow>
        (case getvol js (argv ! 1) of
           None \<Rightarrow> (Inl Pending, s)
         | Some volume \<Rightarrow>
           (Inr JUndefined,
            if initialized s then s\<lparr>voices := (voices s)[ident := (voices s ! ident)\<lparr>v_vol := volume\<rparr>]\<rparr> else s)))"

definition masterm :: "js_engine \<Rightarrow> audio_env \<Rightarrow> jsval list \<Rightarrow> audio_state \<Rightarrow> jsval js_result \<times> audio_state" where
  "masterm js env argv s =
     (if length argv \<noteq> 1 then (Inl (SyntaxError ''set_master_volume(volume) expects one argument''), s)
      else case getvol js (argv ! 0) of
        None \<Rightarrow> (Inl Pending, s)
      | Some volume \<Rightarrow>
        (case ensure env s of (result, s) \<Rightarrow>
           if result < 0 then (Inl (initerr result), s) else (Inr JUndefined, s\<lparr>master := volume\<rparr>)))"

definition getmaster :: "jsval list \<Rightarrow> audio_state \<Rightarrow> jsval js_result \<times> audio_state" where
  "getmaster argv s =
     (if argv \<noteq> [] then (Inl (SyntaxError ''get_master_volume() expects no arguments''), s)
      else (Inr (JFloat (master s)), s))"

subsection \<open>Streams\<close>

definition close_handle :: "handle \<Rightarrow> audio_state \<Rightarrow> audio_state option" where
  "close_handle h s = (if files s h = None then None else Some (s\<lparr>files := (files s)(h := None)\<rparr>))"

text \<open>\<open>ov_clear\<close> closes the file the decoder has taken over.\<close>

definition stream_close_native :: "stream \<Rightarrow> audio_state \<Rightarrow> (stream \<times> audio_state) option" where
  "stream_close_native st s =
     (if s_type st = STREAM_OGG \<and> s_ogg_open st
      then map_option (Pair (st\<lparr>s_ogg_open := False, s_f := None\<rparr>)) (close_handle (s_ogg_file st) s)
      else case s_f st of
        None \<Rightarrow> Some (st, s)
      | Some h \<Rightarrow> map_option (Pair (st\<lparr>s_f := None\<rparr>)) (close_handle h s))"

definition open_file :: "string \<Rightarrow> nat list \<Rightarrow> audio_state \<Rightarrow> handle \<times> audio_state" where
  "open_file path bytes s =
     (next_id s, (did (FileOpen path) s)\<lparr>files := (files s)(next_id s \<mapsto> bytes), next_id := next_id s + 1\<rparr>)"

definition candidate_zero :: stream where
  "candidate_zero = stream_zero\<lparr>s_used := True, s_vol := Fin 1, ogg_decode_frame := - 1\<rparr>"

text \<open>
  The candidate for a Vorbis file: the decoder takes the file over when \<open>ov_open\<close> succeeds.
\<close>

definition open_ogg :: "audio_env \<Rightarrow> handle \<Rightarrow> audio_state \<Rightarrow> (stream js_result \<times> audio_state) option" where
  "open_ogg env h s =
     (let result = ask (a_ret env) s OvOpen; s = did OvOpen s in
      if result < 0
      then map_option (Pair (Inl (InternalError (''Unable to open OGG/Vorbis stream (error '' @ dec result @ '')'')))) (close_handle h s)
      else let info = a_ogg_info env (trace s); s = did OvInfo s in
      case info of
        None \<Rightarrow> map_option (Pair (Inl (InternalError ''Unsupported OGG/Vorbis stream; only mono/stereo is supported''))) (close_handle h s)
      | Some (channels, rate) \<Rightarrow>
        if (channels \<noteq> 1 \<and> channels \<noteq> 2) \<or> rate \<le> 0
        then map_option (Pair (Inl (InternalError ''Unsupported OGG/Vorbis stream; only mono/stereo is supported''))) (close_handle h s)
        else let total = a_ogg_total env (trace s); s = did OvPcmTotal s in
        if total \<le> 0
        then map_option (Pair (Inl (InternalError ''Unable to determine OGG/Vorbis stream length''))) (close_handle h s)
        else Some (Inr (candidate_zero\<lparr>s_type := STREAM_OGG, s_ogg_open := True, s_ogg_file := h, s_f := None,
               s_rate := nat (to_u32 rate), s_channels := nat (to_u16 channels), s_frames := total\<rparr>), s))"

definition open_wav :: "handle \<Rightarrow> nat list \<Rightarrow> audio_state \<Rightarrow> (stream js_result \<times> audio_state) option" where
  "open_wav h bytes s =
     (case parse_wav (fopen bytes) False of
        None \<Rightarrow> None
      | Some (Inl result) \<Rightarrow>
          map_option (Pair (Inl (InternalError (''Unsupported WAV stream (error '' @ dec result @ '')'')))) (close_handle h s)
      | Some (Inr info) \<Rightarrow>
          Some (Inr (candidate_zero\<lparr>s_type := STREAM_WAV, s_f := Some h, s_info := info, s_rate := wi_rate info,
                  s_channels := wi_channels info, s_frames := int (wi_data_size info) div (int (wi_channels info) * 2)\<rparr>), s))"

definition open_candidate :: "audio_env \<Rightarrow> handle \<Rightarrow> nat list \<Rightarrow> audio_state \<Rightarrow> (stream js_result \<times> audio_state) option" where
  "open_candidate env h bytes s =
     (let magic = fst (fread 4 (fopen bytes)) in
      if length magic \<noteq> 4
      then map_option (Pair (Inl (InternalError ''Unable to read audio stream header''))) (close_handle h s)
      else if magic = tag ''OggS'' then open_ogg env h s
      else if magic = tag ''RIFF'' then open_wav h bytes s
      else map_option (Pair (Inl (InternalError ''Unsupported stream format; expected PCM WAV or OGG/Vorbis''))) (close_handle h s))"

definition openstream :: "js_engine \<Rightarrow> audio_env \<Rightarrow> jsval list \<Rightarrow> audio_state \<Rightarrow> (jsval js_result \<times> audio_state) option" where
  "openstream js env argv s =
     (if length argv \<noteq> 1 then Some (Inl (SyntaxError ''open_stream(path) expects one argument''), s)
      else case ensure env s of (init_result, s) \<Rightarrow>
      if init_result < 0 then Some (Inl (initerr init_result), s)
      else case ToCString js (argv ! 0) of
        None \<Rightarrow> Some (Inl Pending, s)
      | Some path \<Rightarrow>
        (case a_fs env (trace s) path of
           None \<Rightarrow> Some (Inl (InternalError ''Unable to open audio stream''), did (FileOpen path) s)
         | Some bytes \<Rightarrow>
           (case open_file path bytes s of (h, s) \<Rightarrow>
            (case open_candidate env h bytes s of
               None \<Rightarrow> None
             | Some (Inl e, s) \<Rightarrow> Some (Inl e, s)
             | Some (Inr candidate, s) \<Rightarrow>
               let ident = freestream s in
               if ident \<ge> 0 then Some (Inr (JInt ident), s\<lparr>streams := (streams s)[nat ident := candidate]\<rparr>)
               else map_option (\<lambda>(_, s). (Inl (InternalError (''Audio stream limit reached ('' @ dec (int MAX_STREAMS) @ '')'')), s))
                 (stream_close_native candidate s)))))"

definition closestream :: "js_engine \<Rightarrow> jsval list \<Rightarrow> audio_state \<Rightarrow> (jsval js_result \<times> audio_state) option" where
  "closestream js argv s =
     (if length argv \<noteq> 1 then Some (Inl (SyntaxError ''close_stream(streamId) expects one argument''), s)
      else case getid js (argv ! 0) MAX_STREAMS ''stream'' of
        Inl e \<Rightarrow> Some (Inl e, s)
      | Inr ident \<Rightarrow>
        if \<not> initialized s then Some (Inr JUndefined, s)
        else map_option (\<lambda>(_, s). (Inr JUndefined, s\<lparr>streams := (streams s)[ident := stream_zero]\<rparr>))
          (stream_close_native (streams s ! ident) s))"

definition not_open_error :: js_error where
  "not_open_error = InternalError ''Audio is not initialized; open a stream first''"

definition playstream :: "js_engine \<Rightarrow> jsval list \<Rightarrow> audio_state \<Rightarrow> jsval js_result \<times> audio_state" where
  "playstream js argv s =
     (if length argv < 1 \<or> length argv > 3
      then (Inl (SyntaxError ''play_stream(streamId[,volume[,loop]]) expects 1-3 arguments''), s)
      else if \<not> initialized s then (Inl not_open_error, s)
      else case getid js (argv ! 0) MAX_STREAMS ''stream'' of
        Inl e \<Rightarrow> (Inl e, s)
      | Inr ident \<Rightarrow>
        (case get_play_options js argv of
           None \<Rightarrow> (Inl Pending, s)
         | Some (volume, loop) \<Rightarrow>
           if \<not> s_used (streams s ! ident) then (Inl (RangeError ''Invalid stream id''), s)
           else (Inr JUndefined, s\<lparr>streams := (streams s)[ident :=
                  (streams s ! ident)\<lparr>s_playing := True, s_paused := False, s_loop := loop, s_vol := volume\<rparr>]\<rparr>)))"

datatype stream_command = CMD_PAUSE | CMD_RESUME | CMD_STOP

fun apply_command :: "stream_command \<Rightarrow> stream \<Rightarrow> stream" where
  "apply_command CMD_PAUSE st = st\<lparr>s_paused := True\<rparr>"
| "apply_command CMD_RESUME st = st\<lparr>s_paused := False\<rparr>"
| "apply_command CMD_STOP st = stream_rewind (st\<lparr>s_playing := False, s_paused := False\<rparr>)"

definition streamcmd :: "js_engine \<Rightarrow> stream_command \<Rightarrow> jsval list \<Rightarrow> audio_state \<Rightarrow> jsval js_result \<times> audio_state" where
  "streamcmd js cmd argv s =
     (if length argv \<noteq> 1 then (Inl (SyntaxError ''stream command expects one streamId''), s)
      else case getid js (argv ! 0) MAX_STREAMS ''stream'' of
        Inl e \<Rightarrow> (Inl e, s)
      | Inr ident \<Rightarrow>
        (Inr JUndefined,
         if initialized s then s\<lparr>streams := (streams s)[ident := apply_command cmd (streams s ! ident)]\<rparr> else s))"

definition pausestream :: "js_engine \<Rightarrow> jsval list \<Rightarrow> audio_state \<Rightarrow> jsval js_result \<times> audio_state" where
  "pausestream js argv s = streamcmd js CMD_PAUSE argv s"

definition resumestream :: "js_engine \<Rightarrow> jsval list \<Rightarrow> audio_state \<Rightarrow> jsval js_result \<times> audio_state" where
  "resumestream js argv s = streamcmd js CMD_RESUME argv s"

definition stopstream :: "js_engine \<Rightarrow> jsval list \<Rightarrow> audio_state \<Rightarrow> jsval js_result \<times> audio_state" where
  "stopstream js argv s = streamcmd js CMD_STOP argv s"

definition streamplaying :: "js_engine \<Rightarrow> jsval list \<Rightarrow> audio_state \<Rightarrow> jsval js_result \<times> audio_state" where
  "streamplaying js argv s =
     (if length argv \<noteq> 1 then (Inl (SyntaxError ''is_stream_playing(streamId) expects one argument''), s)
      else if \<not> initialized s then (Inr (JBool False), s)
      else case getid js (argv ! 0) MAX_STREAMS ''stream'' of
        Inl e \<Rightarrow> (Inr (JBool False), s\<lparr>js_pending := Some e\<rparr>)
      | Inr ident \<Rightarrow>
        let st = streams s ! ident in (Inr (JBool (s_used st \<and> s_playing st \<and> \<not> s_paused st)), s))"

definition streamvol :: "js_engine \<Rightarrow> jsval list \<Rightarrow> audio_state \<Rightarrow> jsval js_result \<times> audio_state" where
  "streamvol js argv s =
     (if length argv \<noteq> 2 then (Inl (SyntaxError ''set_stream_volume(streamId,volume) expects two arguments''), s)
      else if \<not> initialized s then (Inl not_open_error, s)
      else case getid js (argv ! 0) MAX_STREAMS ''stream'' of
        Inl e \<Rightarrow> (Inl e, s)
      | Inr ident \<Rightarrow>
        (case getvol js (argv ! 1) of
           None \<Rightarrow> (Inl Pending, s)
         | Some volume \<Rightarrow>
           (Inr JUndefined, s\<lparr>streams := (streams s)[ident := (streams s ! ident)\<lparr>s_vol := volume\<rparr>]\<rparr>)))"

text \<open>The position \<open>seek_stream\<close> computes: \<open>seconds * rate\<close>, from 0 to the stream's length.\<close>

definition seek_position :: "stream \<Rightarrow> flt \<Rightarrow> flt" where
  "seek_position st seconds =
     (let seconds = (if flt_less seconds (Fin 0) then Fin 0 else seconds);
          position = fmul f64 seconds (of_c_int f64 (int (s_rate st)));
          limit = of_c_int f64 (s_frames st)
      in if flt_less limit position then limit else position)"

definition seek_to :: "flt \<Rightarrow> stream \<Rightarrow> stream" where
  "seek_to seconds st =
     (let st = st\<lparr>s_pos := seek_position st seconds, cache_frames := 0\<rparr> in
      if s_type st = STREAM_OGG then st\<lparr>ogg_decode_frame := - 1\<rparr> else st)"

definition streamseek :: "js_engine \<Rightarrow> jsval list \<Rightarrow> audio_state \<Rightarrow> jsval js_result \<times> audio_state" where
  "streamseek js argv s =
     (if length argv \<noteq> 2 then (Inl (SyntaxError ''seek_stream(streamId,seconds) expects two arguments''), s)
      else if \<not> initialized s then (Inl not_open_error, s)
      else case getid js (argv ! 0) MAX_STREAMS ''stream'' of
        Inl e \<Rightarrow> (Inl e, s)
      | Inr ident \<Rightarrow>
        (case ToFloat64 js (argv ! 1) of
           None \<Rightarrow> (Inl Pending, s)
         | Some seconds \<Rightarrow>
           (Inr JUndefined, s\<lparr>streams := (streams s)[ident := seek_to seconds (streams s ! ident)]\<rparr>)))"

definition streamtime :: "js_engine \<Rightarrow> bool \<Rightarrow> jsval list \<Rightarrow> audio_state \<Rightarrow> jsval js_result \<times> audio_state" where
  "streamtime js duration argv s =
     (if length argv \<noteq> 1 then (Inl (SyntaxError ''stream getter expects one streamId''), s)
      else if \<not> initialized s then (Inr (JFloat (Fin 0)), s)
      else case getid js (argv ! 0) MAX_STREAMS ''stream'' of
        Inl e \<Rightarrow> (Inl e, s)
      | Inr ident \<Rightarrow>
        let st = streams s ! ident; rate = of_c_int f64 (int (s_rate st)) in
        (Inr (JFloat
           (if s_rate st \<noteq> 0
            then (if duration then fdiv f64 (of_c_int f64 (s_frames st)) rate else fdiv f64 (s_pos st) rate)
            else Fin 0)), s))"

definition streampos :: "js_engine \<Rightarrow> jsval list \<Rightarrow> audio_state \<Rightarrow> jsval js_result \<times> audio_state" where
  "streampos js argv s = streamtime js False argv s"

definition streamdur :: "js_engine \<Rightarrow> jsval list \<Rightarrow> audio_state \<Rightarrow> jsval js_result \<times> audio_state" where
  "streamdur js argv s = streamtime js True argv s"

subsection \<open>Shutdown\<close>

fun free_clips :: "clip list \<Rightarrow> audio_state \<Rightarrow> audio_state option" where
  "free_clips [] s = Some s"
| "free_clips (c # cs) s = Option.bind (if c_used c then free_block (c_samples c) s else Some s) (free_clips cs)"

fun close_streams :: "stream list \<Rightarrow> audio_state \<Rightarrow> audio_state option" where
  "close_streams [] s = Some s"
| "close_streams (st # sts) s =
     Option.bind (if s_used st then map_option snd (stream_close_native st s) else Some s) (close_streams sts)"

definition shutdown_audio :: "audio_state \<Rightarrow> audio_state option" where
  "shutdown_audio s =
     (if \<not> initialized s then Some s
      else let s = did ThreadJoin (s\<lparr>running := False\<rparr>) in
      Option.bind (free_clips (clips s) s) (\<lambda>s.
      Option.bind (close_streams (streams s) s) (\<lambda>s.
        let s = clear_tables s;
            s = (if port s \<ge> 0 then did (ReleasePort (port s)) s else s);
            s = s\<lparr>port := - 1, initialized := False\<rparr>
        in Some (if mutex_init s then (did MutexDestroy s)\<lparr>mutex_init := False\<rparr> else s))))"

definition audio_term :: "jsval list \<Rightarrow> audio_state \<Rightarrow> (jsval js_result \<times> audio_state) option" where
  "audio_term argv s =
     (if argv \<noteq> [] then Some (Inl (SyntaxError ''term() expects no arguments''), s)
      else map_option (Pair (Inr JUndefined)) (shutdown_audio s))"

subsection \<open>The module as a transition system\<close>

text \<open>The functions JavaScript sees under these names, and the passes of the mixer between them.\<close>

datatype audio_op =
    Op_load_wav "jsval list" | Op_free "jsval list" | Op_play "jsval list" | Op_stop "jsval list"
  | Op_stop_all "jsval list" | Op_is_playing "jsval list" | Op_set_voice_volume "jsval list"
  | Op_set_master_volume "jsval list" | Op_get_master_volume "jsval list" | Op_open_stream "jsval list"
  | Op_close_stream "jsval list" | Op_play_stream "jsval list" | Op_pause_stream "jsval list"
  | Op_resume_stream "jsval list" | Op_stop_stream "jsval list" | Op_is_stream_playing "jsval list"
  | Op_set_stream_volume "jsval list" | Op_seek_stream "jsval list" | Op_get_stream_position "jsval list"
  | Op_get_stream_duration "jsval list" | Op_term "jsval list" | Op_mix

fun audio_exec :: "js_engine \<Rightarrow> audio_env \<Rightarrow> audio_op \<Rightarrow> audio_state \<Rightarrow> (jsval js_result \<times> audio_state) option" where
  "audio_exec js env (Op_load_wav argv) s = loadwav js env argv s"
| "audio_exec js env (Op_free argv) s = freewav js argv s"
| "audio_exec js env (Op_play argv) s = Some (play js env argv s)"
| "audio_exec js env (Op_stop argv) s = Some (stop js argv s)"
| "audio_exec js env (Op_stop_all argv) s = Some (stopall argv s)"
| "audio_exec js env (Op_is_playing argv) s = Some (isplaying js argv s)"
| "audio_exec js env (Op_set_voice_volume argv) s = Some (voicevol js argv s)"
| "audio_exec js env (Op_set_master_volume argv) s = Some (masterm js env argv s)"
| "audio_exec js env (Op_get_master_volume argv) s = Some (getmaster argv s)"
| "audio_exec js env (Op_open_stream argv) s = openstream js env argv s"
| "audio_exec js env (Op_close_stream argv) s = closestream js argv s"
| "audio_exec js env (Op_play_stream argv) s = Some (playstream js argv s)"
| "audio_exec js env (Op_pause_stream argv) s = Some (pausestream js argv s)"
| "audio_exec js env (Op_resume_stream argv) s = Some (resumestream js argv s)"
| "audio_exec js env (Op_stop_stream argv) s = Some (stopstream js argv s)"
| "audio_exec js env (Op_is_stream_playing argv) s = Some (streamplaying js argv s)"
| "audio_exec js env (Op_set_stream_volume argv) s = Some (streamvol js argv s)"
| "audio_exec js env (Op_seek_stream argv) s = Some (streamseek js argv s)"
| "audio_exec js env (Op_get_stream_position argv) s = Some (streampos js argv s)"
| "audio_exec js env (Op_get_stream_duration argv) s = Some (streamdur js argv s)"
| "audio_exec js env (Op_term argv) s = audio_term argv s"
| "audio_exec js env Op_mix s = map_option (Pair (Inr JUndefined)) (mixthread env s)"

inductive audio_step :: "js_engine \<Rightarrow> audio_env \<Rightarrow> audio_state \<Rightarrow> audio_state \<Rightarrow> bool" for js env where
  exec: "audio_exec js env op s = Some (r, s') \<Longrightarrow> audio_step js env s s'"

inductive_cases audio_stepE: "audio_step js env s s'"

end
