(* ===== verification/Audio_Safety.thy ===== *)
theory Audio_Safety
  imports Audio
begin

text \<open>
  The audio module keeps its resources in order: the invariant of its state, that every
  operation and every pass of the mixer keeps it without undefined behaviour, and what follows
  for the states the module can reach.
\<close>

subsection \<open>The invariant\<close>

text \<open>A used clip owns its block of samples, an open stream owns its file.\<close>

definition block_of :: "clip \<Rightarrow> nat option" where
  "block_of c = (if c_used c then Some (c_samples c) else None)"

definition block_good :: "clip \<Rightarrow> (int \<times> int) list \<Rightarrow> bool" where
  "block_good c xs \<longleftrightarrow> c_samples c \<noteq> 0 \<and> length xs = c_frames c \<and> c_frames c < 2 ^ 30 \<and> (\<forall>(l, r)\<in>set xs. int16 l \<and> int16 r)"

definition stream_handle :: "stream \<Rightarrow> handle option" where
  "stream_handle st = (if s_type st = STREAM_OGG \<and> s_ogg_open st then Some (s_ogg_file st) else s_f st)"

definition handle_good :: "stream \<Rightarrow> nat list \<Rightarrow> bool" where
  "handle_good st bytes \<longleftrightarrow> s_used st \<and> 0 < s_rate st \<and> stream_ok (\<lambda>_. Some bytes) st"

interpretation blocks: owned_table block_of block_good clip_zero
  by unfold_locales (simp add: block_of_def clip_zero_def)

interpretation handles: owned_table stream_handle handle_good stream_zero
  by unfold_locales (simp add: stream_handle_def stream_zero_def)

definition voice_ok :: "clip list \<Rightarrow> voice \<Rightarrow> bool" where
  "voice_ok cs v \<longleftrightarrow> unit_vol (v_vol v) \<and>
     (v_active v \<longrightarrow> 0 \<le> v_clip v \<and> v_clip v < int MAX_CLIPS \<and> c_used (cs ! nat (v_clip v)))"

text \<open>The tables; then the whole state.\<close>

definition tables_ok :: "audio_state \<Rightarrow> bool" where
  "tables_ok s \<longleftrightarrow> length (clips s) = MAX_CLIPS \<and> length (voices s) = MAX_VOICES \<and> length (streams s) = MAX_STREAMS \<and>
     owns block_of block_good (clips s) (heap s) \<and> owns stream_handle handle_good (streams s) (files s) \<and>
     (\<forall>st\<in>set (streams s). s_used st \<longrightarrow> stream_handle st \<noteq> None) \<and> (\<forall>v\<in>set (voices s). voice_ok (clips s) v)"

definition all_idle :: "audio_state \<Rightarrow> bool" where
  "all_idle s \<longleftrightarrow> (\<forall>c\<in>set (clips s). \<not> c_used c) \<and> (\<forall>v\<in>set (voices s). \<not> v_active v) \<and> (\<forall>st\<in>set (streams s). \<not> s_used st)"

definition audio_inv :: "audio_state \<Rightarrow> bool" where
  "audio_inv s \<longleftrightarrow> tables_ok s \<and> unit_vol (master s) \<and> 0 < next_id s \<and>
     (\<forall>n\<ge>next_id s. heap s n = None \<and> files s n = None) \<and>
     (if initialized s then 0 \<le> port s \<and> mutex_init s else all_idle s \<and> \<not> running s)"

text \<open>
  What the surroundings have to provide: files the parser returns on, a decoder that delivers or
  stops, and numbers of JavaScript that are numbers.
\<close>

definition audio_world :: "js_engine \<Rightarrow> audio_env \<Rightarrow> bool" where
  "audio_world js env \<longleftrightarrow> ogg_live (a_ogg env) \<and> (\<forall>h p bytes. a_fs env h p = Some bytes \<longrightarrow> clip_tame bytes) \<and>
     (\<forall>h ch rate. a_ogg_info env h = Some (ch, rate) \<longrightarrow> rate < 2 ^ 31) \<and> (\<forall>h. a_ogg_total env h < 2 ^ 52) \<and>
     (\<forall>v. ToFloat64 js v \<noteq> Some NaN)"

lemma did_audio [simp]:
  "clips (did c s) = clips s" "voices (did c s) = voices s" "streams (did c s) = streams s" "heap (did c s) = heap s"
  "files (did c s) = files s" "next_id (did c s) = next_id s" "mutex_init (did c s) = mutex_init s"
  "initialized (did c s) = initialized s" "port (did c s) = port s" "running (did c s) = running s"
  "master (did c s) = master s" "js_pending (did c s) = js_pending s" for s :: audio_state
  by (simp_all add: did_def)

lemma tables_did [simp]: "tables_ok (did c s) = tables_ok s" "all_idle (did c s) = all_idle s"
  by (simp_all add: tables_ok_def all_idle_def)

lemma inv_did [simp]: "audio_inv (did c s) = audio_inv s"
  by (simp add: audio_inv_def)

lemma tables_control [simp]:
  "tables_ok (s\<lparr>js_pending := e\<rparr>) = tables_ok s" "tables_ok (s\<lparr>running := r\<rparr>) = tables_ok s" "tables_ok (s\<lparr>master := m\<rparr>) = tables_ok s"
  "tables_ok (s\<lparr>port := p\<rparr>) = tables_ok s" "tables_ok (s\<lparr>mutex_init := b\<rparr>) = tables_ok s" "tables_ok (s\<lparr>initialized := b\<rparr>) = tables_ok s"
  "all_idle (s\<lparr>js_pending := e\<rparr>) = all_idle s" "all_idle (s\<lparr>running := r\<rparr>) = all_idle s" "all_idle (s\<lparr>master := m\<rparr>) = all_idle s"
  "all_idle (s\<lparr>port := p\<rparr>) = all_idle s" "all_idle (s\<lparr>mutex_init := b\<rparr>) = all_idle s" "all_idle (s\<lparr>initialized := b\<rparr>) = all_idle s"
  by (simp_all add: tables_ok_def all_idle_def)

lemma inv_pending [simp]: "audio_inv (s\<lparr>js_pending := e\<rparr>) = audio_inv s"
  by (simp add: audio_inv_def)

text \<open>Replacing a table.\<close>

lemma inv_voices:
  assumes "audio_inv s" and "length vs = MAX_VOICES" and "\<forall>v\<in>set vs. voice_ok (clips s) v" and "initialized s"
  shows "audio_inv (s\<lparr>voices := vs\<rparr>)"
  using assms by (simp add: audio_inv_def tables_ok_def)

lemma inv_streams:
  assumes "audio_inv s" and "length sts = MAX_STREAMS" and "owns stream_handle handle_good sts (files s)"
    and "\<forall>st\<in>set sts. s_used st \<longrightarrow> stream_handle st \<noteq> None" and "initialized s"
  shows "audio_inv (s\<lparr>streams := sts\<rparr>)"
  using assms by (simp add: audio_inv_def tables_ok_def)

subsection \<open>Volumes and positions\<close>

lemma clampv_unit: "v \<noteq> NaN \<Longrightarrow> unit_vol (clampv v)"
  by (cases v) (auto simp: clampv_def unit_vol_def)

lemma getvol_unit: "audio_world js env \<Longrightarrow> getvol js v = Some vol \<Longrightarrow> unit_vol vol"
  by (auto simp: getvol_def audio_world_def intro!: clampv_unit fcvt_not_nan)

lemma play_options_unit:
  "audio_world js env \<Longrightarrow> get_play_options js argv = Some (vol, loop) \<Longrightarrow> unit_vol vol"
  by (auto simp: get_play_options_def unit_vol_def [of "Fin 1"] intro: getvol_unit split: option.splits if_splits)

lemma seek_position_ok:
  assumes "seconds \<noteq> NaN" and "0 < s_rate st" and "s_rate st < 2 ^ 32" and "0 \<le> s_frames st" and "s_frames st < 2 ^ 52"
  shows "\<exists>p. seek_position st seconds = Fin p \<and> 0 \<le> p"
proof -
  let ?sec = "if flt_less seconds (Fin 0) then Fin 0 else seconds"
  have "fnonneg ?sec" using assms(1) by (cases seconds) auto
  moreover have "of_c_int f64 (int (s_rate st)) = Fin (of_nat (s_rate st))" using assms(3) by (simp add: of_c_int64)
  ultimately have "fnonneg (fmul f64 ?sec (of_c_int f64 (int (s_rate st))))" using assms(2) by (simp add: fmul_nonneg)
  moreover have "of_c_int f64 (s_frames st) = Fin (of_int (s_frames st))" using assms(4,5) by (simp add: of_c_int64)
  ultimately show ?thesis using assms(4)
    by (cases "fmul f64 ?sec (of_c_int f64 (int (s_rate st)))") (auto simp: seek_position_def Let_def)
qed

subsection \<open>The mixer\<close>

lemma voice_term_int16: "int16 l \<Longrightarrow> unit_vol gain \<Longrightarrow> \<exists>v. voice_term l gain = Some v \<and> int16 v"
proof -
  assume l: "int16 l" and "unit_vol gain"
  then obtain g where g: "gain = Fin g" "0 \<le> g" "g \<le> 1" by (auto simp: unit_vol_def)
  have "\<bar>l\<bar> < 2 ^ 24" using l by (auto simp: int16_def)
  then have "of_c_int f32 l = Fin (of_int l)" by (simp add: of_c_int_def b32.fround_int)
  moreover have "int16 (min 0 l)" "int16 (max 0 l)" using l by (auto simp: int16_def)
  ultimately show ?thesis using scaled_int16 [of "min 0 l" "max 0 l" "of_int l" g] g by (simp add: voice_term_def)
qed

lemma headroom_mono: "headroom n acc \<Longrightarrow> n \<le> m \<Longrightarrow> headroom m acc"
  by (auto simp: headroom_def)

lemma voice_play_ok:
  assumes "h (c_samples c) = Some xs" and "block_good c xs" and "v_pos v < c_frames c" and "unit_vol (v_vol v)" and "unit_vol m"
    and "headroom n acc" and "0 \<le> n" and "n < 60000"
  shows "\<exists>acc' p. voice_play h m c v acc = Some (acc', v\<lparr>v_pos := p\<rparr>) \<and> headroom (n + 1) acc'"
proof -
  obtain l r where lr: "xs ! v_pos v = (l, r)" by fastforce
  have i: "v_pos v < length xs" using assms(2,3) by (simp add: block_good_def)
  with lr assms(2) have "int16 l" "int16 r" by (auto simp: block_good_def dest!: bspec [OF _ nth_mem])
  moreover have g: "unit_vol (fmul f32 (v_vol v) m)" using assms(4,5) by (rule unit_vol_mul)
  ultimately obtain a b where ab: "voice_term l (fmul f32 (v_vol v) m) = Some a" "int16 a"
      "voice_term r (fmul f32 (v_vol v) m) = Some b" "int16 b" using voice_term_int16 by meson
  obtain acc' where "accumulate acc (Some a) (Some b) = Some acc'" "headroom (n + 1) acc'"
    using accumulate_headroom [OF assms(6-8) ab(2,4)] by blast
  then show ?thesis using ab lr i assms(1) by (auto simp: voice_play_def cell_def Let_def)
qed

lemma mix_voice_ok:
  assumes "owns block_of block_good cs h" and "length cs = MAX_CLIPS" and "voice_ok cs v" and "unit_vol m"
    and "headroom n acc" and "0 \<le> n" and "n < 60000"
  shows "\<exists>acc' v'. mix_voice cs h m v acc = Some (acc', v') \<and> headroom (n + 1) acc' \<and> voice_ok cs v'"
proof (cases "v_active v")
  case False
  with assms(3,5) headroom_mono [of n acc "n + 1"] show ?thesis by (simp add: mix_voice_def)
next
  case True
  with assms(3) have c: "0 \<le> v_clip v" "v_clip v < int MAX_CLIPS" "c_used (cs ! nat (v_clip v))" and vol: "unit_vol (v_vol v)"
    by (auto simp: voice_ok_def)
  let ?c = "cs ! nat (v_clip v)"
  have "?c \<in> set cs" using c assms(2) by (intro nth_mem) auto
  with owns_good [OF assms(1) this] c(3) obtain xs where xs: "h (c_samples ?c) = Some xs" "block_good ?c xs"
    by (auto simp: block_of_def)
  have off: "voice_ok cs (v\<lparr>v_active := False\<rparr>)" and pos: "voice_ok cs (v\<lparr>v_pos := p\<rparr>)" for p
    using assms(3) by (auto simp: voice_ok_def)
  show ?thesis
  proof (cases "v_pos v < c_frames ?c")
    case True
    with voice_play_ok [where h = h, OF xs True vol assms(4-7)] \<open>v_active v\<close> c pos show ?thesis by (auto simp: mix_voice_def)
  next
    case False
    show ?thesis
    proof (cases "v_loop v \<and> c_frames ?c \<noteq> 0")
      case True
      with voice_play_ok [where h = h, OF xs, of "v\<lparr>v_pos := 0\<rparr>" m n acc] vol assms(4-7) False \<open>v_active v\<close> c pos
      show ?thesis by (auto simp: mix_voice_def)
    next
      case stop: False
      then have "mix_voice cs h m v acc = Some (acc, v\<lparr>v_active := False\<rparr>)"
        using False \<open>v_active v\<close> c by (auto simp: mix_voice_def Let_def)
      with off assms(5) headroom_mono [of n acc "n + 1"] show ?thesis by simp
    qed
  qed
qed

lemma mix_list_ok:
  assumes "\<And>x acc n. x \<in> set xs \<Longrightarrow> headroom n acc \<Longrightarrow> 0 \<le> n \<Longrightarrow> n < 60000 \<Longrightarrow>
      \<exists>acc' y. f x acc = Some (acc', y) \<and> headroom (n + 1) acc' \<and> R x y"
    and "headroom n acc" and "0 \<le> n" and "n + int (length xs) \<le> 60000"
  shows "\<exists>acc' ys. mix_list f xs acc = Some (acc', ys) \<and> headroom (n + int (length xs)) acc' \<and> list_all2 R xs ys"
  using assms
proof (induction xs arbitrary: n acc)
  case (Cons x xs)
  obtain acc1 y where x: "f x acc = Some (acc1, y)" "headroom (n + 1) acc1" "R x y"
    using Cons.prems(1) [of x n acc] Cons.prems(2-4) by auto
  obtain acc2 ys where xs: "mix_list f xs acc1 = Some (acc2, ys)" "headroom (n + 1 + int (length xs)) acc2" "list_all2 R xs ys"
    using Cons.IH [of "n + 1" acc1] Cons.prems(1,3,4) x(2) by auto
  have "n + int (length (x # xs)) = n + 1 + int (length xs)" by simp
  with x xs show ?case by (simp add: ac_simps)
qed simp


lemma stream_ok_at:
  assumes "stream_handle st = Some h" and "ft h = Some bytes"
  shows "stream_ok ft st \<longleftrightarrow> stream_ok (\<lambda>_. Some bytes) st"
proof -
  have "wav_stream ft st b \<longleftrightarrow> wav_stream (\<lambda>_. Some bytes) st b" for b
    using assms by (auto simp: wav_stream_def stream_handle_def)
  then show ?thesis by (simp add: stream_ok_def wav_source_def)
qed

lemma mix_voices_ok:
  assumes "tables_ok s" and "unit_vol m"
  shows "\<exists>acc vs. mix_list (mix_voice (clips s) (heap s) m) (voices s) (0, 0) = Some (acc, vs) \<and> headroom 16 acc \<and>
    length vs = MAX_VOICES \<and> (\<forall>v\<in>set vs. voice_ok (clips s) v)"
proof -
  have "\<exists>acc vs. mix_list (mix_voice (clips s) (heap s) m) (voices s) (0, 0) = Some (acc, vs) \<and>
      headroom (0 + int (length (voices s))) acc \<and> list_all2 (\<lambda>v v'. voice_ok (clips s) v') (voices s) vs"
  proof (rule mix_list_ok)
    fix v acc n
    assume "v \<in> set (voices s)" "headroom n acc" "0 \<le> n" "n < 60000"
    then show "\<exists>acc' v'. mix_voice (clips s) (heap s) m v acc = Some (acc', v') \<and> headroom (n + 1) acc' \<and> voice_ok (clips s) v'"
      using assms by (intro mix_voice_ok) (auto simp: tables_ok_def)
  qed (use assms(1) in \<open>simp_all add: headroom_def tables_ok_def audio_limits\<close>)
  moreover have "\<forall>v\<in>set vs. voice_ok (clips s) v" if "list_all2 (\<lambda>v v'. voice_ok (clips s) v') (voices s) vs" for vs
    using that by (auto simp: list_all2_conv_all_nth in_set_conv_nth)
  ultimately show ?thesis using assms(1) by (fastforce simp: tables_ok_def audio_limits dest: list_all2_lengthD)
qed

text \<open>What a stream may become while it plays.\<close>

definition stream_moves :: "file_table \<Rightarrow> stream \<Rightarrow> stream \<Rightarrow> bool" where
  "stream_moves ft st st' \<longleftrightarrow> stream_handle st' = stream_handle st \<and> s_used st' = s_used st \<and> s_rate st' = s_rate st \<and>
     stream_ok ft st'"

lemma stream_moves_owns:
  assumes "owns stream_handle handle_good sts ft" and "list_all2 (stream_moves ft) sts sts'"
  shows "owns stream_handle handle_good sts' ft"
proof (rule owns_cong [OF assms(1)])
  show "list_all2 (\<lambda>x y. stream_handle y = stream_handle x \<and>
      (\<forall>b v. stream_handle x = Some b \<and> ft b = Some v \<and> handle_good x v \<longrightarrow> handle_good y v)) sts sts'"
    using assms(2)
  proof (rule list_all2_mono)
    fix x y
    assume "stream_moves ft x y"
    then have m: "stream_handle y = stream_handle x" "s_used y = s_used x" "s_rate y = s_rate x" "stream_ok ft y"
      by (auto simp: stream_moves_def)
    then show "stream_handle y = stream_handle x \<and>
        (\<forall>b v. stream_handle x = Some b \<and> ft b = Some v \<and> handle_good x v \<longrightarrow> handle_good y v)"
      using stream_ok_at [of y _ ft] by (auto simp: handle_good_def)
  qed
qed

lemma mix_streams_ok:
  assumes "ogg_live ogg" and "tables_ok s" and "unit_vol m" and "headroom 16 acc"
  shows "\<exists>acc' sts. mix_list (mix_stream ogg (files s) m) (streams s) acc = Some (acc', sts) \<and> list_all2 (stream_moves (files s)) (streams s) sts"
proof -
  have "\<exists>acc' sts. mix_list (mix_stream ogg (files s) m) (streams s) acc = Some (acc', sts) \<and>
      headroom (16 + int (length (streams s))) acc' \<and> list_all2 (stream_moves (files s)) (streams s) sts"
  proof (rule mix_list_ok)
    fix st acc n
    assume st: "st \<in> set (streams s)" and n: "headroom n acc" "0 \<le> n" "n < 60000"
    have "stream_ok (files s) st"
    proof (cases "s_used st")
      case True
      with st assms(2) obtain h where h: "stream_handle st = Some h" by (auto simp: tables_ok_def)
      with st assms(2) obtain bytes where "files s h = Some bytes" "handle_good st bytes"
        using owns_good [of stream_handle handle_good "streams s" "files s" st h] by (auto simp: tables_ok_def)
      with stream_ok_at [OF h, of "files s" bytes] show ?thesis by (simp add: handle_good_def)
    qed (simp add: stream_ok_def)
    from mix_stream_ok [OF assms(1) this assms(3) n] obtain acc' st' where
      "mix_stream ogg (files s) m st acc = Some (acc', st')" "headroom (n + 1) acc'" "stream_ok (files s) st'" "same_handles st st'"
      by blast
    then show "\<exists>acc' st'. mix_stream ogg (files s) m st acc = Some (acc', st') \<and> headroom (n + 1) acc' \<and> stream_moves (files s) st st'"
      by (intro exI [of _ acc'] exI [of _ st']) (simp add: stream_moves_def same_handles_def stream_handle_def)
  qed (use assms(2,4) in \<open>simp_all add: tables_ok_def audio_limits\<close>)
  then show ?thesis by blast
qed

lemma mix_frame_ok:
  assumes "ogg_live (a_ogg env)" and "audio_inv s" and "unit_vol m" and "initialized s"
  shows "\<exists>l r vs sts. mix_frame env m s = Some ((l, r), s\<lparr>voices := vs, streams := sts\<rparr>) \<and> int16 l \<and> int16 r \<and>
    audio_inv (s\<lparr>voices := vs, streams := sts\<rparr>)"
proof -
  have t: "tables_ok s" using assms(2) by (simp add: audio_inv_def)
  obtain acc vs where vs: "mix_list (mix_voice (clips s) (heap s) m) (voices s) (0, 0) = Some (acc, vs)" "headroom 16 acc"
      "length vs = MAX_VOICES" "\<forall>v\<in>set vs. voice_ok (clips s) v"
    using mix_voices_ok [OF t assms(3)] by blast
  obtain acc' sts where sts: "mix_list (mix_stream (a_ogg env) (files s) m) (streams s) acc = Some (acc', sts)"
      "list_all2 (stream_moves (files s)) (streams s) sts"
    using mix_streams_ok [OF assms(1) t assms(3) vs(2)] by blast
  have "owns stream_handle handle_good sts (files s)" using t sts(2) by (auto simp: tables_ok_def intro: stream_moves_owns)
  moreover have "\<forall>st\<in>set sts. s_used st \<longrightarrow> stream_handle st \<noteq> None" "length sts = MAX_STREAMS"
    using t sts(2) by (fastforce simp: tables_ok_def stream_moves_def list_all2_conv_all_nth in_set_conv_nth)+
  ultimately have "audio_inv (s\<lparr>voices := vs, streams := sts\<rparr>)"
    using inv_streams [of "s\<lparr>voices := vs\<rparr>" sts] inv_voices [OF assms(2) vs(3,4) assms(4)] assms(4) by simp
  moreover have "mix_frame env m s = Some ((clamp16 (fst acc'), clamp16 (snd acc')), s\<lparr>voices := vs, streams := sts\<rparr>)"
    using vs(1) sts(1) by (simp add: mix_frame_def)
  ultimately show ?thesis using clamp16_int16 by blast
qed

lemma mix_frames_ok:
  assumes "ogg_live (a_ogg env)" and "audio_inv s" and "unit_vol m" and "initialized s"
  shows "\<exists>fs vs sts. mix_frames env m n s = Some (fs, s\<lparr>voices := vs, streams := sts\<rparr>) \<and> length fs = n \<and>
    (\<forall>(l, r)\<in>set fs. int16 l \<and> int16 r) \<and> audio_inv (s\<lparr>voices := vs, streams := sts\<rparr>)"
  using assms(2,4)
proof (induction n arbitrary: s)
  case 0
  then show ?case by (intro exI [of _ "[]"] exI [of _ "voices s"] exI [of _ "streams s"]) simp
next
  case (Suc n)
  obtain l r vs sts where 1: "mix_frame env m s = Some ((l, r), s\<lparr>voices := vs, streams := sts\<rparr>)" "int16 l" "int16 r"
      "audio_inv (s\<lparr>voices := vs, streams := sts\<rparr>)"
    using mix_frame_ok [OF assms(1) Suc.prems(1) assms(3) Suc.prems(2)] by blast
  obtain fs vs' sts' where "mix_frames env m n (s\<lparr>voices := vs, streams := sts\<rparr>) = Some (fs, s\<lparr>voices := vs', streams := sts'\<rparr>)"
      "length fs = n" "\<forall>(l, r)\<in>set fs. int16 l \<and> int16 r" "audio_inv (s\<lparr>voices := vs', streams := sts'\<rparr>)"
    using Suc.IH [OF 1(4)] Suc.prems(2) by auto
  with 1 show ?case by auto
qed


lemma inv_running: "audio_inv s \<Longrightarrow> running s \<Longrightarrow> initialized s"
  by (auto simp: audio_inv_def split: if_splits)

lemma inv_stop: "audio_inv s \<Longrightarrow> audio_inv (s\<lparr>running := False\<rparr>)"
  by (simp add: audio_inv_def)

lemma inv_master: "audio_inv s \<Longrightarrow> unit_vol m \<Longrightarrow> audio_inv (s\<lparr>master := m\<rparr>)"
  by (simp add: audio_inv_def)

lemma mixthread_ok:
  assumes "ogg_live (a_ogg env)" and "audio_inv s"
  shows "\<exists>s'. mixthread env s = Some s' \<and> audio_inv s'"
proof (cases "running s")
  case True
  have "unit_vol (master s)" using assms(2) by (simp add: audio_inv_def)
  from mix_frames_ok [OF assms this inv_running [OF assms(2) True], of GRAIN]
  obtain fs vs sts where "mix_frames env (master s) GRAIN s = Some (fs, s\<lparr>voices := vs, streams := sts\<rparr>)"
      "audio_inv (s\<lparr>voices := vs, streams := sts\<rparr>)" by blast
  with True show ?thesis by (simp add: mixthread_def Let_def inv_stop)
qed (simp add: mixthread_def assms(2))

subsection \<open>Operations on clips and voices\<close>

lemma tables_cleared:
  assumes "tables_ok s" and "all_idle s"
  shows "heap s = Map.empty" and "files s = Map.empty"
proof -
  have "\<forall>c\<in>set (clips s). block_of c = None" using assms(2) by (auto simp: all_idle_def block_of_def)
  with assms(1) show "heap s = Map.empty" by (simp add: tables_ok_def owns_none)
  have "stream_handle st = None" if "st \<in> set (streams s)" for st
  proof (rule ccontr)
    assume "stream_handle st \<noteq> None"
    then obtain h where h: "stream_handle st = Some h" by blast
    with assms(1) that owns_good [of stream_handle handle_good "streams s" "files s" st h] have "s_used st"
      by (auto simp: tables_ok_def handle_good_def)
    with that assms(2) show False by (auto simp: all_idle_def)
  qed
  with assms(1) show "files s = Map.empty" by (simp add: tables_ok_def owns_none)
qed

lemma blank_slots [simp]: "\<not> s_used stream_zero" "\<not> c_used clip_zero" "\<not> v_active voice_zero" "voice_ok cs voice_zero"
  by (simp_all add: stream_zero_def clip_zero_def voice_zero_def voice_ok_def unit_vol_def)

lemma cleared_ok:
  assumes "heap s = Map.empty" and "files s = Map.empty"
  shows "tables_ok (clear_tables s)" and "all_idle (clear_tables s)"
  using assms by (simp_all add: tables_ok_def all_idle_def clear_tables_def blocks.blank_table handles.blank_table)

lemma tables_fresh:
  assumes "tables_ok s" and "all_idle s"
  shows "tables_ok (s\<lparr>voices := map (v_clip_update f) (voices s)\<rparr>)" and "all_idle (s\<lparr>voices := map (v_clip_update f) (voices s)\<rparr>)"
  using assms by (auto simp: tables_ok_def all_idle_def voice_ok_def)

lemma audio_ensure_ok:
  assumes "audio_inv s" and "ensure env s = (r, s')"
  shows "audio_inv s'" and "0 \<le> r \<Longrightarrow> initialized s'"
proof -
  have "audio_inv s' \<and> (0 \<le> r \<longrightarrow> initialized s')"
  proof (cases "initialized s")
    case True
    with assms show ?thesis by (auto simp: ensure_def)
  next
    case False
    with assms(1) have i: "tables_ok s" "all_idle s" "\<not> running s" "unit_vol (master s)" "0 < next_id s"
        "\<forall>n\<ge>next_id s. heap s n = None \<and> files s n = None"
      by (auto simp: audio_inv_def)
    note e = tables_cleared [OF i(1,2)]
    have c: "tables_ok (clear_tables t)" "all_idle (clear_tables t)" if "heap t = Map.empty" "files t = Map.empty" for t
      using cleared_ok that by simp_all
    have u: "unit_vol (Fin 1)" by (simp add: unit_vol_def)
    have keep: "heap (clear_tables t) = heap t" "files (clear_tables t) = files t" "next_id (clear_tables t) = next_id t"
      "port (clear_tables t) = port t" "mutex_init (clear_tables t) = mutex_init t" "initialized (clear_tables t) = initialized t" for t
      by (simp_all add: clear_tables_def)
    show ?thesis
      using assms(2) False i e u
      by (auto simp: ensure_def Let_def audio_inv_def keep tables_fresh c split: if_splits)
  qed
  then show "audio_inv s'" "0 \<le> r \<Longrightarrow> initialized s'" by simp_all
qed


lemma getid_range: "getid js v n name = Inr k \<Longrightarrow> k < n"
  by (auto simp: getid_def split: option.splits if_splits)

text \<open>The contract of an operation: it never misbehaves and keeps the invariant.\<close>

definition safe :: "(jsval js_result \<times> audio_state) option \<Rightarrow> bool" where
  "safe out \<longleftrightarrow> (\<exists>r s'. out = Some (r, s') \<and> audio_inv s')"

lemma safe_Some [simp]: "safe (Some (r, s)) \<longleftrightarrow> audio_inv s"
  by (simp add: safe_def)

lemma safe_out: "safe (Some out) \<longleftrightarrow> audio_inv (snd out)"
  by (cases out) simp

lemma voices_length: "audio_inv s \<Longrightarrow> length (voices s) = MAX_VOICES"
  and clips_length: "audio_inv s \<Longrightarrow> length (clips s) = MAX_CLIPS"
  and streams_length: "audio_inv s \<Longrightarrow> length (streams s) = MAX_STREAMS"
  by (simp_all add: audio_inv_def tables_ok_def)

lemma inv_voice:
  assumes "audio_inv s" and "initialized s" and "i < MAX_VOICES" and "voice_ok (clips s) (voices s ! i) \<Longrightarrow> voice_ok (clips s) v"
  shows "audio_inv (s\<lparr>voices := (voices s)[i := v]\<rparr>)"
proof (rule inv_voices [OF assms(1) _ _ assms(2)])
  have l: "length (voices s) = MAX_VOICES" and all: "\<forall>v\<in>set (voices s). voice_ok (clips s) v"
    using assms(1) by (auto simp: audio_inv_def tables_ok_def)
  show "length ((voices s)[i := v]) = MAX_VOICES" using l by simp
  have "voice_ok (clips s) v" using assms(3,4) l all by simp
  with all show "\<forall>v\<in>set ((voices s)[i := v]). voice_ok (clips s) v" using set_update_subset_insert by fastforce
qed

lemma play_ok:
  assumes "audio_world js env" and "audio_inv s"
  shows "safe (Some (play js env argv s))"
proof -
  obtain r s1 where e: "ensure env s = (r, s1)" by fastforce
  note 1 = audio_ensure_ok [OF assms(2) e]
  have "audio_inv (s1\<lparr>voices := (voices s1)[nat (freevoice s1) :=
      \<lparr>v_active = True, v_clip = int k, v_pos = 0, v_vol = vol, v_loop = l\<rparr>]\<rparr>)"
    if "\<not> r < 0" "getid js (argv ! 0) MAX_CLIPS ''clip'' = Inr k" "get_play_options js argv = Some (vol, l)"
      "c_used (clips s1 ! k)" "0 \<le> freevoice s1" for k vol l
  proof (rule inv_voice [OF 1(1)])
    show "initialized s1" using that(1) 1(2) by simp
    show "nat (freevoice s1) < MAX_VOICES"
      using scan.search_slot [of v_active "voices s1"] that(5) voices_length [OF 1(1)] by (simp add: freevoice_def)
    show "voice_ok (clips s1) \<lparr>v_active = True, v_clip = int k, v_pos = 0, v_vol = vol, v_loop = l\<rparr>"
      using that(4) getid_range [OF that(2)] play_options_unit [OF assms(1) that(3)] by (simp add: voice_ok_def)
  qed
  with assms(2) 1(1) e show ?thesis
    unfolding play_def by (auto simp: safe_out Let_def split: sum.splits option.splits)
qed

lemma stop_ok: "audio_inv s \<Longrightarrow> safe (Some (stop js argv s))"
  using getid_range [of js "argv ! 0" MAX_VOICES "''voice''"]
  by (auto simp: stop_def voice_ok_def intro!: inv_voice split: sum.splits)

lemma stopped_streams:
  assumes "owns stream_handle handle_good sts ft"
  shows "owns stream_handle handle_good (map (s_playing_update (\<lambda>_. False)) sts) ft"
proof (rule owns_cong [OF assms])
  have "handle_good (st\<lparr>s_playing := False\<rparr>) v = handle_good st v" "stream_handle (st\<lparr>s_playing := False\<rparr>) = stream_handle st" for st v
    using wav_src.source_playing [where files = "\<lambda>_. Some v" and s = st and b = False]
    by (simp_all add: handle_good_def stream_ok_def stream_params_def stream_handle_def ogg_source_def cache_shape_def)
  then show "list_all2 (\<lambda>x y. stream_handle y = stream_handle x \<and>
      (\<forall>b v. stream_handle x = Some b \<and> ft b = Some v \<and> handle_good x v \<longrightarrow> handle_good y v)) sts (map (s_playing_update (\<lambda>_. False)) sts)"
    by (simp add: list_all2_conv_all_nth)
qed

lemma stopall_ok: "audio_inv s \<Longrightarrow> safe (Some (stopall argv s))"
proof -
  assume i: "audio_inv s"
  have "audio_inv (s\<lparr>voices := map (v_active_update (\<lambda>_. False)) (voices s), streams := map (s_playing_update (\<lambda>_. False)) (streams s)\<rparr>)"
    if "initialized s"
    using i that stopped_streams
    by (auto simp: audio_inv_def tables_ok_def voice_ok_def stream_handle_def split: if_splits)
  with i show ?thesis by (auto simp: stopall_def)
qed

lemma isplaying_ok: "audio_inv s \<Longrightarrow> safe (Some (isplaying js argv s))"
  by (auto simp: isplaying_def split: sum.splits)

lemma voicevol_ok: "audio_world js env \<Longrightarrow> audio_inv s \<Longrightarrow> safe (Some (voicevol js argv s))"
  using getid_range [of js "argv ! 0" MAX_VOICES "''voice''"] getvol_unit [of js env "argv ! 1"]
  by (auto simp: voicevol_def voice_ok_def intro!: inv_voice split: sum.splits option.splits)

lemma masterm_ok:
  assumes "audio_world js env" and "audio_inv s"
  shows "safe (Some (masterm js env argv s))"
proof -
  obtain r s1 where e: "ensure env s = (r, s1)" by fastforce
  with audio_ensure_ok [OF assms(2) e] getvol_unit [OF assms(1)] assms(2) show ?thesis
    by (auto simp: masterm_def intro: inv_master split: option.splits)
qed

lemma getmaster_ok: "audio_inv s \<Longrightarrow> safe (Some (getmaster argv s))"
  by (simp add: getmaster_def)


lemma fresh_block: "audio_inv s \<Longrightarrow> heap s (next_id s) = None"
  and fresh_handle: "audio_inv s \<Longrightarrow> files s (next_id s) = None"
  by (simp_all add: audio_inv_def)

text \<open>A new clip in an empty slot: voices keep playing what they played.\<close>

lemma inv_new_clip:
  assumes "audio_inv s" and "initialized s" and "i < MAX_CLIPS" and "\<not> c_used (clips s ! i)"
    and "length xs < 2 ^ 30" and "\<forall>(l, r)\<in>set xs. int16 l \<and> int16 r"
  shows "audio_inv (s\<lparr>heap := (heap s)(next_id s \<mapsto> xs), next_id := next_id s + 1,
    clips := (clips s)[i := \<lparr>c_used = True, c_samples = next_id s, c_frames = length xs\<rparr>]\<rparr>)"
    (is "audio_inv (s\<lparr>heap := ?h, next_id := _, clips := ?cs\<rparr>)")
proof -
  let ?c = "\<lparr>c_used = True, c_samples = next_id s, c_frames = length xs\<rparr>"
  have t: "tables_ok s" and n: "0 < next_id s" and l: "length (clips s) = MAX_CLIPS"
    using assms(1) by (auto simp: audio_inv_def tables_ok_def)
  have "owns block_of block_good ?cs ?h"
    using t assms(3-6) l fresh_block [OF assms(1)] n
    by (intro blocks.install) (auto simp: tables_ok_def block_of_def block_good_def)
  moreover have "voice_ok ?cs v" if "voice_ok (clips s) v" for v
  proof -
    have "c_used (?cs ! k)" if "c_used (clips s ! k)" "k < MAX_CLIPS" for k
      using that l by (cases "k = i") auto
    then show ?thesis using that by (auto simp: voice_ok_def)
  qed
  ultimately show ?thesis using assms(1,2) t l by (simp add: audio_inv_def tables_ok_def)
qed

lemma inv_next_id: "audio_inv s \<Longrightarrow> audio_inv (s\<lparr>next_id := Suc (next_id s), heap := heap s\<rparr>)"
  by (auto simp: audio_inv_def tables_ok_def all_idle_def split: if_splits)

lemma loadwav_ok:
  assumes "audio_world js env" and "audio_inv s"
  shows "safe (loadwav js env argv s)"
proof -
  obtain r s1 where e: "ensure env s = (r, s1)" by fastforce
  note 1 = audio_ensure_ok [OF assms(2) e]
  have good: "\<exists>res ev. load_clip (a_fs env (trace s1)) (a_alloc env (trace s1)) path = Some (res, ev) \<and>
      (\<forall>out. res = Inr out \<longrightarrow> length out < 2 ^ 30 \<and> (\<forall>(l, r)\<in>set out. int16 l \<and> int16 r))" for path
    using assms(1) by (intro load_clip_tame) (auto simp: audio_world_def)
  show ?thesis
  proof (cases "length argv = 1 \<and> \<not> r < 0 \<and> ToCString js (argv ! 0) \<noteq> None")
    case False
    with assms(2) 1(1) e show ?thesis by (auto simp: loadwav_def)
  next
    case True
    then obtain path where path: "ToCString js (argv ! 0) = Some path" by blast
    have init: "initialized s1" using True 1(2) by simp
    obtain res ev where l: "load_clip (a_fs env (trace s1)) (a_alloc env (trace s1)) path = Some (res, ev)"
        "\<And>out. res = Inr out \<Longrightarrow> length out < 2 ^ 30 \<and> (\<forall>(l, r)\<in>set out. int16 l \<and> int16 r)"
      using good by blast
    show ?thesis
    proof (cases res)
      case (Inl code)
      with True path e l 1(1) show ?thesis by (simp add: loadwav_def)
    next
      case (Inr out)
      let ?s = "did (FileOpen path) s1"
      have i: "audio_inv ?s" "initialized ?s" using 1(1) init by simp_all
      show ?thesis
      proof (cases "0 \<le> freeclip s1")
        case slot: True
        then have "nat (freeclip s1) < MAX_CLIPS" "\<not> c_used (clips s1 ! nat (freeclip s1))"
          using scan.search_slot [of c_used "clips s1"] clips_length [OF 1(1)] by (auto simp: freeclip_def)
        with inv_new_clip [OF i, of "nat (freeclip s1)" out] l(2) [OF Inr] True slot path e l(1) Inr
        show ?thesis by (simp add: loadwav_def new_block_def freeclip_def Let_def)
      next
        case full: False
        have "((heap s1)(next_id s1 \<mapsto> out))(next_id s1 := None) = heap s1" using fresh_block [OF 1(1)] by (auto simp: fun_upd_def)
        moreover have "0 < next_id s1" using 1(1) by (simp add: audio_inv_def)
        ultimately show ?thesis using True full path e l(1) Inr inv_next_id [OF 1(1)]
          by (simp add: loadwav_def new_block_def freeclip_def free_block_def Let_def inv_next_id [OF i(1), simplified])
      qed
    qed
  qed
qed

lemma stop_voices_of_ok:
  assumes "\<forall>v\<in>set vs. voice_ok cs v" and "length cs = MAX_CLIPS" and "i < MAX_CLIPS"
  shows "\<forall>v\<in>set (stop_voices_of i vs). voice_ok (cs[i := clip_zero]) v"
proof
  fix v
  assume "v \<in> set (stop_voices_of i vs)"
  then obtain w where w: "voice_ok cs w" "v = (if v_active w \<and> v_clip w = int i then w\<lparr>v_active := False\<rparr> else w)"
    using assms(1) by (auto simp: stop_voices_of_def)
  show "voice_ok (cs[i := clip_zero]) v"
  proof (cases "v_active w \<and> v_clip w = int i")
    case True
    with w show ?thesis by (simp add: voice_ok_def)
  next
    case False
    with w show ?thesis by (auto simp: voice_ok_def)
  qed
qed

lemma freewav_ok:
  assumes "audio_inv s"
  shows "safe (freewav js argv s)"
proof (cases "length argv = 1 \<and> initialized s \<and> (\<exists>k. getid js (argv ! 0) MAX_CLIPS ''clip'' = Inr k)")
  case False
  with assms show ?thesis by (auto simp: freewav_def split: sum.splits)
next
  case True
  then obtain k where k: "getid js (argv ! 0) MAX_CLIPS ''clip'' = Inr k" by blast
  have kr: "k < MAX_CLIPS" using k by (rule getid_range)
  have t: "tables_ok s" and l: "length (clips s) = MAX_CLIPS" using assms by (auto simp: audio_inv_def tables_ok_def)
  let ?s = "s\<lparr>voices := stop_voices_of k (voices s)\<rparr>"
  have vs: "\<forall>v\<in>set (stop_voices_of k (voices s)). voice_ok ((clips s)[k := clip_zero]) v" "length (stop_voices_of k (voices s)) = MAX_VOICES"
    using stop_voices_of_ok t l kr by (auto simp: tables_ok_def stop_voices_of_def)
  have fin: "audio_inv (s\<lparr>voices := stop_voices_of k (voices s), heap := h, clips := (clips s)[k := clip_zero]\<rparr>)"
    if "owns block_of block_good ((clips s)[k := clip_zero]) h" "\<forall>n. heap s n = None \<longrightarrow> h n = None" for h
    using that vs assms True by (simp add: audio_inv_def tables_ok_def)
  show ?thesis
  proof (cases "c_used (clips s ! k)")
    case used: True
    then have b: "block_of (clips s ! k) = Some (c_samples (clips s ! k))" by (simp add: block_of_def)
    have ow: "owns block_of block_good (clips s) (heap s)" and kl: "k < length (clips s)" using t kr by (simp_all add: tables_ok_def)
    have "c_samples (clips s ! k) \<noteq> 0" using owns_good [OF ow nth_mem [OF kl] b] by (auto simp: block_good_def)
    with blocks.clear [OF ow kl b] fin used True k show ?thesis
      by (auto simp: freewav_def free_block_def Let_def)
  next
    case unused: False
    then have "owns block_of block_good ((clips s)[k := clip_zero]) (heap s)"
      using t kr by (intro blocks.clear_nothing) (auto simp: tables_ok_def block_of_def)
    with fin [of "heap s"] unused True k show ?thesis by (simp add: freewav_def Let_def)
  qed
qed


subsection \<open>Operations on streams\<close>

lemma inv_stream:
  assumes "audio_inv s" and "initialized s" and "i < MAX_STREAMS" and "stream_handle st = stream_handle (streams s ! i)"
    and "s_used st = s_used (streams s ! i)" and "\<And>v. handle_good (streams s ! i) v \<Longrightarrow> handle_good st v"
  shows "audio_inv (s\<lparr>streams := (streams s)[i := st]\<rparr>)"
proof (rule inv_streams [OF assms(1) _ _ _ assms(2)])
  have t: "tables_ok s" using assms(1) by (simp add: audio_inv_def)
  then show "length ((streams s)[i := st]) = MAX_STREAMS" by (simp add: tables_ok_def)
  show "owns stream_handle handle_good ((streams s)[i := st]) (files s)"
    using t assms(3-) by (intro handles.change) (auto simp: tables_ok_def)
  have "streams s ! i \<in> set (streams s)" using t assms(3) by (intro nth_mem) (simp add: tables_ok_def)
  then have "s_used st \<longrightarrow> stream_handle st \<noteq> None" using t assms(4,5) by (simp add: tables_ok_def)
  then show "\<forall>x\<in>set ((streams s)[i := st]). s_used x \<longrightarrow> stream_handle x \<noteq> None"
    using t set_update_subset_insert [of "streams s" i st] by (auto simp: tables_ok_def)
qed

lemma source_fields [simp]:
  "wav_source ft (st\<lparr>s_playing := a\<rparr>) = wav_source ft st" "ogg_source (st\<lparr>s_playing := a\<rparr>) = ogg_source st"
  "wav_source ft (st\<lparr>s_paused := a\<rparr>) = wav_source ft st" "ogg_source (st\<lparr>s_paused := a\<rparr>) = ogg_source st"
  "wav_source ft (st\<lparr>s_loop := a\<rparr>) = wav_source ft st" "ogg_source (st\<lparr>s_loop := a\<rparr>) = ogg_source st"
  "wav_source ft (st\<lparr>s_vol := d\<rparr>) = wav_source ft st" "ogg_source (st\<lparr>s_vol := d\<rparr>) = ogg_source st"
  "wav_source ft (st\<lparr>s_pos := d\<rparr>) = wav_source ft st" "ogg_source (st\<lparr>s_pos := d\<rparr>) = ogg_source st"
  by (simp_all add: wav_source_def wav_stream_def cache_holds_def cache_shape_def file_samples_def ogg_source_def)

lemma handle_good_fields [simp]:
  "handle_good (st\<lparr>s_playing := a\<rparr>) v = handle_good st v" "handle_good (st\<lparr>s_paused := a\<rparr>) v = handle_good st v"
  "handle_good (st\<lparr>s_loop := a\<rparr>) v = handle_good st v"
  by (simp_all add: handle_good_def stream_ok_def stream_params_def)

lemma handle_good_vol: "handle_good st v \<Longrightarrow> unit_vol vol \<Longrightarrow> handle_good (st\<lparr>s_vol := vol\<rparr>) v"
  by (auto simp: handle_good_def stream_ok_def stream_params_def)

lemma handle_good_pos: "handle_good st v \<Longrightarrow> \<exists>q. p = Fin q \<and> 0 \<le> q \<Longrightarrow> handle_good (st\<lparr>s_pos := p\<rparr>) v"
  by (auto simp: handle_good_def stream_ok_def stream_params_def)

lemma handle_good_rewind: "handle_good st v \<Longrightarrow> handle_good (stream_rewind st) v"
  using stream_rewind_source by (auto simp: handle_good_def stream_ok_def stream_params_def)

lemma stream_handle_rewind [simp]: "stream_handle (stream_rewind st) = stream_handle st"
  by (simp add: stream_handle_def)

lemma apply_command_good: "handle_good st v \<Longrightarrow> handle_good (apply_command cmd st) v"
  by (cases cmd) (simp_all add: handle_good_rewind)

lemma apply_command_simps [simp]:
  "stream_handle (apply_command cmd st) = stream_handle st" "s_used (apply_command cmd st) = s_used st"
  by (cases cmd; simp add: stream_handle_def)+

lemma streamcmd_ok: "audio_inv s \<Longrightarrow> safe (Some (streamcmd js cmd argv s))"
  using getid_range [of js "argv ! 0" MAX_STREAMS "''stream''"]
  by (auto simp: streamcmd_def intro!: inv_stream apply_command_good split: sum.splits)

lemma playstream_ok:
  assumes "audio_world js env" and "audio_inv s"
  shows "safe (Some (playstream js argv s))"
proof -
  have "audio_inv (s\<lparr>streams := (streams s)[k := (streams s ! k)\<lparr>s_playing := True, s_paused := False, s_loop := l, s_vol := vol\<rparr>]\<rparr>)"
    if "initialized s" "getid js (argv ! 0) MAX_STREAMS ''stream'' = Inr k" "get_play_options js argv = Some (vol, l)" for k vol l
    using getid_range [OF that(2)] play_options_unit [OF assms(1) that(3)] assms(2) that(1)
    by (intro inv_stream handle_good_vol) (auto simp: stream_handle_def)
  with assms(2) show ?thesis by (auto simp: playstream_def split: sum.splits option.splits)
qed

lemma streamplaying_ok: "audio_inv s \<Longrightarrow> safe (Some (streamplaying js argv s))"
  by (auto simp: streamplaying_def Let_def split: sum.splits)

lemma streamvol_ok:
  assumes "audio_world js env" and "audio_inv s"
  shows "safe (Some (streamvol js argv s))"
proof -
  have "audio_inv (s\<lparr>streams := (streams s)[k := (streams s ! k)\<lparr>s_vol := vol\<rparr>]\<rparr>)"
    if "initialized s" "getid js (argv ! 0) MAX_STREAMS ''stream'' = Inr k" "getvol js (argv ! 1) = Some vol" for k vol
    using getid_range [OF that(2)] getvol_unit [OF assms(1) that(3)] assms(2) that(1)
    by (intro inv_stream handle_good_vol) (auto simp: stream_handle_def)
  with assms(2) show ?thesis by (auto simp: streamvol_def split: sum.splits option.splits)
qed

lemma seek_to_eq: "seek_to seconds st = stream_rewind st\<lparr>s_pos := seek_position st seconds\<rparr>"
  by (simp add: seek_to_def stream_rewind_def Let_def)

lemma seek_to_good:
  assumes "handle_good st v" and "seconds \<noteq> NaN"
  shows "handle_good (seek_to seconds st) v"
proof -
  have "0 < s_rate st" "s_rate st < 2 ^ 32" "0 \<le> s_frames st" "s_frames st < 2 ^ 52"
    using assms(1) by (auto simp: handle_good_def stream_ok_def stream_params_def)
  from handle_good_pos [OF handle_good_rewind [OF assms(1)] seek_position_ok [OF assms(2) this]]
  show ?thesis by (simp add: seek_to_eq)
qed

lemma streamseek_ok:
  assumes "audio_world js env" and "audio_inv s"
  shows "safe (Some (streamseek js argv s))"
proof -
  have "audio_inv (s\<lparr>streams := (streams s)[k := seek_to sec (streams s ! k)]\<rparr>)"
    if "initialized s" "getid js (argv ! 0) MAX_STREAMS ''stream'' = Inr k" "ToFloat64 js (argv ! 1) = Some sec" for k sec
  proof (rule inv_stream [OF assms(2) that(1) getid_range [OF that(2)]])
    have "sec \<noteq> NaN" using assms(1) that(3) by (auto simp: audio_world_def)
    then show "handle_good (seek_to sec (streams s ! k)) v" if "handle_good (streams s ! k) v" for v
      using that seek_to_good by blast
  qed (simp_all add: seek_to_eq stream_handle_def)
  with assms(2) show ?thesis by (auto simp: streamseek_def split: sum.splits option.splits)
qed

lemma streamtime_ok: "audio_inv s \<Longrightarrow> safe (Some (streamtime js d argv s))"
  by (auto simp: streamtime_def Let_def split: sum.splits)


subsection \<open>Opening and closing streams\<close>

text \<open>What opening comes to: the file is closed again, or a good candidate owns it.\<close>

definition opens :: "handle \<Rightarrow> nat list \<Rightarrow> audio_state \<Rightarrow> (stream js_result \<times> audio_state) option \<Rightarrow> bool" where
  "opens h bytes s out \<longleftrightarrow>
     (\<exists>e tr. out = Some (Inl e, s\<lparr>trace := tr, files := (files s)(h := None)\<rparr>)) \<or>
     (\<exists>st tr. out = Some (Inr st, s\<lparr>trace := tr\<rparr>) \<and> handle_good st bytes \<and> stream_handle st = Some h)"

lemma opens_error:
  "files s h = Some bytes \<Longrightarrow> s' = s\<lparr>trace := tr\<rparr> \<Longrightarrow> opens h bytes s (map_option (Pair (Inl e)) (close_handle h s'))"
  by (auto simp: opens_def close_handle_def)

lemma opens_candidate:
  "handle_good st bytes \<Longrightarrow> stream_handle st = Some h \<Longrightarrow> s' = s\<lparr>trace := tr\<rparr> \<Longrightarrow> opens h bytes s (Some (Inr st, s'))"
  by (auto simp: opens_def)

lemma candidate_simps [simp]:
  "s_used candidate_zero" "s_vol candidate_zero = Fin 1" "s_pos candidate_zero = Fin 0" "cache_frames candidate_zero = 0"
  by (simp_all add: candidate_zero_def stream_zero_def)

lemma candidate_cache: "length (cache candidate_zero) = STREAM_CACHE * 2" "\<forall>v\<in>set (cache candidate_zero). int16 v"
  by (simp_all add: candidate_zero_def stream_zero_def int16_def)

lemma open_ogg_ok:
  assumes "audio_world js env" and "files s h = Some bytes"
  shows "opens h bytes s (open_ogg env h s)"
proof -
  let ?s1 = "did OvOpen s" and ?s2 = "did OvInfo (did OvOpen s)" and ?s3 = "did OvPcmTotal (did OvInfo (did OvOpen s))"
  have s: "?s1 = s\<lparr>trace := trace ?s1\<rparr>" "?s2 = s\<lparr>trace := trace ?s2\<rparr>" "?s3 = s\<lparr>trace := trace ?s3\<rparr>" by (simp_all add: did_def)
  note err = opens_error [where h = h, OF assms(2) s(1)] opens_error [where h = h, OF assms(2) s(2)] opens_error [where h = h, OF assms(2) s(3)]
  have ok: "opens h bytes s (Some (Inr (candidate_zero\<lparr>s_type := STREAM_OGG, s_ogg_open := True, s_ogg_file := h, s_f := None,
      s_rate := nat (to_u32 rate), s_channels := nat (to_u16 ch), s_frames := total\<rparr>), ?s3))" (is "opens h bytes s (Some (Inr ?st, ?s3))")
    if c: "a_ogg_info env (trace ?s1) = Some (ch, rate)" "ch = 1 \<or> ch = 2" "0 < rate" "total = a_ogg_total env (trace ?s2)" "0 < total"
    for ch rate total
  proof (rule opens_candidate [OF _ _ s(3)])
    have r: "rate < 2 ^ 31" "total < 2 ^ 52" using assms(1) c(1,4) by (auto simp: audio_world_def)
    then have u: "to_u32 rate = rate" "to_u16 ch = ch" using c by (auto simp: to_u32_id to_u16_id)
    have "cache_shape ?st" using candidate_cache by (simp add: cache_shape_def)
    then have "ogg_source ?st" using c(2) by (auto simp: ogg_source_def u)
    then show "handle_good ?st bytes"
      using c r by (simp add: handle_good_def stream_ok_def stream_params_def u unit_vol_def)
    show "stream_handle ?st = Some h" by (simp add: stream_handle_def)
  qed
  show ?thesis using err ok by (auto simp: open_ogg_def Let_def split: option.splits)
qed

lemma open_wav_ok:
  assumes "wav_tame bytes" and "files s h = Some bytes"
  shows "opens h bytes s (open_wav h bytes s)"
proof -
  have s: "s = s\<lparr>trace := trace s\<rparr>" by simp
  from parse_wav_tame [OF assms(1), of False] consider (err) code where "parse_wav (fopen bytes) False = Some (Inl code)"
    | (ok) i where "parse_wav (fopen bytes) False = Some (Inr i)" "wav_valid i" "data_extent i < 2 ^ 31" by blast
  then show ?thesis
  proof cases
    case err
    with opens_error [where h = h, OF assms(2) s] show ?thesis by (simp add: open_wav_def)
  next
    case (ok i)
    let ?n = "int (wi_data_size i) div (int (wi_channels i) * 2)"
    let ?st = "candidate_zero\<lparr>s_type := STREAM_WAV, s_f := Some h, s_info := i, s_rate := wi_rate i, s_channels := wi_channels i, s_frames := ?n\<rparr>"
    have ch: "wi_channels i = 1 \<or> wi_channels i = 2" and r: "0 < wi_rate i" "wi_rate i < 2 ^ 32" using ok(2) by (auto simp: wav_valid_def)
    have n: "0 \<le> ?n" "?n \<le> ?n * int (wi_channels i) * 2" "?n * int (wi_channels i) * 2 \<le> int (wi_data_size i)" using ch by auto
    moreover have "int (wi_data_off i) + int (wi_data_size i) < 2 ^ 31" using ok(3) by (simp add: data_extent_def)
    ultimately have ext: "int (wi_data_off i) + ?n * int (wi_channels i) * 2 < 2 ^ 31" "?n < 2 ^ 31" by linarith+
    have "cache_holds ?st bytes" using candidate_cache by (simp add: cache_holds_def cache_shape_def)
    moreover have "wav_stream (\<lambda>_. Some bytes) ?st bytes" using ch ext by (simp add: wav_stream_def)
    ultimately have "wav_source (\<lambda>_. Some bytes) ?st" unfolding wav_source_def by blast
    then have "handle_good ?st bytes" using r n ext by (auto simp: handle_good_def stream_ok_def stream_params_def unit_vol_def)
    moreover have "stream_handle ?st = Some h" by (simp add: stream_handle_def)
    ultimately show ?thesis using opens_candidate [OF _ _ s] ok(1) by (simp add: open_wav_def)
  qed
qed

lemma open_candidate_ok:
  assumes "audio_world js env" and "clip_tame bytes" and "files s h = Some bytes"
  shows "opens h bytes s (open_candidate env h bytes s)"
  using open_ogg_ok [OF assms(1,3)] open_wav_ok [of bytes s h] opens_error [where h = h, OF assms(3), of s "trace s"] assms(2,3)
  by (simp add: open_candidate_def Let_def clip_tame_def)


lemma stream_close_handle:
  "stream_handle st = Some h \<Longrightarrow> files s h \<noteq> None \<Longrightarrow> \<exists>st'. stream_close_native st s = Some (st', s\<lparr>files := (files s)(h := None)\<rparr>)"
  by (auto simp: stream_close_native_def stream_handle_def close_handle_def split: if_splits)

lemma stream_close_nothing: "stream_handle st = None \<Longrightarrow> stream_close_native st s = Some (st, s)"
  by (auto simp: stream_close_native_def stream_handle_def split: if_splits)

text \<open>A new stream in an empty slot, and the handle that came to nothing.\<close>

lemma inv_trace [simp]: "audio_inv (s\<lparr>trace := tr\<rparr>) = audio_inv s"
  by (simp add: audio_inv_def tables_ok_def all_idle_def)

lemma inv_next_handle: "audio_inv s \<Longrightarrow> audio_inv (s\<lparr>next_id := Suc (next_id s), files := files s\<rparr>)"
  by (auto simp: audio_inv_def tables_ok_def all_idle_def split: if_splits)

lemma inv_new_stream:
  assumes "audio_inv s" and "initialized s" and "i < MAX_STREAMS" and "\<not> s_used (streams s ! i)"
    and "handle_good st bytes" and "stream_handle st = Some (next_id s)"
  shows "audio_inv (s\<lparr>files := (files s)(next_id s \<mapsto> bytes), next_id := Suc (next_id s), streams := (streams s)[i := st]\<rparr>)"
proof -
  have t: "tables_ok s" and l: "length (streams s) = MAX_STREAMS" using assms(1) by (auto simp: audio_inv_def tables_ok_def)
  have mem: "streams s ! i \<in> set (streams s)" using assms(3) l by simp
  have "stream_handle (streams s ! i) = None"
    using owns_good [of stream_handle handle_good "streams s" "files s" "streams s ! i"] t mem assms(4)
    by (cases "stream_handle (streams s ! i)") (auto simp: tables_ok_def handle_good_def)
  then have "owns stream_handle handle_good ((streams s)[i := st]) ((files s)(next_id s \<mapsto> bytes))"
    using t assms(3,5,6) fresh_handle [OF assms(1)] by (intro handles.install) (auto simp: tables_ok_def)
  moreover have "\<forall>x\<in>set ((streams s)[i := st]). s_used x \<longrightarrow> stream_handle x \<noteq> None"
    using t assms(6) set_update_subset_insert [of "streams s" i st] by (auto simp: tables_ok_def)
  ultimately show ?thesis using assms(1,2) t l by (simp add: audio_inv_def tables_ok_def)
qed

lemma openstream_ok:
  assumes "audio_world js env" and "audio_inv s"
  shows "safe (openstream js env argv s)"
proof -
  obtain r s1 where e: "ensure env s = (r, s1)" by fastforce
  note 1 = audio_ensure_ok [OF assms(2) e]
  show ?thesis
  proof (cases "length argv = 1 \<and> \<not> r < 0 \<and> (\<exists>path bytes. ToCString js (argv ! 0) = Some path \<and> a_fs env (trace s1) path = Some bytes)")
    case False
    with assms(2) 1(1) e show ?thesis by (auto simp: openstream_def split: option.splits)
  next
    case True
    then obtain path bytes where path: "ToCString js (argv ! 0) = Some path" "a_fs env (trace s1) path = Some bytes" by blast
    have init: "initialized s1" using True 1(2) by simp
    let ?h = "next_id s1"
    let ?s = "(did (FileOpen path) s1)\<lparr>files := (files s1)(?h \<mapsto> bytes), next_id := Suc ?h\<rparr>"
    have f: "files ?s ?h = Some bytes" by simp
    have tame: "clip_tame bytes" using assms(1) path(2) by (auto simp: audio_world_def)
    have undo: "((files s1)(?h \<mapsto> bytes))(?h := None) = files s1" using fresh_handle [OF 1(1)] by (auto simp: fun_upd_def)
    have undone: "audio_inv (did (FileOpen path) s1\<lparr>files := (files s1)(?h \<mapsto> bytes), next_id := Suc ?h, trace := tr, files := (files ?s)(?h := None)\<rparr>)" for tr
      using inv_next_handle [of s1] 1(1) undo by (simp add: did_def)
    have o: "openstream js env argv s = (case open_candidate env ?h bytes ?s of None \<Rightarrow> None
             | Some (Inl e, s) \<Rightarrow> Some (Inl e, s)
             | Some (Inr candidate, s) \<Rightarrow>
               let ident = freestream s in
               if ident \<ge> 0 then Some (Inr (JInt ident), s\<lparr>streams := (streams s)[nat ident := candidate]\<rparr>)
               else map_option (\<lambda>(_, s). (Inl (InternalError (''Audio stream limit reached ('' @ dec (int MAX_STREAMS) @ '')'')), s))
                 (stream_close_native candidate s))"
      using True path e by (simp add: openstream_def open_file_def did_def)
    from open_candidate_ok [where h = ?h, OF assms(1) tame f]
    consider (err) er tr where "open_candidate env ?h bytes ?s = Some (Inl er, ?s\<lparr>trace := tr, files := (files ?s)(?h := None)\<rparr>)"
      | (ok) st tr where "open_candidate env ?h bytes ?s = Some (Inr st, ?s\<lparr>trace := tr\<rparr>)" "handle_good st bytes" "stream_handle st = Some ?h"
      by (auto simp: opens_def)
    then show ?thesis
    proof cases
      case err
      with o undone [of tr] show ?thesis by simp
    next
      case (ok st tr)
      let ?t = "?s\<lparr>trace := tr\<rparr>"
      have fs: "freestream ?t = freestream s1" by (simp add: freestream_def)
      show ?thesis
      proof (cases "0 \<le> freestream s1")
        case True
        then have "nat (freestream s1) < MAX_STREAMS" "\<not> s_used (streams s1 ! nat (freestream s1))"
          using scan.search_slot [of s_used "streams s1"] streams_length [OF 1(1)] by (auto simp: freestream_def)
        from inv_new_stream [OF 1(1) init this ok(2,3)] have "audio_inv (s1\<lparr>files := (files s1)(?h \<mapsto> bytes),
            next_id := Suc ?h, streams := (streams s1)[nat (freestream s1) := st]\<rparr>\<lparr>trace := tr\<rparr>)"
          by (simp only: inv_trace)
        moreover have "s1\<lparr>files := (files s1)(?h \<mapsto> bytes), next_id := Suc ?h, streams := (streams s1)[nat (freestream s1) := st]\<rparr>\<lparr>trace := tr\<rparr> =
            s1\<lparr>files := (files s1)(?h \<mapsto> bytes), next_id := Suc ?h, trace := tr, streams := (streams s1)[nat (freestream s1) := st]\<rparr>"
          by simp
        ultimately have "audio_inv (s1\<lparr>files := (files s1)(?h \<mapsto> bytes), next_id := Suc ?h, trace := tr,
            streams := (streams s1)[nat (freestream s1) := st]\<rparr>)" by metis
        with o ok(1) True fs show ?thesis by (simp add: did_def Let_def)
      next
        case False
        obtain st' where "stream_close_native st ?t = Some (st', ?t\<lparr>files := (files ?t)(?h := None)\<rparr>)"
          using stream_close_handle [OF ok(3), of ?t] by auto
        with o ok(1) False fs undone [of tr] show ?thesis by (simp add: Let_def)
      qed
    qed
  qed
qed


lemma closestream_ok:
  assumes "audio_inv s"
  shows "safe (closestream js argv s)"
proof (cases "length argv = 1 \<and> initialized s \<and> (\<exists>k. getid js (argv ! 0) MAX_STREAMS ''stream'' = Inr k)")
  case False
  with assms show ?thesis by (auto simp: closestream_def split: sum.splits)
next
  case True
  then obtain k where k: "getid js (argv ! 0) MAX_STREAMS ''stream'' = Inr k" by blast
  have t: "tables_ok s" and kl: "k < length (streams s)" and ow: "owns stream_handle handle_good (streams s) (files s)"
    using assms getid_range [OF k] by (auto simp: audio_inv_def tables_ok_def)
  have used: "\<forall>x\<in>set ((streams s)[k := stream_zero]). s_used x \<longrightarrow> stream_handle x \<noteq> None"
    using t set_update_subset_insert [of "streams s" k stream_zero] by (auto simp: tables_ok_def)
  have fin: "audio_inv (s\<lparr>files := ft, streams := (streams s)[k := stream_zero]\<rparr>)"
    if "owns stream_handle handle_good ((streams s)[k := stream_zero]) ft" "\<forall>n. files s n = None \<longrightarrow> ft n = None" for ft
    using that used assms True by (simp add: audio_inv_def tables_ok_def)
  show ?thesis
  proof (cases "stream_handle (streams s ! k)")
    case None
    from fin [OF handles.clear_nothing [OF ow kl None]] stream_close_nothing [OF None, of s] True k show ?thesis
      by (simp add: closestream_def)
  next
    case (Some h)
    note c = handles.clear [OF ow kl Some]
    then obtain st' where "stream_close_native (streams s ! k) s = Some (st', s\<lparr>files := (files s)(h := None)\<rparr>)"
      using stream_close_handle [OF Some, of s] by blast
    with fin [of "(files s)(h := None)"] c True k show ?thesis by (simp add: closestream_def)
  qed
qed

subsection \<open>Shutdown\<close>

lemma free_clips_all: "owns block_of block_good cs (heap s) \<Longrightarrow> free_clips cs s = Some (s\<lparr>heap := Map.empty\<rparr>)"
proof (induction cs arbitrary: s)
  case (Cons c cs)
  show ?case
  proof (cases "c_used c")
    case False
    with Cons show ?thesis by (simp add: block_of_def)
  next
    case True
    with Cons.prems have "heap s (c_samples c) \<noteq> None" "c_samples c \<noteq> 0" "owns block_of block_good cs ((heap s)(c_samples c := None))"
      by (auto simp: block_of_def [of c] block_good_def [of c] simp del: fun_upd_apply)
    with Cons.IH [of "s\<lparr>heap := (heap s)(c_samples c := None)\<rparr>"] True show ?thesis
      by (simp add: free_block_def del: fun_upd_apply)
  qed
qed simp

lemma close_streams_all: "owns stream_handle handle_good sts (files s) \<Longrightarrow> close_streams sts s = Some (s\<lparr>files := Map.empty\<rparr>)"
proof (induction sts arbitrary: s)
  case (Cons st sts)
  show ?case
  proof (cases "stream_handle st")
    case None
    with Cons stream_close_nothing [OF None] show ?thesis by simp
  next
    case (Some h)
    with Cons.prems have o: "files s h \<noteq> None" "s_used st" "owns stream_handle handle_good sts ((files s)(h := None))"
      by (auto simp: handle_good_def [of st] simp del: fun_upd_apply)
    with stream_close_handle [OF Some o(1)] Cons.IH [of "s\<lparr>files := (files s)(h := None)\<rparr>"] show ?thesis
      by (auto simp del: fun_upd_apply)
  qed
qed simp

text \<open>What shutdown leaves of an initialised module: nothing.\<close>

lemma shutdown_result:
  assumes "audio_inv s" and "initialized s"
  shows "\<exists>tr. shutdown_audio s = Some (clear_tables (s\<lparr>trace := tr, heap := Map.empty, files := Map.empty, mutex_init := False,
    initialized := False, port := - 1, running := False\<rparr>)) \<and> ThreadJoin \<in> set tr \<and> ReleasePort (port s) \<in> set tr \<and> MutexDestroy \<in> set tr"
proof -
  have t: "tables_ok s" and p: "0 \<le> port s" "mutex_init s" using assms by (simp_all add: audio_inv_def)
  let ?s = "did ThreadJoin (s\<lparr>running := False\<rparr>)"
  have "free_clips (clips ?s) ?s = Some (?s\<lparr>heap := Map.empty\<rparr>)"
    using t by (intro free_clips_all) (simp add: tables_ok_def)
  moreover have "close_streams (streams s) (?s\<lparr>heap := Map.empty\<rparr>) = Some (?s\<lparr>heap := Map.empty, files := Map.empty\<rparr>)"
    using t by (intro close_streams_all) (simp add: tables_ok_def)
  ultimately show ?thesis using assms(2) p
    by (intro exI [of _ "MutexDestroy # ReleasePort (port s) # ThreadJoin # trace s"]) (simp add: shutdown_audio_def Let_def clear_tables_def did_def)
qed

lemma shutdown_ok:
  assumes "audio_inv s"
  shows "\<exists>s'. shutdown_audio s = Some s' \<and> audio_inv s'"
proof (cases "initialized s")
  case True
  from shutdown_result [OF assms True] obtain tr where
    r: "shutdown_audio s = Some (clear_tables (s\<lparr>trace := tr, heap := Map.empty, files := Map.empty, mutex_init := False,
      initialized := False, port := - 1, running := False\<rparr>))" (is "_ = Some (clear_tables ?s)") by blast
  have "tables_ok (clear_tables ?s)" "all_idle (clear_tables ?s)" by (rule cleared_ok; simp)+
  then have "audio_inv (clear_tables ?s)"
    using assms by (simp add: audio_inv_def clear_tables_def)
  with r show ?thesis by blast
qed (simp add: shutdown_audio_def assms)

subsection \<open>Every operation\<close>

lemma audio_exec_safe: "audio_world js env \<Longrightarrow> audio_inv s \<Longrightarrow> safe (audio_exec js env op s)"
proof (cases op)
  case (Op_term argv)
  assume "audio_inv s"
  with shutdown_ok [OF this] Op_term show ?thesis by (auto simp: audio_term_def)
next
  case Op_mix
  assume "audio_world js env" "audio_inv s"
  with mixthread_ok [of env s] Op_mix show ?thesis by (auto simp: audio_world_def)
qed (simp_all add: loadwav_ok freewav_ok play_ok stop_ok stopall_ok isplaying_ok voicevol_ok masterm_ok getmaster_ok openstream_ok
    closestream_ok playstream_ok streamcmd_ok pausestream_def resumestream_def stopstream_def streamplaying_ok streamvol_ok streamseek_ok
    streampos_def streamdur_def streamtime_ok)

lemma audio_inv_start: "audio_inv audio_start"
proof -
  have "tables_ok (clear_tables audio_start)" "all_idle (clear_tables audio_start)"
    by (rule cleared_ok; simp add: audio_start_def)+
  moreover have "clear_tables audio_start = audio_start" by (simp add: clear_tables_def audio_start_def)
  ultimately show ?thesis by (simp add: audio_inv_def) (simp add: audio_start_def unit_vol_def)
qed

text \<open>The module as an instance of \<open>module_inv\<close>.\<close>

definition audio_step_in :: "js_engine \<Rightarrow> audio_env \<Rightarrow> audio_state \<Rightarrow> audio_state \<Rightarrow> bool" where
  "audio_step_in js env s s' \<longleftrightarrow> audio_world js env \<and> audio_step js env s s'"

interpretation audio: module_inv audio_start "audio_step_in js env" audio_inv for js env
proof unfold_locales
  show "audio_inv audio_start" by (rule audio_inv_start)
next
  fix s t
  assume "audio_step_in js env s t" "audio_inv s"
  then show "audio_inv t" using audio_exec_safe [of js env s]
    by (auto simp: audio_step_in_def elim!: audio_stepE) (metis safe_Some)
qed

lemma audio_reachable: "audio_world js env \<Longrightarrow> (audio_step js env)\<^sup>*\<^sup>* audio_start s \<Longrightarrow> audio_inv s"
proof -
  assume w: "audio_world js env" and "(audio_step js env)\<^sup>*\<^sup>* audio_start s"
  moreover have "audio_step js env = audio_step_in js env" using w by (intro ext) (simp add: audio_step_in_def)
  ultimately show ?thesis using audio.inv_reachable [of js env s] by simp
qed

end
