(* ===== verification/Audio_Props.thy ===== *)
theory Audio_Props
  imports Audio_Safety
begin

text \<open>
  What the audio module promises: no operation and no pass of the mixer has undefined behaviour
  in any state the module can reach, its blocks and files are owned by its tables, what comes out
  of the mixer, and what shutdown leaves.  And where the surroundings break a promise: a volume or
  a position that is not a number.
\<close>

subsection \<open>A single voice\<close>

lemma mix_list_idle: "(\<And>x. x \<in> set xs \<Longrightarrow> f x acc = Some (acc, x)) \<Longrightarrow> mix_list f xs acc = Some (acc, xs)"
  by (induction xs) auto

lemma mix_list_single:
  assumes "k < length xs" and "\<And>j a. j < length xs \<Longrightarrow> j \<noteq> k \<Longrightarrow> f (xs ! j) a = Some (a, xs ! j)" and "f (xs ! k) acc = Some (acc', y)"
  shows "mix_list f xs acc = Some (acc', xs[k := y])"
  using assms
proof (induction xs arbitrary: k)
  case (Cons x xs)
  show ?case
  proof (cases k)
    case 0
    have "f y acc' = Some (acc', y)" if "y \<in> set xs" for y
      using that Cons.prems(2) [of "Suc j" acc' for j] 0 by (auto simp: in_set_conv_nth)
    then have "mix_list f xs acc' = Some (acc', xs)" by (rule mix_list_idle)
    with 0 Cons.prems(3) show ?thesis by simp
  next
    case (Suc i)
    have "mix_list f xs acc = Some (acc', xs[i := y])"
      using Cons.prems(1,3) Cons.prems(2) [of "Suc j" for j] Suc by (intro Cons.IH) auto
    moreover have "f x acc = Some (acc, x)" using Cons.prems(2) [of 0] Suc by simp
    ultimately show ?thesis using Suc by simp
  qed
qed simp

lemma mix_list_None: "x \<in> set xs \<Longrightarrow> (\<And>a. f x a = None) \<Longrightarrow> mix_list f xs acc = None"
  by (induction xs arbitrary: acc) (auto split: option.splits)

text \<open>At full volume a sample is played as it is.\<close>

lemma unit_gain: "fmul f32 (Fin 1) (Fin 1) = Fin 1"
  using b32.fround_int [of 1] by simp

lemma voice_term_full: "int16 l \<Longrightarrow> voice_term l (Fin 1) = Some l"
proof -
  assume l: "int16 l"
  then have "\<bar>l\<bar> < 2 ^ 24" by (auto simp: int16_def)
  then have "of_c_int f32 l = Fin (of_int l)" "f32 (of_int l) = Fin (of_int l)" by (simp_all add: of_c_int_def b32.fround_int)
  with l show ?thesis by (simp add: voice_term_def to_int32_def int16_def)
qed

lemma voice_play_full:
  assumes "h (c_samples c) = Some xs" and "block_good c xs" and "v_pos v < length xs" and "v_vol v = Fin 1"
  shows "voice_play h (Fin 1) c v (0, 0) = Some (xs ! v_pos v, v\<lparr>v_pos := v_pos v + 1\<rparr>)"
proof -
  obtain l r where lr: "xs ! v_pos v = (l, r)" by fastforce
  with assms(2) nth_mem [OF assms(3)] have i: "int16 l" "int16 r" by (auto simp: block_good_def)
  then have "accumulate (0, 0) (Some l) (Some r) = Some (l, r)" by (simp add: accumulate_def add32_def int16_def)
  moreover have "(v_pos v + 1) mod 2 ^ 32 = v_pos v + 1" using assms(2,3) by (simp add: block_good_def)
  ultimately show ?thesis using lr i assms(1,3,4) unit_gain by (simp add: voice_play_def cell_def voice_term_full Let_def)
qed

text \<open>Voice \<open>k\<close> plays the clip \<open>xs\<close> alone and has come to its frame \<open>p\<close>.\<close>

definition plays :: "audio_state \<Rightarrow> nat \<Rightarrow> (int \<times> int) list \<Rightarrow> bool \<Rightarrow> nat \<Rightarrow> bool" where
  "plays s k xs loop p \<longleftrightarrow> k < length (voices s) \<and> (\<forall>j<length (voices s). j \<noteq> k \<longrightarrow> \<not> v_active (voices s ! j)) \<and>
     (\<forall>st\<in>set (streams s). \<not> s_used st \<or> \<not> s_playing st \<or> s_paused st) \<and> xs \<noteq> [] \<and>
     (let v = voices s ! k; c = clips s ! nat (v_clip v) in
      0 \<le> v_clip v \<and> v_clip v < int MAX_CLIPS \<and> c_used c \<and> heap s (c_samples c) = Some xs \<and> block_good c xs \<and>
      v_vol v = Fin 1 \<and> v_loop v = loop \<and>
      (if v_active v then v_pos v \<le> length xs \<and> (if loop then v_pos v mod length xs = p mod length xs else v_pos v = p)
       else \<not> loop \<and> length xs \<le> p))"

definition clip_at :: "(int \<times> int) list \<Rightarrow> bool \<Rightarrow> nat \<Rightarrow> int \<times> int" where
  "clip_at xs loop p = (if loop then xs ! (p mod length xs) else if p < length xs then xs ! p else (0, 0))"

lemma plays_step:
  assumes "plays s k xs loop p"
  shows "\<exists>v. mix_voice (clips s) (heap s) (Fin 1) (voices s ! k) (0, 0) = Some (clip_at xs loop p, v) \<and>
    plays (s\<lparr>voices := (voices s)[k := v]\<rparr>) k xs loop (p + 1)"
proof -
  let ?v = "voices s ! k" and ?c = "clips s ! nat (v_clip (voices s ! k))"
  have c: "0 \<le> v_clip ?v" "v_clip ?v < int MAX_CLIPS" "c_used ?c" "heap s (c_samples ?c) = Some xs" "block_good ?c xs"
      "v_vol ?v = Fin 1" "v_loop ?v = loop" "xs \<noteq> []" "c_frames ?c = length xs"
    using assms by (auto simp: plays_def Let_def block_good_def)
  note play = voice_play_full [where h = "heap s", OF c(4,5)]
  have next_p: "plays (s\<lparr>voices := (voices s)[k := ?v\<lparr>v_pos := q + 1\<rparr>]\<rparr>) k xs loop (p + 1)"
    if "q < length xs" "if loop then q mod length xs = p mod length xs else q = p" "v_active ?v" for q
    using assms that by (auto simp: plays_def Let_def mod_Suc_eq)
  have off: "plays (s\<lparr>voices := (voices s)[k := ?v\<lparr>v_active := False\<rparr>]\<rparr>) k xs loop (p + 1)"
    if "\<not> loop" "length xs \<le> p"
    using assms that by (simp add: plays_def Let_def)
  show ?thesis
  proof (cases "v_active ?v")
    case False
    then have "\<not> loop" "length xs \<le> p" using assms by (auto simp: plays_def Let_def)
    moreover from this have "plays s k xs loop (p + 1)" using assms False by (simp add: plays_def Let_def)
    ultimately show ?thesis using False by (simp add: mix_voice_def clip_at_def)
  next
    case True
    then have pos: "v_pos ?v \<le> length xs" "if loop then v_pos ?v mod length xs = p mod length xs else v_pos ?v = p"
      using assms by (auto simp: plays_def Let_def)
    show ?thesis
    proof (cases "v_pos ?v < length xs")
      case lt: True
      have "xs ! v_pos ?v = clip_at xs loop p" using lt pos(2) by (auto simp: clip_at_def split: if_splits)
      with next_p [OF lt pos(2) True] play [OF lt c(6)] lt True c show ?thesis by (simp add: mix_voice_def)
    next
      case False
      then have eq: "v_pos ?v = length xs" using pos(1) by simp
      show ?thesis
      proof (cases loop)
        case l: True
        have z: "0 < length xs" "if loop then 0 mod length xs = p mod length xs else 0 = p" using c(8) pos(2) eq l by auto
        have "xs ! 0 = clip_at xs loop p" using z l by (simp add: clip_at_def)
        with next_p [OF z True] play [of "?v\<lparr>v_pos := 0\<rparr>"] z(1) eq l True c show ?thesis by (simp add: mix_voice_def)
      next
        case nl: False
        with off pos(2) eq True c show ?thesis by (simp add: mix_voice_def clip_at_def)
      qed
    qed
  qed
qed

lemma clip_at_int16:
  assumes "plays s k xs loop p"
  shows "int16 (fst (clip_at xs loop p)) \<and> int16 (snd (clip_at xs loop p))"
proof -
  have "\<forall>(l, r)\<in>set xs. int16 l \<and> int16 r" "xs \<noteq> []" using assms by (auto simp: plays_def Let_def block_good_def)
  then have "\<forall>i<length xs. int16 (fst (xs ! i)) \<and> int16 (snd (xs ! i))" by (auto simp: case_prod_beta)
  with \<open>xs \<noteq> []\<close> show ?thesis by (auto simp: clip_at_def int16_def)
qed

lemma plays_frame:
  assumes "plays s k xs loop p"
  shows "\<exists>s'. mix_frame env (Fin 1) s = Some (clip_at xs loop p, s') \<and> plays s' k xs loop (p + 1)"
proof -
  obtain v where v: "mix_voice (clips s) (heap s) (Fin 1) (voices s ! k) (0, 0) = Some (clip_at xs loop p, v)"
      "plays (s\<lparr>voices := (voices s)[k := v]\<rparr>) k xs loop (p + 1)"
    using plays_step [OF assms] by blast
  have "mix_list (mix_voice (clips s) (heap s) (Fin 1)) (voices s) (0, 0) = Some (clip_at xs loop p, (voices s)[k := v])"
    using assms v(1) by (intro mix_list_single) (auto simp: plays_def mix_voice_def)
  moreover have "mix_list (mix_stream (a_ogg env) (files s) (Fin 1)) (streams s) a = Some (a, streams s)" for a
    using assms by (intro mix_list_idle) (auto simp: plays_def mix_stream_def)
  moreover have "clamp16 (fst (clip_at xs loop p)) = fst (clip_at xs loop p)" "clamp16 (snd (clip_at xs loop p)) = snd (clip_at xs loop p)"
    using clip_at_int16 [OF assms] by (simp_all add: clamp16_id)
  ultimately show ?thesis using v(2) by (simp add: mix_frame_def)
qed

lemma plays_frames:
  "plays s k xs loop p \<Longrightarrow> \<exists>s'. mix_frames env (Fin 1) n s = Some (map (\<lambda>i. clip_at xs loop (p + i)) [0..<n], s') \<and> plays s' k xs loop (p + n)"
proof (induction n arbitrary: s p)
  case (Suc n)
  obtain s1 where 1: "mix_frame env (Fin 1) s = Some (clip_at xs loop p, s1)" "plays s1 k xs loop (p + 1)"
    using plays_frame [OF Suc.prems] by blast
  obtain s2 where 2: "mix_frames env (Fin 1) n s1 = Some (map (\<lambda>i. clip_at xs loop (p + 1 + i)) [0..<n], s2)" "plays s2 k xs loop (p + 1 + n)"
    using Suc.IH [OF 1(2)] by blast
  have "map (\<lambda>i. clip_at xs loop (p + i)) [0..<Suc n] = clip_at xs loop p # map (\<lambda>i. clip_at xs loop (p + 1 + i)) [0..<n]"
    by (simp only: upt_conv_Cons zero_less_Suc map_Suc_upt [symmetric] list.map map_map) simp
  with 1(1) 2 show ?case by (simp del: upt_Suc)
qed simp


subsection \<open>Not-a-number\<close>

lemma nan_voice:
  assumes "v_active v" and "0 \<le> v_clip v" and "v_clip v < int MAX_CLIPS" and "c_used (cs ! nat (v_clip v))"
    and "v_pos v < c_frames (cs ! nat (v_clip v))" and "v_vol v = NaN"
  shows "mix_voice cs h m v acc = None"
proof -
  have "voice_term l (fmul f32 NaN m) = None" for l
    by (cases "of_c_int f32 l") (simp_all add: voice_term_def to_int32_def)
  then show ?thesis using assms by (auto simp: mix_voice_def voice_play_def accumulate_def Let_def split: option.splits)
qed

lemma nan_stream: "s_used st \<Longrightarrow> s_playing st \<Longrightarrow> \<not> s_paused st \<Longrightarrow> s_pos st = NaN \<Longrightarrow> mix_stream ogg ft m st acc = None"
  by (simp add: mix_stream_def mix_at_def to_int64_def)

lemma flt_less_nan [simp]: "\<not> flt_less a NaN"
  by (cases a) simp_all

lemma mix_frames_None: "mix_frame env m s = None \<Longrightarrow> 0 < n \<Longrightarrow> mix_frames env m n s = None"
  by (cases n) auto

lemma mixthread_None: "running s \<Longrightarrow> mix_frame env (master s) s = None \<Longrightarrow> mixthread env s = None"
  using mix_frames_None [of env "master s" s GRAIN] by (simp add: mixthread_def GRAIN_def)

subsection \<open>Properties\<close>


text \<open>
  Surroundings in which this holds: one path leads to a WAV file, every other to a file that says it
  is a Vorbis stream, the decoder reports a stereo stream and delivers nothing, every system call answers 0, and only
  integers convert to a number.
\<close>

definition demo_js :: js_engine where
  "demo_js = js_prim\<lparr>ToFloat64 := (\<lambda>v. case v of JInt n \<Rightarrow> Some (Fin (of_int n)) | _ \<Rightarrow> None)\<rparr>"

definition demo_audio_env :: audio_env where
  "demo_audio_env = \<lparr>a_ret = (\<lambda>h c. 0), a_fs = (\<lambda>h p. Some (if p = ''a.wav'' then tiny_wav else tag ''OggS'')), a_alloc = (\<lambda>h n. True), a_ogg = demo_ogg_env,
     a_ogg_info = (\<lambda>h. Some (2, 44100)), a_ogg_total = (\<lambda>h. 1000), buffers_aligned = True\<rparr>"

lemma demo_audio_env_simps [simp]:
  "a_ret demo_audio_env h c = 0" "a_fs demo_audio_env h p = Some (if p = ''a.wav'' then tiny_wav else tag ''OggS'')" "a_alloc demo_audio_env h n"
  "a_ogg demo_audio_env = demo_ogg_env"
  "a_ogg_info demo_audio_env h = Some (2, 44100)" "a_ogg_total demo_audio_env h = 1000" "buffers_aligned demo_audio_env"
  by (simp_all add: demo_audio_env_def)

lemma demo_file_tame: "clip_tame (tag ''OggS'')"
proof -
  have "parse_wav (fopen (tag ''OggS'')) True = Some (Inl (- 1))"
    by (simp add: parse_wav_def fopen_def fread_def segment_def tag_def Let_def)
  moreover have "small_sizes (tag ''OggS'')" 
    by (rule small_sizes_closed [of _ "{4}"]) (auto simp: chunk_walk tag_def)
  ultimately show ?thesis by (simp add: clip_tame_def wav_tame_def tag_def)
qed

lemma tiny_wav_tame: "clip_tame tiny_wav"
proof -
  have "clip_output_frames (wi_data_size i div (wi_channels i * 2)) (wi_rate i) < 2 ^ 30"
    if "parse_wav (fopen tiny_wav) True = Some (Inr i)" for i
  proof -
    obtain j where j: "parse_wav (fopen tiny_wav) False = Some (Inr j)" "wi_channels j = 2" "wi_rate j = 48000" "wi_data_size j = 4"
      using parse_wav_encoded [where riff_size = "[0, 0, 0, 0]" and pre = "[]" and mid = "[]" and channels = 2 and rate = 48000 and
        extra = "[]" and data = "[1, 0, 254, 255]" and trailer = "[]"]
      by (auto simp: tiny_wav_def wav_data_off_def)
    from parse_wav_enforce [OF j(1)] j(4) that have "i = j" by (simp add: MAX_WAV_BYTES_def)
    with j clip_output_48k [of 1] show ?thesis by simp
  qed
  then show ?thesis using tiny_wav_small by (simp add: clip_tame_def wav_tame_def)
qed

lemma demo_audio_world: "audio_world demo_js demo_audio_env"
  using demo_ogg_live demo_file_tame tiny_wav_tame by (auto simp: audio_world_def demo_js_def split: jsval.splits)



text \<open>After \<open>open_stream\<close> in these surroundings.\<close>

definition demo_opened :: audio_state where
  "demo_opened = snd (the (openstream demo_js demo_audio_env [JString ''a''] audio_start))"

lemma demo_openstream: "openstream demo_js demo_audio_env [JString ''a''] audio_start = Some (Inr (JInt 0), demo_opened)"
  "files demo_opened = [1 \<mapsto> tag ''OggS'']" "running demo_opened" "initialized demo_opened"
  "clips demo_opened = replicate MAX_CLIPS clip_zero"
proof -
  have s: "ensure demo_audio_env audio_start = (0, (clear_tables audio_start)\<lparr>trace := [ThreadCreate, SetVolume 0, OpenPort, MutexInit],
      voices := map (v_clip_update (\<lambda>_. - 1)) (replicate MAX_VOICES voice_zero), port := 0, mutex_init := True, running := True, initialized := True\<rparr>)"
    (is "_ = (0, ?s)")
    by (simp add: ensure_def audio_start_def clear_tables_def did_def ask_def Let_def)
  have free: "scan_free s_used (replicate MAX_STREAMS stream_zero) 0 = 0" by (simp add: MAX_STREAMS_def numeral_eq_Suc)
  have c: "ToCString demo_js (JString ''a'') = Some ''a''" by (simp add: demo_js_def js_prim_def)
  have "\<exists>s. openstream demo_js demo_audio_env [JString ''a''] audio_start = Some (Inr (JInt 0), s) \<and> files s = [1 \<mapsto> tag ''OggS''] \<and>
      running s \<and> initialized s \<and> clips s = replicate MAX_CLIPS clip_zero"
    by (simp add: openstream_def s c) (simp add: open_file_def open_candidate_def open_ogg_def Let_def did_def ask_def
        fopen_def fread_def segment_def tag_def freestream_def clear_tables_def audio_start_def free)
  then show "openstream demo_js demo_audio_env [JString ''a''] audio_start = Some (Inr (JInt 0), demo_opened)"
    "files demo_opened = [1 \<mapsto> tag ''OggS'']" "running demo_opened" "initialized demo_opened"
    "clips demo_opened = replicate MAX_CLIPS clip_zero" by (auto simp: demo_opened_def)
qed

lemma demo_opened_reachable: "(audio_step demo_js demo_audio_env)\<^sup>*\<^sup>* audio_start demo_opened"
  using demo_openstream(1) by (intro r_into_rtranclp audio_step.exec [of _ _ "Op_open_stream [JString ''a'']"]) simp



text \<open>
  The mixer's output: while the mixer runs, a pass plays one buffer of 1024 frames on the
  open port, every sample of it a 16-bit number, whatever is mixed.
\<close>

theorem mixer_output:
  assumes "audio_world js env" and "(audio_step js env)\<^sup>*\<^sup>* audio_start s" and "running s"
  shows "\<exists>buffer s'. mixthread env s = Some s' \<and> trace s' = AudioOutput (port s) buffer # trace s \<and> 0 \<le> port s \<and>
    length buffer = 1024 \<and> (\<forall>(l, r)\<in>set buffer. - 32768 \<le> l \<and> l \<le> 32767 \<and> - 32768 \<le> r \<and> r \<le> 32767)"
proof -
  have i: "audio_inv s" by (rule audio_reachable [OF assms(1,2)])
  have "ogg_live (a_ogg env)" "unit_vol (master s)" "initialized s" "0 \<le> port s"
    using assms(1) i inv_running [OF i assms(3)] by (auto simp: audio_world_def audio_inv_def)
  moreover from mix_frames_ok [OF this(1) i this(2,3), of GRAIN] obtain fs vs sts where
    m: "mix_frames env (master s) GRAIN s = Some (fs, s\<lparr>voices := vs, streams := sts\<rparr>)" "length fs = GRAIN"
      "\<forall>(l, r)\<in>set fs. int16 l \<and> int16 r" by blast
  have "length fs = 1024" "\<forall>(l, r)\<in>set fs. - 32768 \<le> l \<and> l \<le> 32767 \<and> - 32768 \<le> r \<and> r \<le> 32767"
    using m(2,3) by (auto simp: GRAIN_def int16_def)
  moreover have "\<exists>s'. mixthread env s = Some s' \<and> trace s' = AudioOutput (port s) fs # trace s"
    using m(1) assms(3) by (simp add: mixthread_def Let_def)
  ultimately show ?thesis using \<open>0 \<le> port s\<close> by blast
qed

theorem mixer_output_witness:
  "\<exists>buffer s'. mixthread demo_audio_env demo_opened = Some s' \<and> trace s' = AudioOutput (port demo_opened) buffer # trace demo_opened \<and>
    length buffer = 1024"
  using mixer_output [OF demo_audio_world demo_opened_reachable demo_openstream(3)] by blast

text \<open>
  C18.  The mixer plays a clip as it is: when one voice plays at full volume, alone, the frames
  that come out are the clip's, from the voice's position on; a looping voice starts over at the
  end, another one is followed by silence.
\<close>

theorem mixer_plays_clip:
  assumes "length (voices s) = 16" and "k < 16" and "\<forall>j<16. j \<noteq> k \<longrightarrow> \<not> v_active (voices s ! j)"
    and "\<forall>st\<in>set (streams s). \<not> s_used st \<or> \<not> s_playing st \<or> s_paused st"
    and "voices s ! k = \<lparr>v_active = True, v_clip = int i, v_pos = p, v_vol = Fin 1, v_loop = loop\<rparr>" and "i < 64"
    and "clips s ! i = \<lparr>c_used = True, c_samples = b, c_frames = length xs\<rparr>" and "b \<noteq> 0"
    and "heap s b = Some xs" and "\<forall>(l, r)\<in>set xs. int16 l \<and> int16 r" and "p < length xs" and "length xs < 2 ^ 30"
  shows "\<exists>s'. mix_frames env (Fin 1) n s =
    Some (map (\<lambda>m. if loop then xs ! ((p + m) mod length xs) else if p + m < length xs then xs ! (p + m) else (0, 0)) [0..<n], s')"
proof -
  have "plays s k xs loop p" using assms by (auto simp: plays_def Let_def MAX_CLIPS_def block_good_def)
  from plays_frames [OF this, of env n] show ?thesis by (auto simp: clip_at_def)
qed

definition demo_playing :: audio_state where
  "demo_playing = audio_start\<lparr>initialized := True, running := True, heap := [1 \<mapsto> [(1, 2), (3, 4)]], next_id := 2,
     clips := (replicate 64 clip_zero)[0 := \<lparr>c_used = True, c_samples = 1, c_frames = 2\<rparr>],
     voices := (replicate 16 voice_zero)[0 := \<lparr>v_active = True, v_clip = 0, v_pos = 0, v_vol = Fin 1, v_loop = True\<rparr>]\<rparr>"

lemma demo_playing_voice:
  "length (voices demo_playing) = 16" "voices demo_playing ! 0 = \<lparr>v_active = True, v_clip = int 0, v_pos = 0, v_vol = Fin 1, v_loop = True\<rparr>"
  "\<forall>j<16. j \<noteq> 0 \<longrightarrow> \<not> v_active (voices demo_playing ! j)" "\<forall>st\<in>set (streams demo_playing). \<not> s_used st \<or> \<not> s_playing st \<or> s_paused st"
  "clips demo_playing ! 0 = \<lparr>c_used = True, c_samples = 1, c_frames = length [(1::int, 2::int), (3, 4)]\<rparr>"
  "heap demo_playing 1 = Some [(1, 2), (3, 4)]"
  by (simp_all add: demo_playing_def audio_start_def stream_zero_def voice_zero_def)

theorem mixer_plays_clip_witness:
  "\<exists>s'. mix_frames demo_audio_env (Fin 1) 3 demo_playing = Some ([(1, 2), (3, 4), (1, 2)], s')"
proof -
  have "[0..<3] = [0, 1, 2 :: nat]" "(2 :: nat) mod Suc (Suc 0) = 0" by (simp_all add: upt_rec numeral_2_eq_2)
  moreover have "\<exists>s'. mix_frames demo_audio_env (Fin 1) 3 demo_playing =
    Some (map (\<lambda>m. if True then [(1, 2), (3, 4)] ! ((0 + m) mod length [(1::int, 2::int), (3, 4)])
       else if 0 + m < length [(1::int, 2::int), (3, 4)] then [(1, 2), (3, 4)] ! (0 + m) else (0, 0)) [0..<3], s')"
    by (rule mixer_plays_clip [OF demo_playing_voice(1) _ demo_playing_voice(3,4,2) _ demo_playing_voice(5) _ demo_playing_voice(6)])
      (simp_all add: int16_def)
  ultimately show ?thesis by simp
qed

text \<open>
  Shutdown: from every reachable state, \<open>shutdown_audio\<close> succeeds and leaves nothing
  allocated and nothing open; of an initialised module it joins the mixer thread, releases the
  port, destroys the mutex and resets every table.
\<close>

theorem audio_shutdown_releases:
  assumes "audio_world js env" and "(audio_step js env)\<^sup>*\<^sup>* audio_start s"
  shows "\<exists>s'. shutdown_audio s = Some s' \<and> heap s' = Map.empty \<and> files s' = Map.empty \<and> \<not> initialized s' \<and> \<not> running s' \<and>
    (initialized s \<longrightarrow> port s' = - 1 \<and> \<not> mutex_init s' \<and> clips s' = replicate 64 clip_zero \<and> voices s' = replicate 16 voice_zero \<and>
      streams s' = replicate 4 stream_zero \<and> ThreadJoin \<in> set (trace s') \<and> ReleasePort (port s) \<in> set (trace s') \<and> MutexDestroy \<in> set (trace s'))"
proof -
  have i: "audio_inv s" by (rule audio_reachable [OF assms])
  show ?thesis
  proof (cases "initialized s")
    case True
    from shutdown_result [OF i True] show ?thesis using True by (auto simp: clear_tables_def audio_limits)
  next
    case False
    then have "heap s = Map.empty" "files s = Map.empty" "\<not> running s" using i tables_cleared by (auto simp: audio_inv_def)
    with False show ?thesis by (simp add: shutdown_audio_def)
  qed
qed

theorem audio_shutdown_releases_witness: "\<exists>s'. shutdown_audio demo_opened = Some s' \<and> files s' = Map.empty"
  using audio_shutdown_releases [OF demo_audio_world demo_opened_reachable] by blast


text \<open>
  Loading a clip: when \<open>load_wav\<close> returns an id, the id is the lowest free slot, the
  slot now holds exactly the frames \<open>load_clip\<close> made of the file, in a block of their own, and
  every other clip and every voice is as before.
\<close>

theorem loadwav_installs:
  assumes "audio_world js env" and "(audio_step js env)\<^sup>*\<^sup>* audio_start s" and "initialized s" and "ToCString js v = Some path" and "loadwav js env [v] s = Some (Inr (JInt ident), s')"
  shows "\<exists>xs ev. load_clip (a_fs env (trace s)) (a_alloc env (trace s)) path = Some (Inr xs, ev) \<and>
    0 \<le> ident \<and> ident < 64 \<and> \<not> c_used (clips s ! nat ident) \<and> (\<forall>j<nat ident. c_used (clips s ! j)) \<and>
    c_used (clips s' ! nat ident) \<and> c_frames (clips s' ! nat ident) = length xs \<and> heap s' (c_samples (clips s' ! nat ident)) = Some xs \<and>
    heap s (c_samples (clips s' ! nat ident)) = None \<and> voices s' = voices s \<and>
    (\<forall>j<64. j \<noteq> nat ident \<longrightarrow> clips s' ! j = clips s ! j \<and> (c_used (clips s ! j) \<longrightarrow> heap s' (c_samples (clips s ! j)) = heap s (c_samples (clips s ! j))))"
proof -
  have i: "audio_inv s" by (rule audio_reachable [OF assms(1,2)])
  have e: "ensure env s = (0, s)" using assms(3) by (simp add: ensure_def)
  from assms(4,5) e obtain xs ev where l: "load_clip (a_fs env (trace s)) (a_alloc env (trace s)) path = Some (Inr xs, ev)"
    by (auto simp: loadwav_def split: option.splits sum.splits)
  let ?b = "next_id s"
  have r: "0 \<le> freeclip s" "ident = freeclip s"
      "s' = did (FileOpen path) s\<lparr>heap := (heap s)(?b \<mapsto> xs), next_id := ?b + 1,
        clips := (clips s)[nat (freeclip s) := \<lparr>c_used = True, c_samples = ?b, c_frames = length xs\<rparr>]\<rparr>"
    using assms(4,5) e l by (auto simp: loadwav_def new_block_def freeclip_def Let_def split: if_splits)
  have slot: "nat ident < length (clips s)" "\<not> c_used (clips s ! nat ident)" "\<forall>j<nat ident. c_used (clips s ! j)"
    using scan.search_slot [of c_used "clips s"] scan.search_first [of c_used "clips s"] r(1,2) by (auto simp: freeclip_def)
  have len: "length (clips s) = 64" using clips_length [OF i] by (simp add: MAX_CLIPS_def)
  have other: "c_samples (clips s ! j) \<noteq> ?b" if "j < 64" "c_used (clips s ! j)" for j
  proof -
    have "clips s ! j \<in> set (clips s)" using that len by simp
    with that i owns_live [of block_of block_good "clips s" "heap s" "c_samples (clips s ! j)"]
    have "heap s (c_samples (clips s ! j)) \<noteq> None" by (auto simp: audio_inv_def tables_ok_def block_of_def)
    then show ?thesis using fresh_block [OF i] by auto
  qed
  show ?thesis
    using l r slot len other fresh_block [OF i]
    by (intro exI [of _ xs] exI [of _ ev]) (auto simp: nat_less_iff)
qed

theorem loadwav_installs_witness:
  "\<exists>s'. loadwav demo_js demo_audio_env [JString ''a.wav''] demo_opened = Some (Inr (JInt 0), s') \<and>
    heap s' (c_samples (clips s' ! 0)) = Some [(1, - 2)]"
proof -
  have c: "ToCString demo_js (JString ''a.wav'') = Some ''a.wav''" by (simp add: demo_js_def js_prim_def)
  have "frames_bytes [(1, - 2)] = [1, 0, 254, 255]" by (simp add: frames_bytes_def sample_bytes_def le16_def)
  then have w: "tiny_wav = wav_file [0, 0, 0, 0] [] 2 48000 [] [] (frames_bytes [(1, - 2)]) []" by (simp add: tiny_wav_def)
  obtain ev where l: "load_clip (a_fs demo_audio_env (trace demo_opened)) (a_alloc demo_audio_env (trace demo_opened)) ''a.wav'' = Some (Inr [(1, - 2)], ev)"
    using load_clip_frames [where fs = "a_fs demo_audio_env (trace demo_opened)" and path = "''a.wav''" and riff_size = "[0, 0, 0, 0]" and pre = "[]" and
      extra = "[]" and mid = "[]" and frames = "[(1, - 2)]" and trailer = "[]" and alloc = "a_alloc demo_audio_env (trace demo_opened)"]
    by (auto simp: w int16_def MAX_WAV_BYTES_def wav_data_off_def)
  have "freeclip demo_opened = 0" using demo_openstream(5) by (simp add: freeclip_def MAX_CLIPS_def numeral_eq_Suc)
  moreover have e: "ensure demo_audio_env demo_opened = (0, demo_opened)" using demo_openstream(4) by (simp add: ensure_def)
  ultimately obtain s' where s': "loadwav demo_js demo_audio_env [JString ''a.wav''] demo_opened = Some (Inr (JInt 0), s')"
    using l c by (auto simp: loadwav_def new_block_def freeclip_def Let_def)
  from loadwav_installs [OF demo_audio_world demo_opened_reachable demo_openstream(4) c s'] l s' show ?thesis by auto
qed

text \<open>
  Freeing a clip: \<open>free(id)\<close> succeeds, stops every voice that plays the clip, gives its
  block back, and leaves the other clips and their blocks alone; a later \<open>play(id)\<close> is refused.
\<close>

theorem freed_clip_is_gone:
  assumes "audio_world js env" and "(audio_step js env)\<^sup>*\<^sup>* audio_start s" and "initialized s"
    and "ToInt32 js v = Some (int i)" and "i < 64"
  shows "\<exists>s'. freewav js [v] s = Some (Inr JUndefined, s') \<and> \<not> c_used (clips s' ! i) \<and>
    (\<forall>w\<in>set (voices s'). v_active w \<longrightarrow> v_clip w \<noteq> int i) \<and>
    (c_used (clips s ! i) \<longrightarrow> heap s' (c_samples (clips s ! i)) = None) \<and>
    (\<forall>j<64. j \<noteq> i \<longrightarrow> clips s' ! j = clips s ! j \<and> (c_used (clips s ! j) \<longrightarrow> heap s' (c_samples (clips s ! j)) = heap s (c_samples (clips s ! j)))) \<and>
    play js env [v] s' = (Inl (RangeError ''Invalid or freed clip id''), s')"
proof -
  have inv: "audio_inv s" by (rule audio_reachable [OF assms(1,2)])
  have t: "owns block_of block_good (clips s) (heap s)" and len: "length (clips s) = 64"
    using inv by (auto simp: audio_inv_def tables_ok_def MAX_CLIPS_def)
  have g: "getid js v MAX_CLIPS ''clip'' = Inr i" using assms(4,5) by (simp add: getid_def MAX_CLIPS_def)
  let ?vs = "stop_voices_of i (voices s)" and ?cs = "(clips s)[i := clip_zero]" and ?b = "c_samples (clips s ! i)"
  have stopped: "\<forall>w\<in>set ?vs. v_active w \<longrightarrow> v_clip w \<noteq> int i" by (auto simp: stop_voices_of_def)
  have refuse: "play js env [v] s' = (Inl (RangeError ''Invalid or freed clip id''), s')"
    if "initialized s'" "clips s' = ?cs" for s'
    using that g len assms(5) by (simp add: play_def ensure_def get_play_options_def)
  show ?thesis
  proof (cases "c_used (clips s ! i)")
    case False
    then have "freewav js [v] s = Some (Inr JUndefined, s\<lparr>voices := ?vs, clips := ?cs\<rparr>)"
      using g assms(3) by (simp add: freewav_def Let_def)
    with False stopped refuse [of "s\<lparr>voices := ?vs, clips := ?cs\<rparr>"] assms(3,5) len show ?thesis by simp
  next
    case True
    have mem: "clips s ! i \<in> set (clips s)" and il: "i < length (clips s)" using assms(5) len by simp_all
    have b: "block_of (clips s ! i) = Some ?b" using True by (simp add: block_of_def)
    have live: "heap s ?b \<noteq> None" "?b \<noteq> 0" using owns_good [OF t mem b] by (auto simp: block_good_def)
    have "c_samples (clips s ! j) \<noteq> ?b" if "j < 64" "j \<noteq> i" "c_used (clips s ! j)" for j
    proof -
      have j: "clips s ! j \<in> set ?cs" using that len by (metis length_list_update nth_list_update_neq nth_mem)
      have bj: "block_of (clips s ! j) = Some (c_samples (clips s ! j))" using that(3) by (simp add: block_of_def)
      have "owns block_of block_good ?cs ((heap s)(?b := None))" using blocks.clear [OF t il b] by simp
      from owns_good [OF this j bj] show ?thesis by auto
    qed
    moreover have "freewav js [v] s = Some (Inr JUndefined, s\<lparr>voices := ?vs, heap := (heap s)(?b := None), clips := ?cs\<rparr>)"
      using g assms(3) True live by (simp add: freewav_def free_block_def Let_def)
    ultimately show ?thesis
      using stopped refuse [of "s\<lparr>voices := ?vs, heap := (heap s)(?b := None), clips := ?cs\<rparr>"] assms(3,5) len by simp
  qed
qed


theorem freed_clip_is_gone_witness:
  "\<exists>s'. freewav demo_js [JInt 0] demo_opened = Some (Inr JUndefined, s') \<and>
    play demo_js demo_audio_env [JInt 0] s' = (Inl (RangeError ''Invalid or freed clip id''), s')"
proof -
  have "ToInt32 demo_js (JInt 0) = Some (int 0)" by (simp add: demo_js_def js_prim_def to_s32_def)
  from freed_clip_is_gone [OF demo_audio_world demo_opened_reachable demo_openstream(4) this] show ?thesis by auto
qed

text \<open>
  C29.  A volume that is not a number is let through by \<open>clampv\<close>: after
  \<open>set_voice_volume(k, NaN)\<close> on a voice that plays, the next pass of the mixer converts NaN to
  an integer, which is undefined behaviour.
\<close>

theorem nan_volume_reaches_mixer:
  assumes "ToInt32 js i = Some (int k)" and "k < 16" and "ToFloat64 js w = Some NaN" and "length (voices s) = 16"
    and "initialized s" and "running s" and "v_active (voices s ! k)" and "0 \<le> v_clip (voices s ! k)" and "v_clip (voices s ! k) < 64"
    and "c_used (clips s ! nat (v_clip (voices s ! k)))" and "v_pos (voices s ! k) < c_frames (clips s ! nat (v_clip (voices s ! k)))"
  shows "\<exists>s'. voicevol js [i, w] s = (Inr JUndefined, s') \<and> mixthread env s' = None"
proof -
  let ?v = "(voices s ! k)\<lparr>v_vol := NaN\<rparr>"
  let ?s = "s\<lparr>voices := (voices s)[k := ?v]\<rparr>"
  have g: "getid js i MAX_VOICES ''voice'' = Inr k" using assms(1,2) by (simp add: getid_def MAX_VOICES_def)
  have "getvol js w = Some NaN" using assms(3) by (simp add: getvol_def clampv_def)
  with g assms(5) have "voicevol js [i, w] s = (Inr JUndefined, ?s)" by (simp add: voicevol_def)
  moreover have "?v \<in> set (voices ?s)" using assms(2,4) by (auto intro: set_update_memI)
  then have "mix_list (mix_voice (clips ?s) (heap ?s) (master ?s)) (voices ?s) (0, 0) = None"
    by (rule mix_list_None) (use assms in \<open>simp add: nan_voice MAX_CLIPS_def\<close>)
  then have "mixthread env ?s = None" using assms(6) by (intro mixthread_None) (simp_all add: mix_frame_def)
  ultimately show ?thesis by blast
qed

theorem nan_volume_reaches_mixer_witness:
  "\<exists>s'. voicevol js_prim [JInt 0, JFloat NaN] demo_playing = (Inr JUndefined, s') \<and> mixthread demo_audio_env s' = None"
  by (rule nan_volume_reaches_mixer [where k = 0])
    (simp_all add: js_prim_def to_s32_def demo_playing_def voice_zero_def)

text \<open>
  A position that is not a number: after \<open>seek_stream(k, NaN)\<close> on a stream that plays, the
  next pass of the mixer converts NaN to an integer.
\<close>

theorem nan_seek_reaches_mixer:
  assumes "ToInt32 js i = Some (int k)" and "k < 4" and "ToFloat64 js w = Some NaN" and "length (streams s) = 4"
    and "initialized s" and "running s" and "s_used (streams s ! k)" and "s_playing (streams s ! k)" and "\<not> s_paused (streams s ! k)"
  shows "\<exists>s'. streamseek js [i, w] s = (Inr JUndefined, s') \<and> mixthread env s' = None"
proof -
  let ?v = "seek_to NaN (streams s ! k)"
  let ?s = "s\<lparr>streams := (streams s)[k := ?v]\<rparr>"
  have g: "getid js i MAX_STREAMS ''stream'' = Inr k" using assms(1,2) by (simp add: getid_def MAX_STREAMS_def)
  with assms(3,5) have "streamseek js [i, w] s = (Inr JUndefined, ?s)" by (simp add: streamseek_def)
  moreover have "?v \<in> set (streams ?s)" using assms(2,4) by (auto intro: set_update_memI)
  then have "mix_list (mix_stream (a_ogg env) (files ?s) (master ?s)) (streams ?s) acc = None" for acc
    by (rule mix_list_None) (use assms in \<open>simp add: nan_stream seek_to_eq seek_position_def Let_def stream_rewind_def\<close>)
  then have "mixthread env ?s = None" using assms(6)
    by (intro mixthread_None) (simp_all add: mix_frame_def split: option.splits)
  ultimately show ?thesis by blast
qed

theorem nan_seek_reaches_mixer_witness:
  "\<exists>s'. streamseek js_prim [JInt 0, JFloat NaN] (demo_playing\<lparr>streams := (replicate 4 stream_zero)[0 := demo_stream]\<rparr>) = (Inr JUndefined, s') \<and>
     mixthread demo_audio_env s' = None"
  by (rule nan_seek_reaches_mixer [where k = 0])
    (simp_all add: js_prim_def to_s32_def demo_playing_def demo_stream_def stream_zero_def)

text \<open>An id that is refused: \<open>is_playing\<close> answers false and leaves the exception pending.\<close>

lemma isplaying_pending:
  "ToInt32 js v = Some n \<Longrightarrow> n < 0 \<Longrightarrow>
   isplaying js [v] s = (Inr (JBool False), s\<lparr>js_pending := Some (RangeError ''Invalid voice id'')\<rparr>)"
  by (simp add: isplaying_def getid_def)

end
