(* ===== verification/Js_Monad.thy ===== *)
theory Js_Monad
  imports Js_Api
begin

text \<open>
  Native functions as state transformers: from a state to a result and a new state, where the
  result is a value or a JavaScript error, and \<open>None\<close> is undefined behaviour.  An early
  \<open>return\<close> with an exception is \<open>jthrow\<close>; a \<open>jbind\<close> goes on only after a value.
  The triples \<open>jspec P m Q\<close> are total: from a state with \<open>P\<close> the function returns, and
  its result and the state it leaves satisfy \<open>Q\<close>.
\<close>

type_synonym ('s, 'a) jsm = "'s \<Rightarrow> ('a js_result \<times> 's) option"

definition jret :: "'a \<Rightarrow> ('s, 'a) jsm" where
  "jret x s = Some (Inr x, s)"

definition jthrow :: "js_error \<Rightarrow> ('s, 'a) jsm" where
  "jthrow e s = Some (Inl e, s)"

definition jundef :: "('s, 'a) jsm" where
  "jundef s = None"

definition jbind :: "('s, 'a) jsm \<Rightarrow> ('a \<Rightarrow> ('s, 'b) jsm) \<Rightarrow> ('s, 'b) jsm" where
  "jbind m k s = (case m s of None \<Rightarrow> None | Some (Inl e, s) \<Rightarrow> Some (Inl e, s) | Some (Inr x, s) \<Rightarrow> k x s)"

definition jget :: "('s \<Rightarrow> 'a) \<Rightarrow> ('s, 'a) jsm" where
  "jget f s = Some (Inr (f s), s)"

definition jmodify :: "('s \<Rightarrow> 's) \<Rightarrow> ('s, unit) jsm" where
  "jmodify f s = Some (Inr (), f s)"

text \<open>A conversion of the engine: \<open>None\<close> is an exception that is already pending.\<close>

definition jlift :: "'a option \<Rightarrow> ('s, 'a) jsm" where
  "jlift r = (case r of None \<Rightarrow> jthrow Pending | Some x \<Rightarrow> jret x)"

lemmas jm_defs = jret_def jthrow_def jundef_def jbind_def jget_def jmodify_def jlift_def

lemma jlift_simps [simp]: "jlift (Some x) = jret x" "jlift None = jthrow Pending"
  by (simp_all add: jlift_def)

lemma jbind_jret [simp]: "jbind (jret x) k = k x" "jbind (jthrow e) k = jthrow e"
  by (simp_all add: jm_defs fun_eq_iff)

lemma jbind_Some:
  "m s = Some (Inr x, s') \<Longrightarrow> jbind m k s = k x s'" "m s = Some (Inl e, s') \<Longrightarrow> jbind m k s = Some (Inl e, s')"
  by (simp_all add: jbind_def)

subsection \<open>Triples\<close>

definition jspec :: "('s \<Rightarrow> bool) \<Rightarrow> ('s, 'a) jsm \<Rightarrow> ('a js_result \<Rightarrow> 's \<Rightarrow> bool) \<Rightarrow> bool" where
  "jspec P m Q \<longleftrightarrow> (\<forall>s. P s \<longrightarrow> (\<exists>r s'. m s = Some (r, s') \<and> Q r s'))"

text \<open>The postconditions of a step in the middle: \<open>R\<close> after a value, \<open>E\<close> after an error.\<close>

definition jpost :: "('s \<Rightarrow> bool) \<Rightarrow> ('a \<Rightarrow> 's \<Rightarrow> bool) \<Rightarrow> 'a js_result \<Rightarrow> 's \<Rightarrow> bool" where
  "jpost E R r s \<longleftrightarrow> (case r of Inl e \<Rightarrow> E s | Inr x \<Rightarrow> R x s)"

lemma jpost_simps [simp]: "jpost E R (Inl e) s \<longleftrightarrow> E s" "jpost E R (Inr x) s \<longleftrightarrow> R x s"
  by (simp_all add: jpost_def)

lemma jspecD: "jspec P m Q \<Longrightarrow> P s \<Longrightarrow> \<exists>r s'. m s = Some (r, s') \<and> Q r s'"
  by (simp add: jspec_def)

lemma jspecI: "(\<And>s. P s \<Longrightarrow> \<exists>r s'. m s = Some (r, s') \<and> Q r s') \<Longrightarrow> jspec P m Q"
  by (simp add: jspec_def)

lemma jspec_weaken: "jspec P' m Q' \<Longrightarrow> (\<And>s. P s \<Longrightarrow> P' s) \<Longrightarrow> (\<And>r s. Q' r s \<Longrightarrow> Q r s) \<Longrightarrow> jspec P m Q"
  unfolding jspec_def by blast

lemma jspec_bind:
  assumes "jspec P m (jpost E R)" and "\<And>x. jspec (R x) (k x) (jpost E Q)"
  shows "jspec P (jbind m k) (jpost E Q)"
proof (rule jspecI)
  fix s
  assume "P s"
  then obtain r s1 where m: "m s = Some (r, s1)" "jpost E R r s1" using jspecD [OF assms(1)] by blast
  show "\<exists>r s'. jbind m k s = Some (r, s') \<and> jpost E Q r s'"
  proof (cases r)
    case (Inl e)
    with m show ?thesis by (simp add: jbind_def)
  next
    case (Inr x)
    with m jspecD [OF assms(2) [of x], of s1] show ?thesis by (simp add: jbind_def)
  qed
qed

lemma jspec_ret: "(\<And>s. P s \<Longrightarrow> Q x s) \<Longrightarrow> jspec P (jret x) (jpost E Q)"
  by (simp add: jspec_def jret_def)

lemma jspec_throw: "(\<And>s. P s \<Longrightarrow> E s) \<Longrightarrow> jspec P (jthrow e) (jpost E Q)"
  by (simp add: jspec_def jthrow_def)

lemma jspec_get: "(\<And>s. P s \<Longrightarrow> Q (f s) s) \<Longrightarrow> jspec P (jget f) (jpost E Q)"
  by (simp add: jspec_def jget_def)

lemma jspec_modify: "(\<And>s. P s \<Longrightarrow> Q () (f s)) \<Longrightarrow> jspec P (jmodify f) (jpost E Q)"
  by (simp add: jspec_def jmodify_def)

lemma jspec_lift: "(\<And>s. P s \<Longrightarrow> E s) \<Longrightarrow> (\<And>x s. r = Some x \<Longrightarrow> P s \<Longrightarrow> Q x s) \<Longrightarrow> jspec P (jlift r) (jpost E Q)"
  by (cases r) (auto intro: jspec_ret jspec_throw)

subsection \<open>Invariants\<close>

text \<open>A function that returns from every state of the invariant, to a state of the invariant.\<close>

definition jkeeps :: "('s \<Rightarrow> bool) \<Rightarrow> ('s, 'a) jsm \<Rightarrow> bool" where
  "jkeeps I m \<longleftrightarrow> jspec I m (\<lambda>r s. I s)"

lemma jkeeps_post: "jkeeps I m \<longleftrightarrow> jspec I m (jpost I (\<lambda>_. I))"
  by (auto simp: jkeeps_def jspec_def jpost_def split: sum.splits)

lemma jkeeps_bind: "jkeeps I m \<Longrightarrow> (\<And>x. jkeeps I (k x)) \<Longrightarrow> jkeeps I (jbind m k)"
  unfolding jkeeps_post by (rule jspec_bind)

lemma jkeeps_ret [simp]: "jkeeps I (jret x)"
  unfolding jkeeps_post by (simp add: jspec_ret)

lemma jkeeps_throw [simp]: "jkeeps I (jthrow e)"
  unfolding jkeeps_post by (simp add: jspec_throw)

lemma jkeeps_get [simp]: "jkeeps I (jget f)"
  unfolding jkeeps_post by (simp add: jspec_get)

lemma jkeeps_lift [simp]: "jkeeps I (jlift r)"
  by (cases r) simp_all

lemma jkeeps_modify: "(\<And>s. I s \<Longrightarrow> I (f s)) \<Longrightarrow> jkeeps I (jmodify f)"
  unfolding jkeeps_post by (simp add: jspec_modify)

lemma jkeeps_if: "(b \<Longrightarrow> jkeeps I m) \<Longrightarrow> (\<not> b \<Longrightarrow> jkeeps I m') \<Longrightarrow> jkeeps I (if b then m else m')"
  by simp

lemma jkeepsD: "jkeeps I m \<Longrightarrow> I s \<Longrightarrow> \<exists>r s'. m s = Some (r, s') \<and> I s'"
  unfolding jkeeps_def by (rule jspecD)

lemma jkeeps_result: "jkeeps I m \<Longrightarrow> I s \<Longrightarrow> m s = Some (r, s') \<Longrightarrow> I s'"
  using jkeepsD [of I m s] by auto

subsection \<open>Calls and borrowed strings\<close>

text \<open>
  The state of a module that makes system calls and borrows C strings from the engine:
  \<open>JS_ToCString\<close> borrows one, \<open>JS_FreeCString\<close> gives one back, and giving back more than
  was borrowed is undefined.
\<close>

record 'c native = "'c traced" +
  cstrings :: nat

definition free_cstring :: "(('c, 's) native_scheme, unit) jsm" where
  "free_cstring s = (if cstrings s = 0 then None else Some (Inr (), s\<lparr>cstrings := cstrings s - 1\<rparr>))"

definition get_text :: "js_engine \<Rightarrow> jsval \<Rightarrow> (('c, 's) native_scheme, string) jsm" where
  "get_text js v = jbind (jlift (ToCString js v)) (\<lambda>t. jbind (jmodify (\<lambda>s. s\<lparr>cstrings := cstrings s + 1\<rparr>)) (\<lambda>_. jret t))"

text \<open>A call of the system: its answer, and the history with it.\<close>

definition jcall :: "('c list \<Rightarrow> 'c \<Rightarrow> 'r) \<Rightarrow> 'c \<Rightarrow> (('c, 's) traced_scheme, 'r) jsm" where
  "jcall answer c s = Some (Inr (ask answer s c), did c s)"

lemma spec_jcall:
  "(\<And>s. P s \<Longrightarrow> Q (answer (trace s) c) (did c s)) \<Longrightarrow> jspec P (jcall answer c) (jpost E Q)"
  by (simp add: jspec_def jcall_def ask_def)

lemma jkeeps_jcall: "(\<And>s. I s \<Longrightarrow> I (did c s)) \<Longrightarrow> jkeeps I (jcall answer c)"
  unfolding jkeeps_post by (rule spec_jcall)

lemma did_cstrings [simp]: "cstrings (did c s) = cstrings s"
  by (simp add: did_def)

lemma spec_get_text:
  "jspec (\<lambda>s. cstrings s = n) (get_text js v) (jpost (\<lambda>s. cstrings s = n) (\<lambda>_ s. cstrings s = Suc n))"
  unfolding get_text_def by (intro jspec_bind [OF jspec_lift] jspec_bind [OF jspec_modify] jspec_ret) auto

lemma spec_free_text: "jspec (\<lambda>s. cstrings s = Suc n) free_cstring (jpost E (\<lambda>_ s. cstrings s = n))"
  by (simp add: jspec_def free_cstring_def)

subsection \<open>Colours\<close>

text \<open>The macro of libvita2d.\<close>

definition RGBA8 :: "nat \<Rightarrow> nat \<Rightarrow> nat \<Rightarrow> nat \<Rightarrow> nat" where
  "RGBA8 r g b a = (a mod 256) * 2 ^ 24 + (b mod 256) * 2 ^ 16 + (g mod 256) * 2 ^ 8 + r mod 256"

end
