(* ===== verification/Font.thy ===== *)
theory Font
  imports Js_Monad
begin

text \<open>
  The font module (src/src/modules/font.c).  A font object of JavaScript owns a \<open>FontData\<close>:
  the name of its file and one \<open>vita2d_font\<close> for every pixel size that was asked for.

  The state keeps the font objects, the live resources (instances of libvita2d and blocks of the
  engine's allocator) and the number of C strings borrowed from the engine; freeing what is not
  live, or drawing with an instance that is not, is undefined behaviour.  The answers of
  libvita2d and of the allocator are parameters (\<open>font_env\<close>).  Converting an argument may run
  code of the script (a \<open>toString\<close> or \<open>valueOf\<close> method), which may call
  \<open>free_font\<close>; \<open>conv_frees\<close> says on which font objects it does.
\<close>

subsection \<open>State\<close>

datatype font_res = Instance nat | Block nat

datatype font_call =
    LoadFontFile string
  | FreeFontInstance nat
  | FontMalloc
  | FontNewObject
  | FontSetProperty string
  | DrawText nat int int nat nat string
  | DrawTextLs nat int int flt nat nat string
  | TextDimensions nat nat string
  | TextWidth nat nat string
  | TextHeight nat nat string

record FontSizeCache =
  fe_size :: nat
  fe_font :: "nat option"
  fe_block :: nat

record FontData =
  fd_filename :: "(nat \<times> string) option"
  fd_sizes :: "FontSizeCache list"
  fd_block :: nat

record font_state = "font_call native" +
  fonts :: "nat \<Rightarrow> FontData option"
  live_res :: "font_res \<Rightarrow> bool"
  next_res :: nat
  next_object :: nat

record font_env =
  f_ok :: "font_call list \<Rightarrow> font_call \<Rightarrow> bool"
  f_int :: "font_call list \<Rightarrow> font_call \<Rightarrow> int"
  f_dims :: "font_call list \<Rightarrow> font_call \<Rightarrow> int \<times> int"
  conv_frees :: "jsval \<Rightarrow> nat list"

type_synonym 'a font_m = "(font_state, 'a) jsm"

definition font_start :: font_state where
  "font_start = \<lparr>trace = [], cstrings = 0, fonts = Map.empty, live_res = (\<lambda>_. False), next_res = 0, next_object = 0\<rparr>"

subsection \<open>Resources\<close>

definition free_res :: "font_res \<Rightarrow> unit font_m" where
  "free_res r s = (if live_res s r then Some (Inr (), s\<lparr>live_res := (live_res s)(r := False)\<rparr>) else None)"

text \<open>A call that makes a new resource, or fails.\<close>

definition new_res :: "font_env \<Rightarrow> (nat \<Rightarrow> font_res) \<Rightarrow> font_call \<Rightarrow> nat option font_m" where
  "new_res env mk c s =
     (if ask (f_ok env) s c
      then Some (Inr (Some (next_res s)),
             (did c s)\<lparr>live_res := (live_res s)(mk (next_res s) := True), next_res := next_res s + 1\<rparr>)
      else Some (Inr None, did c s))"

definition js_alloc :: "font_env \<Rightarrow> nat option font_m" where
  "js_alloc env = new_res env Block FontMalloc"

definition js_dealloc :: "nat \<Rightarrow> unit font_m" where
  "js_dealloc b = free_res (Block b)"

definition load_instance :: "font_env \<Rightarrow> string \<Rightarrow> nat option font_m" where
  "load_instance env path = new_res env Instance (LoadFontFile path)"

definition free_instance :: "nat \<Rightarrow> unit font_m" where
  "free_instance h = jbind (free_res (Instance h)) (\<lambda>_. jmodify (did (FreeFontInstance h)))"

text \<open>A text function of libvita2d, on an instance.\<close>

definition use_instance :: "nat \<Rightarrow> font_call \<Rightarrow> unit font_m" where
  "use_instance h c s = (if live_res s (Instance h) then Some (Inr (), did c s) else None)"

subsection \<open>Freeing\<close>

fun free_entries :: "FontSizeCache list \<Rightarrow> unit font_m" where
  "free_entries [] = jret ()"
| "free_entries (e # es) =
     jbind (case fe_font e of None \<Rightarrow> jret () | Some h \<Rightarrow> free_instance h) (\<lambda>_.
     jbind (js_dealloc (fe_block e)) (\<lambda>_. free_entries es))"

definition vitajs_free_font_cache :: "FontData \<Rightarrow> FontData font_m" where
  "vitajs_free_font_cache d =
     jbind (free_entries (fd_sizes d)) (\<lambda>_.
     jbind (case fd_filename d of None \<Rightarrow> jret () | Some (b, _) \<Rightarrow> js_dealloc b) (\<lambda>_.
     jret (d\<lparr>fd_sizes := [], fd_filename := None\<rparr>)))"

text \<open>The engine calls the finalizer when the last reference to an object is gone.\<close>

definition vitajs_font_finalizer :: "nat \<Rightarrow> unit font_m" where
  "vitajs_font_finalizer k =
     jbind (jget (\<lambda>s. fonts s k)) (\<lambda>data.
       case data of
         None \<Rightarrow> jret ()
       | Some d \<Rightarrow>
         jbind (vitajs_free_font_cache d) (\<lambda>d.
         jbind (js_dealloc (fd_block d)) (\<lambda>_.
         jmodify (\<lambda>s. s\<lparr>fonts := (fonts s)(k := None)\<rparr>))))"

text \<open>The part of \<open>vitajs_free_font\<close> after \<open>JS_GetOpaque2\<close>.\<close>

definition free_font_object :: "nat \<Rightarrow> unit font_m" where
  "free_font_object k =
     jbind (jget (\<lambda>s. fonts s k)) (\<lambda>data.
       case data of
         None \<Rightarrow> jret ()
       | Some d \<Rightarrow>
         if fd_filename d = None then jret ()
         else jbind (vitajs_free_font_cache d) (\<lambda>d. jmodify (\<lambda>s. s\<lparr>fonts := (fonts s)(k \<mapsto> d)\<rparr>)))"

subsection \<open>Arguments\<close>

text \<open>Conversions, with what the script does meanwhile.\<close>

fun script_frees :: "nat list \<Rightarrow> unit font_m" where
  "script_frees [] = jret ()"
| "script_frees (k # ks) = jbind (free_font_object k) (\<lambda>_. script_frees ks)"

definition convert :: "font_env \<Rightarrow> (jsval \<Rightarrow> 'a option) \<Rightarrow> jsval \<Rightarrow> 'a font_m" where
  "convert env conv v = jbind (script_frees (conv_frees env v)) (\<lambda>_. jlift (conv v))"

definition convert_cstring :: "js_engine \<Rightarrow> font_env \<Rightarrow> jsval \<Rightarrow> string font_m" where
  "convert_cstring js env v =
     jbind (convert env (ToCString js) v) (\<lambda>t. jbind (jmodify (\<lambda>s. s\<lparr>cstrings := cstrings s + 1\<rparr>)) (\<lambda>_. jret t))"

definition JS_ToFloat32 :: "js_engine \<Rightarrow> jsval \<Rightarrow> flt option" where
  "JS_ToFloat32 js v = map_option (fcvt f32) (ToFloat64 js v)"

fun get_opaque :: "font_state \<Rightarrow> jsval \<Rightarrow> (nat \<times> FontData) option" where
  "get_opaque s (JRef k) = map_option (Pair k) (fonts s k)"
| "get_opaque s _ = None"

text \<open>The pointer to the data, as the number of the object that owns it.\<close>

definition vitajs_get_font_data :: "jsval \<Rightarrow> nat font_m" where
  "vitajs_get_font_data value =
     jbind (jget (\<lambda>s. get_opaque s value)) (\<lambda>data.
       case data of
         None \<Rightarrow> jthrow Pending
       | Some (k, d) \<Rightarrow> if fd_filename d = None then jthrow (TypeError ''Font has already been freed'') else jret k)"

definition add_size :: "nat \<Rightarrow> FontSizeCache \<Rightarrow> font_state \<Rightarrow> font_state" where
  "add_size k e s = s\<lparr>fonts := (fonts s)(k := map_option (\<lambda>d. d\<lparr>fd_sizes := e # fd_sizes d\<rparr>) (fonts s k))\<rparr>"

definition vitajs_get_sized_font :: "font_env \<Rightarrow> nat \<Rightarrow> nat \<Rightarrow> nat font_m" where
  "vitajs_get_sized_font env k px =
     (if px = 0 then jthrow (RangeError ''Font size must be greater than zero'')
      else jbind (jget (\<lambda>s. fonts s k)) (\<lambda>data.
        case data of
          None \<Rightarrow> jundef
        | Some d \<Rightarrow>
          (case find (\<lambda>e. fe_size e = px) (fd_sizes d) of
             Some e \<Rightarrow> jlift (fe_font e)
           | None \<Rightarrow>
             jbind (js_alloc env) (\<lambda>entry.
               case entry of
                 None \<Rightarrow> jthrow Pending
               | Some b \<Rightarrow>
                 (case fd_filename d of
                    None \<Rightarrow> jundef
                  | Some (_, path) \<Rightarrow>
                    jbind (load_instance env path) (\<lambda>font.
                      case font of
                        None \<Rightarrow> jbind (js_dealloc b) (\<lambda>_.
                          jthrow (InternalError (''Unable to create font cache for size '' @ dec (int px))))
                      | Some h \<Rightarrow>
                        jbind (jmodify (add_size k \<lparr>fe_size = px, fe_font = Some h, fe_block = b\<rparr>)) (\<lambda>_. jret h)))))))"

subsection \<open>The JavaScript functions\<close>

definition new_font_object :: "font_env \<Rightarrow> string \<Rightarrow> jsval font_m" where
  "new_font_object env filename =
     jbind (js_alloc env) (\<lambda>data.
       case data of
         None \<Rightarrow> jbind free_cstring (\<lambda>_. jthrow Pending)
       | Some d \<Rightarrow>
         jbind (js_alloc env) (\<lambda>name.
           case name of
             None \<Rightarrow> jbind free_cstring (\<lambda>_. jbind (js_dealloc d) (\<lambda>_. jthrow Pending))
           | Some b \<Rightarrow>
             jbind free_cstring (\<lambda>_.
             jbind (jget next_object) (\<lambda>k.
             jbind (jmodify (\<lambda>s. s\<lparr>fonts := (fonts s)(k \<mapsto> \<lparr>fd_filename = Some (b, filename), fd_sizes = [], fd_block = d\<rparr>),
                                    next_object := k + 1\<rparr>)) (\<lambda>_.
             jret (JRef k))))))"

definition vitajs_load_font_file :: "js_engine \<Rightarrow> font_env \<Rightarrow> jsval list \<Rightarrow> jsval font_m" where
  "vitajs_load_font_file js env argv =
     (if length argv \<noteq> 1 then jthrow (SyntaxError ''load_font_file(filename: string) expects exactly one argument'')
      else jbind (convert_cstring js env (argv ! 0)) (\<lambda>filename.
        jbind (load_instance env filename) (\<lambda>probe.
          case probe of
            None \<Rightarrow> jbind free_cstring (\<lambda>_. jthrow (InternalError ''Unable to load font file''))
          | Some h \<Rightarrow>
            jbind (free_instance h) (\<lambda>_.
            jbind (jget (\<lambda>s. ask (f_ok env) s FontNewObject)) (\<lambda>ok.
            jbind (jmodify (did FontNewObject)) (\<lambda>_.
              if \<not> ok then jbind free_cstring (\<lambda>_. jthrow Pending)
              else new_font_object env filename))))))"

definition vitajs_free_font :: "jsval list \<Rightarrow> jsval font_m" where
  "vitajs_free_font argv =
     (if length argv \<noteq> 1 then jthrow (SyntaxError ''free_font(font) expects exactly one argument'')
      else jbind (jget (\<lambda>s. get_opaque s (argv ! 0))) (\<lambda>data.
        case data of
          None \<Rightarrow> jthrow Pending
        | Some (k, _) \<Rightarrow> jbind (free_font_object k) (\<lambda>_. jret JUndefined)))"

definition vitajs_font_draw_text :: "js_engine \<Rightarrow> font_env \<Rightarrow> jsval list \<Rightarrow> jsval font_m" where
  "vitajs_font_draw_text js env argv =
     (if length argv \<noteq> 6 then jthrow (SyntaxError ''font_draw_text(font, x, y, color, size, text) expects six arguments'')
      else jbind (vitajs_get_font_data (argv ! 0)) (\<lambda>data.
        jbind (convert env (ToInt32 js) (argv ! 1)) (\<lambda>x.
        jbind (convert env (ToInt32 js) (argv ! 2)) (\<lambda>y.
        jbind (convert env (ToUint32 js) (argv ! 3)) (\<lambda>color.
        jbind (convert env (ToUint32 js) (argv ! 4)) (\<lambda>size.
        jbind (vitajs_get_sized_font env data size) (\<lambda>font.
        jbind (convert_cstring js env (argv ! 5)) (\<lambda>text.
        jbind (use_instance font (DrawText font x y color size text)) (\<lambda>_.
        jbind free_cstring (\<lambda>_. jret JUndefined))))))))))"

definition vitajs_font_draw_text_ls :: "js_engine \<Rightarrow> font_env \<Rightarrow> jsval list \<Rightarrow> jsval font_m" where
  "vitajs_font_draw_text_ls js env argv =
     (if length argv \<noteq> 7
      then jthrow (SyntaxError ''font_draw_text_ls(font, x, y, lineSpace, color, size, text) expects seven arguments'')
      else jbind (vitajs_get_font_data (argv ! 0)) (\<lambda>data.
        jbind (convert env (ToInt32 js) (argv ! 1)) (\<lambda>x.
        jbind (convert env (ToInt32 js) (argv ! 2)) (\<lambda>y.
        jbind (convert env (JS_ToFloat32 js) (argv ! 3)) (\<lambda>line_space.
        jbind (convert env (ToUint32 js) (argv ! 4)) (\<lambda>color.
        jbind (convert env (ToUint32 js) (argv ! 5)) (\<lambda>size.
        jbind (vitajs_get_sized_font env data size) (\<lambda>font.
        jbind (convert_cstring js env (argv ! 6)) (\<lambda>text.
        jbind (use_instance font (DrawTextLs font x y line_space color size text)) (\<lambda>_.
        jbind free_cstring (\<lambda>_. jret JUndefined)))))))))))"

text \<open>The measuring functions begin alike.\<close>

definition measure_text :: "js_engine \<Rightarrow> font_env \<Rightarrow> (nat \<Rightarrow> nat \<Rightarrow> string \<Rightarrow> font_call) \<Rightarrow> jsval list \<Rightarrow> (font_call list \<times> font_call) font_m" where
  "measure_text js env call argv =
     jbind (vitajs_get_font_data (argv ! 0)) (\<lambda>data.
     jbind (convert env (ToUint32 js) (argv ! 1)) (\<lambda>size.
     jbind (vitajs_get_sized_font env data size) (\<lambda>font.
     jbind (convert_cstring js env (argv ! 2)) (\<lambda>text.
     jbind (jget trace) (\<lambda>h.
     jbind (use_instance font (call font size text)) (\<lambda>_.
     jbind free_cstring (\<lambda>_. jret (h, call font size text))))))))"

text \<open>\<open>JS_SetPropertyStr\<close>, which may fail.\<close>

definition font_set_property :: "font_env \<Rightarrow> string \<Rightarrow> unit font_m" where
  "font_set_property env name =
     jbind (jget (\<lambda>s. ask (f_ok env) s (FontSetProperty name))) (\<lambda>ok.
     jbind (jmodify (did (FontSetProperty name))) (\<lambda>_. if ok then jret () else jthrow Pending))"

definition vitajs_font_text_dimensions :: "js_engine \<Rightarrow> font_env \<Rightarrow> jsval list \<Rightarrow> jsval font_m" where
  "vitajs_font_text_dimensions js env argv =
     (if length argv \<noteq> 3 then jthrow (SyntaxError ''font_text_dimensions(font, size, text) expects three arguments'')
      else jbind (measure_text js env TextDimensions argv) (\<lambda>(h, c).
        jbind (jget (\<lambda>s. ask (f_ok env) s FontNewObject)) (\<lambda>ok.
        jbind (jmodify (did FontNewObject)) (\<lambda>_.
          if \<not> ok then jthrow Pending
          else case f_dims env h c of (width, height) \<Rightarrow>
            jbind (font_set_property env ''width'') (\<lambda>_.
            jbind (font_set_property env ''height'') (\<lambda>_.
            jret (JObject [(''width'', JInt width), (''height'', JInt height)])))))))"

definition vitajs_font_text_width :: "js_engine \<Rightarrow> font_env \<Rightarrow> jsval list \<Rightarrow> jsval font_m" where
  "vitajs_font_text_width js env argv =
     (if length argv \<noteq> 3 then jthrow (SyntaxError ''font_text_width(font, size, text) expects three arguments'')
      else jbind (measure_text js env TextWidth argv) (\<lambda>(h, c). jret (JInt (f_int env h c))))"

definition vitajs_font_text_height :: "js_engine \<Rightarrow> font_env \<Rightarrow> jsval list \<Rightarrow> jsval font_m" where
  "vitajs_font_text_height js env argv =
     (if length argv \<noteq> 3 then jthrow (SyntaxError ''font_text_height(font, size, text) expects three arguments'')
      else jbind (measure_text js env TextHeight argv) (\<lambda>(h, c). jret (JInt (f_int env h c))))"

subsection \<open>The module as a transition system\<close>

datatype font_op =
    F_load "jsval list" | F_free "jsval list" | F_draw "jsval list" | F_draw_ls "jsval list"
  | F_dimensions "jsval list" | F_width "jsval list" | F_height "jsval list" | F_finalize nat

fun font_exec :: "js_engine \<Rightarrow> font_env \<Rightarrow> font_op \<Rightarrow> jsval font_m" where
  "font_exec js env (F_load argv) = vitajs_load_font_file js env argv"
| "font_exec js env (F_free argv) = vitajs_free_font argv"
| "font_exec js env (F_draw argv) = vitajs_font_draw_text js env argv"
| "font_exec js env (F_draw_ls argv) = vitajs_font_draw_text_ls js env argv"
| "font_exec js env (F_dimensions argv) = vitajs_font_text_dimensions js env argv"
| "font_exec js env (F_width argv) = vitajs_font_text_width js env argv"
| "font_exec js env (F_height argv) = vitajs_font_text_height js env argv"
| "font_exec js env (F_finalize k) = jbind (vitajs_font_finalizer k) (\<lambda>_. jret JUndefined)"

inductive font_step :: "js_engine \<Rightarrow> font_env \<Rightarrow> font_state \<Rightarrow> font_state \<Rightarrow> bool" for js env where
  font_call: "font_exec js env op s = Some (r, s') \<Longrightarrow> font_step js env s s'"

inductive_cases font_stepE: "font_step js env s s'"

end
