(* ===== verification/Font_Safety.thy ===== *)
theory Font_Safety
  imports Font
begin

text \<open>
  The font module owns what it has allocated: in every reachable state the live instances and
  blocks are exactly those of the font objects, and one instance is never used with two sizes.
\<close>

subsection \<open>Ownership\<close>

definition owned_entry :: "FontSizeCache \<Rightarrow> font_res list" where
  "owned_entry e = (case fe_font e of None \<Rightarrow> [] | Some h \<Rightarrow> [Instance h]) @ [Block (fe_block e)]"

definition owned_name :: "FontData \<Rightarrow> font_res list" where
  "owned_name d = (case fd_filename d of None \<Rightarrow> [] | Some (b, _) \<Rightarrow> [Block b])"

definition owned_font :: "FontData \<Rightarrow> font_res list" where
  "owned_font d = concat (map owned_entry (fd_sizes d)) @ owned_name d @ [Block (fd_block d)]"

fun res_id :: "font_res \<Rightarrow> nat" where
  "res_id (Instance n) = n"
| "res_id (Block n) = n"

text \<open>Which instance a call draws or measures with, and at which size.\<close>

fun text_use :: "font_call \<Rightarrow> (nat \<times> nat) list" where
  "text_use (DrawText h x y color px t) = [(h, px)]"
| "text_use (DrawTextLs h x y ls color px t) = [(h, px)]"
| "text_use (TextDimensions h px t) = [(h, px)]"
| "text_use (TextWidth h px t) = [(h, px)]"
| "text_use (TextHeight h px t) = [(h, px)]"
| "text_use _ = []"

definition text_uses :: "font_call list \<Rightarrow> (nat \<times> nat) set" where
  "text_uses h = set (concat (map text_use h))"

lemma text_uses_simps [simp]: "text_uses [] = {}" "text_uses (c # h) = set (text_use c) \<union> text_uses h"
  by (simp_all add: text_uses_def)

definition entry_ok :: "FontSizeCache \<Rightarrow> bool" where
  "entry_ok e \<longleftrightarrow> fe_size e \<noteq> 0 \<and> fe_font e \<noteq> None"

definition sizes_ok :: "FontData \<Rightarrow> bool" where
  "sizes_ok d \<longleftrightarrow> distinct (map fe_size (fd_sizes d)) \<and> (\<forall>e\<in>set (fd_sizes d). entry_ok e) \<and> (fd_filename d = None \<longrightarrow> fd_sizes d = [])"

text \<open>Every instance has been used at one size, the one it is cached for.\<close>

definition one_size :: "font_state \<Rightarrow> bool" where
  "one_size s \<longleftrightarrow> (\<forall>h p q. (h, p) \<in> text_uses (trace s) \<longrightarrow> (h, q) \<in> text_uses (trace s) \<longrightarrow> p = q) \<and>
     (\<forall>h p. (h, p) \<in> text_uses (trace s) \<longrightarrow> h < next_res s) \<and>
     (\<forall>h p k d e. (h, p) \<in> text_uses (trace s) \<longrightarrow> fonts s k = Some d \<longrightarrow> e \<in> set (fd_sizes d) \<longrightarrow> fe_font e = Some h \<longrightarrow> fe_size e = p)"

definition font_frame :: "font_state \<Rightarrow> bool" where
  "font_frame s \<longleftrightarrow> one_size s \<and> (\<forall>r. live_res s r \<longrightarrow> res_id r < next_res s) \<and> (\<forall>k. fonts s k \<noteq> None \<longrightarrow> k < next_object s) \<and>
     (\<forall>k d. fonts s k = Some d \<longrightarrow> sizes_ok d)"

text \<open>The invariant, with resources \<open>xs\<close> held by the running function and \<open>n\<close> borrowed strings.\<close>

definition font_good :: "font_res list \<Rightarrow> nat \<Rightarrow> font_state \<Rightarrow> bool" where
  "font_good xs n s \<longleftrightarrow> ledger owned_font (fonts s) xs (live_res s) \<and> font_frame s \<and> cstrings s = n"

lemma font_good_start: "font_good [] 0 font_start"
  by (simp add: font_good_def font_start_def ledger_start font_frame_def one_size_def)

subsection \<open>Freeing\<close>

text \<open>What freeing may change: resources and the history, by calls that use no font.\<close>

definition freed_only :: "font_state \<Rightarrow> font_state \<Rightarrow> bool" where
  "freed_only s s' \<longleftrightarrow> (\<forall>r. live_res s' r \<longrightarrow> live_res s r) \<and> text_uses (trace s') = text_uses (trace s) \<and> fonts s' = fonts s \<and>
     next_res s' = next_res s \<and> next_object s' = next_object s \<and> cstrings s' = cstrings s"

lemma freed_only_refl [simp]: "freed_only s s"
  by (simp add: freed_only_def)

lemma freed_only_trans: "freed_only s s' \<Longrightarrow> freed_only s' s'' \<Longrightarrow> freed_only s s''"
  by (simp add: freed_only_def)

lemma freed_frame: "freed_only s s' \<Longrightarrow> font_frame s \<Longrightarrow> font_frame s'"
  by (auto simp: freed_only_def font_frame_def one_size_def)

lemma free_res_ok:
  assumes "ledger owned_font F (r # xs) (live_res s)"
  shows "\<exists>s'. free_res r s = Some (Inr (), s') \<and> ledger owned_font F xs (live_res s') \<and> freed_only s s'"
  using ledger_free [OF assms] by (simp add: free_res_def freed_only_def)

lemma free_instance_ok:
  assumes "ledger owned_font F (Instance h # xs) (live_res s)"
  shows "\<exists>s'. free_instance h s = Some (Inr (), s') \<and> ledger owned_font F xs (live_res s') \<and> freed_only s s'"
proof -
  obtain s1 where "free_res (Instance h) s = Some (Inr (), s1)" "ledger owned_font F xs (live_res s1)" "freed_only s s1"
    using free_res_ok [OF assms] by blast
  then show ?thesis by (simp add: free_instance_def jbind_def jmodify_def freed_only_def did_def)
qed

lemma free_entry_font_ok:
  assumes "ledger owned_font F ((case f of None \<Rightarrow> [] | Some h \<Rightarrow> [Instance h]) @ xs) (live_res s)"
  shows "\<exists>s'. (case f of None \<Rightarrow> jret () | Some h \<Rightarrow> free_instance h) s = Some (Inr (), s') \<and> ledger owned_font F xs (live_res s') \<and> freed_only s s'"
proof (cases f)
  case None
  with assms show ?thesis by (simp add: jret_def)
next
  case (Some h)
  with assms free_instance_ok [of F h xs s] show ?thesis by simp
qed

lemma free_entries_ok:
  assumes "ledger owned_font F (concat (map owned_entry es) @ xs) (live_res s)"
  shows "\<exists>s'. free_entries es s = Some (Inr (), s') \<and> ledger owned_font F xs (live_res s') \<and> freed_only s s'"
  using assms
proof (induction es arbitrary: s)
  case Nil
  then show ?case by (simp add: jret_def)
next
  case (Cons e es)
  have "ledger owned_font F ((case fe_font e of None \<Rightarrow> [] | Some h \<Rightarrow> [Instance h]) @ (Block (fe_block e) # concat (map owned_entry es) @ xs)) (live_res s)"
    using Cons.prems by (simp add: owned_entry_def [of e])
  from free_entry_font_ok [OF this] obtain s1 where
    1: "(case fe_font e of None \<Rightarrow> jret () | Some h \<Rightarrow> free_instance h) s = Some (Inr (), s1)" "freed_only s s1"
       "ledger owned_font F (Block (fe_block e) # concat (map owned_entry es) @ xs) (live_res s1)" by blast
  from free_res_ok [OF this(3)] obtain s2 where
    2: "free_res (Block (fe_block e)) s1 = Some (Inr (), s2)" "freed_only s1 s2"
       "ledger owned_font F (concat (map owned_entry es) @ xs) (live_res s2)" by blast
  from Cons.IH [OF this(3)] obtain s3 where
    3: "free_entries es s2 = Some (Inr (), s3)" "freed_only s2 s3" "ledger owned_font F xs (live_res s3)" by blast
  have "free_entries (e # es) s = Some (Inr (), s3)" using 1(1) 2(1) 3(1) by (simp add: jbind_def js_dealloc_def)
  then show ?case using 1(2) 2(2) 3 freed_only_trans by blast
qed

lemma free_name_ok:
  assumes "ledger owned_font F (owned_name d @ xs) (live_res s)"
  shows "\<exists>s'. (case fd_filename d of None \<Rightarrow> jret () | Some (b, _) \<Rightarrow> js_dealloc b) s = Some (Inr (), s') \<and>
    ledger owned_font F xs (live_res s') \<and> freed_only s s'"
proof (cases "fd_filename d")
  case None
  with assms show ?thesis by (simp add: jret_def owned_name_def)
next
  case (Some p)
  obtain b t where "p = (b, t)" by fastforce
  with Some assms free_res_ok [of F "Block b" xs s] show ?thesis by (simp add: owned_name_def js_dealloc_def)
qed

definition freed_data :: "FontData \<Rightarrow> FontData" where
  "freed_data d = d\<lparr>fd_sizes := [], fd_filename := None\<rparr>"

lemma free_cache_ok:
  assumes "ledger owned_font F (owned_font d @ xs) (live_res s)"
  shows "\<exists>s'. vitajs_free_font_cache d s = Some (Inr (freed_data d), s') \<and>
    ledger owned_font F (Block (fd_block d) # xs) (live_res s') \<and> freed_only s s'"
proof -
  have "ledger owned_font F (concat (map owned_entry (fd_sizes d)) @ (owned_name d @ Block (fd_block d) # xs)) (live_res s)"
    using assms by (simp add: owned_font_def)
  from free_entries_ok [OF this] obtain s1 where
    1: "free_entries (fd_sizes d) s = Some (Inr (), s1)" "freed_only s s1" "ledger owned_font F (owned_name d @ Block (fd_block d) # xs) (live_res s1)" by blast
  from free_name_ok [OF this(3)] obtain s2 where
    2: "(case fd_filename d of None \<Rightarrow> jret () | Some (b, _) \<Rightarrow> js_dealloc b) s1 = Some (Inr (), s2)"
       "ledger owned_font F (Block (fd_block d) # xs) (live_res s2)" "freed_only s1 s2" by blast
  have "vitajs_free_font_cache d s = Some (Inr (freed_data d), s2)"
    using 1(1) 2(1) by (simp add: vitajs_free_font_cache_def jbind_def jret_def freed_data_def)
  then show ?thesis using 1(2) 2 freed_only_trans by blast
qed

lemma sizes_ok_freed: "sizes_ok (freed_data d)"
  by (simp add: sizes_ok_def freed_data_def)

text \<open>Replacing an object by one with fewer cached sizes, or removing it, keeps the frame.\<close>

lemma frame_shrink:
  assumes "font_frame s" and "\<And>d'. o' = Some d' \<Longrightarrow> sizes_ok d' \<and> fonts s k \<noteq> None \<and> set (fd_sizes d') \<subseteq> set (fd_sizes (the (fonts s k)))"
  shows "font_frame (s\<lparr>fonts := (fonts s)(k := o')\<rparr>)"
proof -
  have "fe_size e = p" if t: "(h, p) \<in> text_uses (trace s)" "o' = Some d" "e \<in> set (fd_sizes d)" "fe_font e = Some h" for h p d e
  proof -
    obtain d0 where d0: "fonts s k = Some d0" "e \<in> set (fd_sizes d0)" using assms(2) [OF t(2)] t(3) by auto
    then show ?thesis using assms(1) t(1,4) unfolding font_frame_def one_size_def by blast
  qed
  then have "one_size (s\<lparr>fonts := (fonts s)(k := o')\<rparr>)"
    using assms(1) unfolding font_frame_def one_size_def by (auto split: if_splits)
  then show ?thesis using assms unfolding font_frame_def by (auto split: if_splits)
qed

lemma free_object_ok:
  assumes "font_good xs n s"
  shows "\<exists>s'. free_font_object k s = Some (Inr (), s') \<and> font_good xs n s'"
proof (cases "fonts s k")
  case None
  then show ?thesis using assms by (simp add: free_font_object_def jm_defs)
next
  case (Some d)
  show ?thesis
  proof (cases "fd_filename d = None")
    case True
    with Some assms show ?thesis by (simp add: free_font_object_def jm_defs)
  next
    case False
    have l: "ledger owned_font ((fonts s)(k := None)) (owned_font d @ xs) (live_res s)"
      using assms Some by (intro ledger_detach) (simp_all add: font_good_def)
    from free_cache_ok [OF this] obtain s1 where
      1: "vitajs_free_font_cache d s = Some (Inr (freed_data d), s1)" "freed_only s s1"
         "ledger owned_font ((fonts s)(k := None)) ([Block (fd_block d)] @ xs) (live_res s1)" by auto
    let ?s = "s1\<lparr>fonts := (fonts s1)(k \<mapsto> freed_data d)\<rparr>"
    have "ledger owned_font (((fonts s)(k := None))(k \<mapsto> freed_data d)) xs (live_res s1)"
      by (rule ledger_attach [OF 1(3)]) (simp_all add: owned_font_def owned_name_def freed_data_def)
    moreover have "font_frame ?s"
      using freed_frame [OF 1(2)] assms Some 1(2) sizes_ok_freed by (intro frame_shrink) (auto simp: font_good_def freed_only_def freed_data_def)
    ultimately have "font_good xs n ?s" using assms 1(2) by (simp add: font_good_def freed_only_def)
    moreover have "free_font_object k s = Some (Inr (), ?s)"
      using Some False 1(1) by (auto simp: free_font_object_def jbind_def jget_def jmodify_def)
    ultimately show ?thesis by blast
  qed
qed

lemma finalizer_ok:
  assumes "font_good xs n s"
  shows "\<exists>s'. vitajs_font_finalizer k s = Some (Inr (), s') \<and> font_good xs n s' \<and> fonts s' k = None"
proof (cases "fonts s k")
  case None
  then show ?thesis using assms by (simp add: vitajs_font_finalizer_def jm_defs)
next
  case (Some d)
  have l: "ledger owned_font ((fonts s)(k := None)) (owned_font d @ xs) (live_res s)"
    using assms Some by (intro ledger_detach) (simp_all add: font_good_def)
  from free_cache_ok [OF this] obtain s1 where
    1: "vitajs_free_font_cache d s = Some (Inr (freed_data d), s1)" "freed_only s s1"
       "ledger owned_font ((fonts s)(k := None)) (Block (fd_block d) # xs) (live_res s1)" by auto
  from free_res_ok [OF this(3)] obtain s2 where
    2: "free_res (Block (fd_block d)) s1 = Some (Inr (), s2)" "freed_only s1 s2" "ledger owned_font ((fonts s)(k := None)) xs (live_res s2)" by blast
  have f: "freed_only s s2" using 1(2) 2(2) freed_only_trans by blast
  let ?s = "s2\<lparr>fonts := (fonts s2)(k := None)\<rparr>"
  have "font_frame ?s" using freed_frame [OF f] assms by (intro frame_shrink) (auto simp: font_good_def)
  then have "font_good xs n ?s" using 2(3) f assms by (simp add: font_good_def freed_only_def)
  moreover have "vitajs_font_finalizer k s = Some (Inr (), ?s)"
    using Some 1(1) 2(1) by (simp add: vitajs_font_finalizer_def jbind_def jget_def jmodify_def js_dealloc_def freed_data_def)
  ultimately show ?thesis by auto
qed

subsection \<open>New resources\<close>

lemma font_good_res: "font_good xs n s \<Longrightarrow> res_id r = next_res s \<Longrightarrow> \<not> live_res s r"
  by (auto simp: font_good_def font_frame_def)

lemma new_res_ok:
  assumes "font_good xs n s" and "\<And>i. res_id (mk i) = i" and "text_use c = []"
  shows "\<exists>r s'. new_res env mk c s = Some (Inr r, s') \<and> fonts s' = fonts s \<and> trace s' = c # trace s \<and>
    (case r of None \<Rightarrow> font_good xs n s' | Some h \<Rightarrow> font_good (mk h # xs) n s' \<and> h = next_res s \<and> next_res s' = Suc h)"
proof (cases "ask (f_ok env) s c")
  case False
  have "font_good xs n (did c s)" using assms(1,3) by (simp add: font_good_def font_frame_def one_size_def did_def)
  with False show ?thesis by (simp add: new_res_def did_def)
next
  case True
  let ?s = "(did c s)\<lparr>live_res := (live_res s)(mk (next_res s) := True), next_res := next_res s + 1\<rparr>"
  have "ledger owned_font (fonts s) (mk (next_res s) # xs) ((live_res s)(mk (next_res s) := True))"
    using assms font_good_res [OF assms(1), of "mk (next_res s)"] by (intro ledger_new) (simp_all add: font_good_def)
  moreover have "font_frame ?s"
    using assms unfolding font_good_def font_frame_def one_size_def by (auto simp: did_def less_Suc_eq)
  ultimately have "font_good (mk (next_res s) # xs) n ?s" using assms(1) by (simp add: font_good_def did_def)
  with True show ?thesis by (auto simp: new_res_def did_def)
qed

lemma font_good_free:
  assumes "font_good (r # xs) n s"
  shows "\<exists>s'. free_res r s = Some (Inr (), s') \<and> font_good xs n s' \<and> fonts s' = fonts s"
proof -
  have "ledger owned_font (fonts s) (r # xs) (live_res s)" using assms by (simp add: font_good_def)
  from free_res_ok [OF this] obtain s' where s': "free_res r s = Some (Inr (), s')" "ledger owned_font (fonts s) xs (live_res s')" "freed_only s s'"
    by blast
  then have "font_good xs n s'" using freed_frame [OF s'(3)] assms by (simp add: font_good_def freed_only_def)
  with s' show ?thesis by (simp add: freed_only_def)
qed

lemma font_good_free_instance:
  assumes "font_good (Instance h # xs) n s"
  shows "\<exists>s'. free_instance h s = Some (Inr (), s') \<and> font_good xs n s' \<and> fonts s' = fonts s"
proof -
  have "ledger owned_font (fonts s) (Instance h # xs) (live_res s)" using assms by (simp add: font_good_def)
  from free_instance_ok [OF this] obtain s' where s': "free_instance h s = Some (Inr (), s')" "ledger owned_font (fonts s) xs (live_res s')" "freed_only s s'"
    by blast
  then have "font_good xs n s'" using freed_frame [OF s'(3)] assms by (simp add: font_good_def freed_only_def)
  with s' show ?thesis by (simp add: freed_only_def)
qed

subsection \<open>A font of one size\<close>

definition sized :: "nat \<Rightarrow> nat \<Rightarrow> nat \<Rightarrow> font_state \<Rightarrow> bool" where
  "sized k px h s \<longleftrightarrow> (\<exists>d e. fonts s k = Some d \<and> e \<in> set (fd_sizes d) \<and> fe_font e = Some h \<and> fe_size e = px)"

lemma entry_owned: "e \<in> set (fd_sizes d) \<Longrightarrow> fe_font e = Some h \<Longrightarrow> Instance h \<in> set (owned_font d)"
  by (force simp: owned_font_def owned_entry_def)

lemma entry_unique:
  assumes "distinct (owned_font d)" and "e \<in> set (fd_sizes d)" and "e' \<in> set (fd_sizes d)" and "fe_font e = Some h" and "fe_font e' = Some h"
    and "sizes_ok d"
  shows "fe_size e = fe_size e'"
  using assms(1-3)
proof -
  have d: "distinct (concat (map owned_entry (fd_sizes d)))" using assms(1) by (simp add: owned_font_def)
  have "fe_size e = fe_size e'" if "fd_sizes d = as @ e # bs" "e' \<in> set bs \<or> e' \<in> set as" for as bs
    using d that assms(4,5) by (auto simp: owned_entry_def split: option.splits)
  moreover obtain as bs where "fd_sizes d = as @ e # bs" using assms(2) by (meson split_list)
  ultimately show ?thesis using assms(3) by auto
qed

text \<open>Adding an entry for a size that was not there.\<close>

lemma add_size_good:
  assumes "font_good [Instance h, Block b] n s" and "fonts s k = Some d" and "px \<noteq> 0" and "px \<notin> fe_size ` set (fd_sizes d)"
    and "fd_filename d \<noteq> None" and "\<forall>p. (h, p) \<notin> text_uses (trace s)"
  shows "font_good [] n (add_size k \<lparr>fe_size = px, fe_font = Some h, fe_block = b\<rparr> s)"
proof -
  let ?e = "\<lparr>fe_size = px, fe_font = Some h, fe_block = b\<rparr>"
  let ?d = "d\<lparr>fd_sizes := ?e # fd_sizes d\<rparr>"
  have l: "ledger owned_font (fonts s) [Instance h, Block b] (live_res s)" and f: "font_frame s" and c: "cstrings s = n"
    using assms(1) by (simp_all add: font_good_def)
  have own: "owned_font ?d = Instance h # Block b # owned_font d" by (simp add: owned_font_def owned_entry_def owned_name_def)
  have "ledger owned_font ((fonts s)(k := None)) (owned_font d @ [Instance h, Block b]) (live_res s)"
    by (rule ledger_detach [OF l assms(2)])
  then have l1: "ledger owned_font ((fonts s)(k := None)) ((owned_font d @ [Instance h, Block b]) @ []) (live_res s)" by simp
  have "ledger owned_font (((fonts s)(k := None))(k \<mapsto> ?d)) [] (live_res s)"
  proof (rule ledger_attach [OF l1])
    show "distinct (owned_font ?d)" using ledgerD(1) [OF l1] own by auto
    show "set (owned_font ?d) = set (owned_font d @ [Instance h, Block b])" using own by auto
  qed simp
  moreover have "sizes_ok ?d" using f assms(2-5) by (auto simp: font_frame_def sizes_ok_def entry_ok_def)
  moreover have "one_size (s\<lparr>fonts := (fonts s)(k \<mapsto> ?d)\<rparr>)"
    using f assms(2,6) unfolding font_frame_def one_size_def by (auto split: if_splits)
  ultimately show ?thesis using f c assms(2) by (auto simp: font_good_def font_frame_def add_size_def)
qed

lemma find_size:
  assumes "find (\<lambda>e. fe_size e = px) es = r"
  shows "case r of None \<Rightarrow> px \<notin> fe_size ` set es | Some e \<Rightarrow> e \<in> set es \<and> fe_size e = px"
  using assms by (cases r) (auto simp: find_None_iff find_Some_iff)

lemma fresh_unused: "font_good xs n s \<Longrightarrow> next_res s \<le> h \<Longrightarrow> (h, p) \<notin> text_uses (trace s)"
  unfolding font_good_def font_frame_def one_size_def by (meson not_le)

lemma get_sized_font_ok:
  assumes "font_good [] n s" and "fonts s k = Some d" and "fd_filename d \<noteq> None"
  shows "\<exists>r s'. vitajs_get_sized_font env k px s = Some (r, s') \<and> font_good [] n s' \<and> (\<forall>h. r = Inr h \<longrightarrow> sized k px h s')"
proof (cases "px = 0")
  case True
  with assms(1) show ?thesis by (simp add: vitajs_get_sized_font_def jthrow_def)
next
  case px: False
  show ?thesis
  proof (cases "find (\<lambda>e. fe_size e = px) (fd_sizes d)")
    case (Some e)
    from find_size [OF this] have e: "e \<in> set (fd_sizes d)" "fe_size e = px" by simp_all
    have "sizes_ok d" using assms(1,2) by (simp add: font_good_def font_frame_def)
    then obtain h where "fe_font e = Some h" using e(1) by (auto simp: sizes_ok_def entry_ok_def)
    then show ?thesis using Some e assms px
      by (auto simp: vitajs_get_sized_font_def jbind_def jget_def jret_def sized_def)
  next
    case None
    from find_size [OF this] have new: "px \<notin> fe_size ` set (fd_sizes d)" by simp
    obtain b0 path where path: "fd_filename d = Some (b0, path)" using assms(3) by fastforce
    obtain rb s1 where b: "js_alloc env s = Some (Inr rb, s1)" "fonts s1 = fonts s" "trace s1 = FontMalloc # trace s"
        "case rb of None \<Rightarrow> font_good [] n s1 | Some h \<Rightarrow> font_good (Block h # []) n s1 \<and> h = next_res s \<and> next_res s1 = Suc h"
      using new_res_ok [OF assms(1), of Block FontMalloc env] by (auto simp: js_alloc_def)
    show ?thesis
    proof (cases rb)
      case rb: None
      then show ?thesis using b px None assms(2)
        by (auto simp: vitajs_get_sized_font_def jbind_def jget_def jthrow_def)
    next
      case rb: (Some bl)
      then have g1: "font_good [Block bl] n s1" using b(4) by auto
      obtain rf s2 where f: "load_instance env path s1 = Some (Inr rf, s2)" "fonts s2 = fonts s" "trace s2 = LoadFontFile path # trace s1"
          "case rf of None \<Rightarrow> font_good [Block bl] n s2 | Some h \<Rightarrow> font_good [Instance h, Block bl] n s2 \<and> h = next_res s1 \<and> next_res s2 = Suc h"
        using new_res_ok [OF g1, of Instance "LoadFontFile path" env] b(2) by (auto simp: load_instance_def)
      show ?thesis
      proof (cases rf)
        case rf: None
        with f have g2: "font_good [Block bl] n s2" by simp
        obtain s3 where "free_res (Block bl) s2 = Some (Inr (), s3)" "font_good [] n s3" using font_good_free [OF g2] by blast
        then show ?thesis using b f rb rf px None path assms(2)
          by (auto simp: vitajs_get_sized_font_def jbind_def jget_def jthrow_def js_dealloc_def)
      next
        case rf: (Some h)
        with f(4) have g2: "font_good [Instance h, Block bl] n s2" and h: "h = next_res s1" by auto
        have unused: "\<forall>p. (h, p) \<notin> text_uses (trace s2)" using fresh_unused [OF g1, of h] h f(3) by simp
        let ?s = "add_size k \<lparr>fe_size = px, fe_font = Some h, fe_block = bl\<rparr> s2"
        have "font_good [] n ?s" using add_size_good [OF g2 _ px new assms(3) unused] f(2) assms(2) by simp
        moreover have "sized k px h ?s" using f(2) assms(2) by (auto simp: sized_def add_size_def)
        moreover have "vitajs_get_sized_font env k px s = Some (Inr h, ?s)" using b f rb rf px None path assms(2)
          by (simp add: vitajs_get_sized_font_def jbind_def jget_def jret_def jmodify_def)
        ultimately show ?thesis by auto
      qed
    qed
  qed
qed

text \<open>Using it keeps every instance at one size.\<close>

lemma use_instance_ok:
  assumes "font_good [] n s" and "sized k px h s" and "text_use c = [(h, px)]"
  shows "use_instance h c s = Some (Inr (), did c s)" and "font_good [] n (did c s)"
proof -
  obtain d e where e: "fonts s k = Some d" "e \<in> set (fd_sizes d)" "fe_font e = Some h" "fe_size e = px" using assms(2) by (auto simp: sized_def)
  have l: "ledger owned_font (fonts s) [] (live_res s)" and f: "font_frame s" using assms(1) by (simp_all add: font_good_def)
  have own: "Instance h \<in> set (owned_font d)" using entry_owned e by blast
  then have live: "live_res s (Instance h)" using ledgerD(5) [OF l] e(1) by auto
  then show "use_instance h c s = Some (Inr (), did c s)" by (simp add: use_instance_def)
  have only: "fe_size e' = px" if "fonts s k' = Some d'" "e' \<in> set (fd_sizes d')" "fe_font e' = Some h" for k' d' e'
  proof -
    have "k' = k" using ledgerD(4) [OF l that(1) e(1) entry_owned [OF that(2,3)] own] .
    then have "d' = d" using that(1) e(1) by simp
    then show ?thesis using entry_unique [of d e' e h] ledgerD(2) [OF l e(1)] f e that by (auto simp: font_frame_def)
  qed
  have "h < next_res s" using live f by (fastforce simp: font_frame_def)
  moreover have "q = px" if "(h, q) \<in> text_uses (trace s)" for q
    using f e that unfolding font_frame_def one_size_def by blast
  ultimately have "one_size (did c s)"
    using f only assms(3) unfolding font_frame_def one_size_def by (auto simp: did_def)
  then show "font_good [] n (did c s)" using assms(1) by (simp add: font_good_def font_frame_def did_def)
qed

subsection \<open>Triples for the steps\<close>

text \<open>Scripts whose conversions do not free fonts.\<close>

definition quiet_scripts :: "font_env \<Rightarrow> bool" where
  "quiet_scripts env \<longleftrightarrow> (\<forall>v. conv_frees env v = [])"

definition usable :: "nat \<Rightarrow> font_state \<Rightarrow> bool" where
  "usable k s \<longleftrightarrow> (\<exists>d. fonts s k = Some d \<and> fd_filename d \<noteq> None)"

lemma spec_data: "jspec (font_good [] n) (vitajs_get_font_data v) (jpost (font_good [] n) (\<lambda>k s. font_good [] n s \<and> usable k s))"
proof (rule jspecI)
  fix s
  assume "font_good [] n s"
  then show "\<exists>r s'. vitajs_get_font_data v s = Some (r, s') \<and> jpost (font_good [] n) (\<lambda>k s. font_good [] n s \<and> usable k s) r s'"
    by (cases v) (auto simp: vitajs_get_font_data_def jm_defs usable_def split: option.splits)
qed

lemma spec_conv:
  assumes "quiet_scripts env" and "\<And>s. P s \<Longrightarrow> E s"
  shows "jspec P (convert env f v) (jpost E (\<lambda>_. P))"
  using assms by (simp add: convert_def quiet_scripts_def jspec_lift)

lemma spec_sized:
  "jspec (\<lambda>s. font_good [] n s \<and> usable k s) (vitajs_get_sized_font env k px) (jpost (font_good [] n) (\<lambda>h s. font_good [] n s \<and> sized k px h s))"
proof (rule jspecI)
  fix s
  assume a: "font_good [] n s \<and> usable k s"
  then obtain d where "fonts s k = Some d" "fd_filename d \<noteq> None" by (auto simp: usable_def)
  from get_sized_font_ok [OF conjunct1 [OF a] this, of env px] obtain r s' where
    "vitajs_get_sized_font env k px s = Some (r, s')" "font_good [] n s'" "\<forall>h. r = Inr h \<longrightarrow> sized k px h s'" by blast
  then show "\<exists>r s'. vitajs_get_sized_font env k px s = Some (r, s') \<and> jpost (font_good [] n) (\<lambda>h s. font_good [] n s \<and> sized k px h s) r s'"
    by (cases r) auto
qed

lemma spec_cstring:
  assumes "quiet_scripts env" and "\<And>s. P s \<Longrightarrow> E s" and "\<And>s. P s \<Longrightarrow> Q (s\<lparr>cstrings := cstrings s + 1\<rparr>)"
  shows "jspec P (convert_cstring js env v) (jpost E (\<lambda>_. Q))"
  unfolding convert_cstring_def using assms
  by (intro jspec_bind [OF spec_conv] jspec_bind [OF jspec_modify] jspec_ret) auto

lemma font_good_cstrings: "font_good xs n s \<Longrightarrow> font_good xs (Suc n) (s\<lparr>cstrings := Suc (cstrings s)\<rparr>)"
  by (simp add: font_good_def font_frame_def one_size_def)

lemma spec_free_cstring: "jspec (font_good xs (Suc n)) free_cstring (jpost E (\<lambda>_. font_good xs n))"
  by (rule jspecI) (auto simp: free_cstring_def font_good_def font_frame_def one_size_def)

lemma spec_use:
  assumes "text_use c = [(h, px)]"
  shows "jspec (\<lambda>s. font_good [] n s \<and> sized k px h s) (use_instance h c) (jpost E (\<lambda>_. font_good [] n))"
  by (rule jspecI) (use assms in \<open>auto simp: use_instance_ok\<close>)

lemma sized_cstrings [simp]: "sized k px h (s\<lparr>cstrings := c\<rparr>) = sized k px h s"
  by (simp add: sized_def)

lemma spec_did: "text_use c = [] \<Longrightarrow> jspec (font_good xs n) (jmodify (did c)) (jpost E (\<lambda>_. font_good xs n))"
  by (rule jspec_modify) (auto simp: font_good_def font_frame_def one_size_def did_def)

lemma spec_new_res:
  assumes "\<And>i. res_id (mk i) = i" and "text_use c = []"
  shows "jspec (font_good xs n) (new_res env mk c) (jpost E (\<lambda>r s. case r of None \<Rightarrow> font_good xs n s | Some h \<Rightarrow> font_good (mk h # xs) n s))"
proof (rule jspecI)
  fix s
  assume "font_good xs n s"
  from new_res_ok [OF this assms, of env]
  show "\<exists>r s'. new_res env mk c s = Some (r, s') \<and> jpost E (\<lambda>r s. case r of None \<Rightarrow> font_good xs n s | Some h \<Rightarrow> font_good (mk h # xs) n s) r s'"
    by (auto split: option.splits)
qed

lemma spec_dealloc: "jspec (font_good (Block b # xs) n) (js_dealloc b) (jpost E (\<lambda>_. font_good xs n))"
  unfolding js_dealloc_def by (rule jspecI) (use font_good_free in \<open>fastforce\<close>)

lemma spec_free_instance: "jspec (font_good (Instance h # xs) n) (free_instance h) (jpost E (\<lambda>_. font_good xs n))"
  by (rule jspecI) (use font_good_free_instance in \<open>fastforce\<close>)

subsection \<open>Every operation\<close>

text \<open>The common end of the text functions, from the font data to the freed string.\<close>

lemma spec_text:
  assumes "quiet_scripts env" and "\<And>h t. text_use (call h t) = [(h, px)]"
  shows "jspec (\<lambda>s. font_good [] 0 s \<and> usable k s)
    (jbind (vitajs_get_sized_font env k px) (\<lambda>font. jbind (convert_cstring js env v) (\<lambda>t.
       jbind (use_instance font (call font t)) (\<lambda>_. jbind free_cstring (\<lambda>_. jret JUndefined)))))
    (jpost (font_good [] 0) (\<lambda>_. font_good [] 0))"
proof (rule jspec_bind [OF spec_sized])
  fix h
  show "jspec (\<lambda>s. font_good [] 0 s \<and> sized k px h s)
      (jbind (convert_cstring js env v) (\<lambda>t. jbind (use_instance h (call h t)) (\<lambda>_. jbind free_cstring (\<lambda>_. jret JUndefined))))
      (jpost (font_good [] 0) (\<lambda>_. font_good [] 0))"
    using assms font_good_cstrings
    by (intro jspec_bind [OF spec_cstring [where Q = "\<lambda>s. font_good [] (Suc 0) s \<and> sized k px h s"]]
        jspec_bind [OF spec_use] jspec_bind [OF spec_free_cstring] jspec_ret) auto
qed

lemma draw_text_keeps: "quiet_scripts env \<Longrightarrow> jkeeps (font_good [] 0) (vitajs_font_draw_text js env argv)"
  unfolding vitajs_font_draw_text_def jkeeps_post
  by (auto intro!: jspec_throw jspec_bind [OF spec_data] jspec_bind [OF spec_conv] spec_text)

lemma draw_text_ls_keeps: "quiet_scripts env \<Longrightarrow> jkeeps (font_good [] 0) (vitajs_font_draw_text_ls js env argv)"
  unfolding vitajs_font_draw_text_ls_def jkeeps_post
  by (auto intro!: jspec_throw jspec_bind [OF spec_data] jspec_bind [OF spec_conv] spec_text)

lemma measure_keeps:
  assumes "quiet_scripts env" and "\<And>h px t. text_use (call h px t) = [(h, px)]"
  shows "jkeeps (font_good [] 0) (measure_text js env call argv)"
  unfolding measure_text_def jkeeps_post
proof (intro jspec_bind [OF spec_data] jspec_bind [OF spec_conv] jspec_bind [OF spec_sized], goal_cases)
  case (3 k px h)
  show ?case using assms font_good_cstrings
    by (intro jspec_bind [OF spec_cstring [where Q = "\<lambda>s. font_good [] (Suc 0) s \<and> sized k px h s"]]
        jspec_bind [OF jspec_get [where Q = "\<lambda>_ s. font_good [] (Suc 0) s \<and> sized k px h s"]]
        jspec_bind [OF spec_use] jspec_bind [OF spec_free_cstring] jspec_ret) auto
qed (use assms in auto)

lemma set_property_keeps: "jkeeps (font_good [] 0) (font_set_property env name)"
  unfolding font_set_property_def
  by (intro jkeeps_bind jkeeps_get) (auto simp: jkeeps_post intro!: spec_did jspec_ret jspec_throw)

lemma dimensions_keeps: "quiet_scripts env \<Longrightarrow> jkeeps (font_good [] 0) (vitajs_font_text_dimensions js env argv)"
  unfolding vitajs_font_text_dimensions_def
  by (auto intro!: jkeeps_bind measure_keeps set_property_keeps split: prod.split) (auto simp: jkeeps_post intro!: spec_did)

lemma width_keeps: "quiet_scripts env \<Longrightarrow> jkeeps (font_good [] 0) (vitajs_font_text_width js env argv)"
  unfolding vitajs_font_text_width_def by (auto intro!: jkeeps_bind measure_keeps split: prod.split)

lemma height_keeps: "quiet_scripts env \<Longrightarrow> jkeeps (font_good [] 0) (vitajs_font_text_height js env argv)"
  unfolding vitajs_font_text_height_def by (auto intro!: jkeeps_bind measure_keeps split: prod.split)

lemma free_font_keeps: "jkeeps (font_good [] 0) (vitajs_free_font argv)"
proof -
  have "jkeeps (font_good [] 0) (free_font_object k)" for k
    unfolding jkeeps_def by (rule jspecI) (use free_object_ok in blast)
  then show ?thesis unfolding vitajs_free_font_def by (auto intro!: jkeeps_bind split: option.split)
qed

lemma finalize_keeps: "jkeeps (font_good [] 0) (vitajs_font_finalizer k)"
  unfolding jkeeps_def by (rule jspecI) (use finalizer_ok in blast)

lemma new_object_spec:
  "jspec (font_good [] (Suc 0)) (new_font_object env filename) (jpost (font_good [] 0) (\<lambda>_. font_good [] 0))"
proof -
  let ?obj = "\<lambda>b d. \<lparr>fd_filename = Some (b, filename), fd_sizes = [], fd_block = d\<rparr>"
  have attach: "font_good [] 0 (s\<lparr>fonts := (fonts s)(k \<mapsto> ?obj b d), next_object := k + 1\<rparr>)"
    if g: "font_good [Block b, Block d] 0 s" and k: "k = next_object s" for b d k s
  proof -
    have l: "ledger owned_font (fonts s) ([Block b, Block d] @ []) (live_res s)" and f: "font_frame s" and c: "cstrings s = 0"
      using g by (simp_all add: font_good_def)
    have "ledger owned_font ((fonts s)(k \<mapsto> ?obj b d)) [] (live_res s)"
    proof (rule ledger_attach [OF l])
      show "fonts s k = None" using f k unfolding font_frame_def by (metis less_irrefl)
      show "distinct (owned_font (?obj b d))" using ledgerD(1) [OF l] by (simp add: owned_font_def owned_name_def)
      show "set (owned_font (?obj b d)) = set [Block b, Block d]" by (simp add: owned_font_def owned_name_def)
    qed
    moreover have "one_size (s\<lparr>fonts := (fonts s)(k \<mapsto> ?obj b d), next_object := k + 1\<rparr>)"
      using f unfolding font_frame_def one_size_def by (auto split: if_splits)
    ultimately show ?thesis using f c k by (auto simp: font_good_def font_frame_def sizes_ok_def less_Suc_eq)
  qed
  have done2: "jspec (font_good [Block b, Block d] (Suc 0))
      (jbind free_cstring (\<lambda>_. jbind (jget next_object) (\<lambda>k. jbind (jmodify (\<lambda>s. s\<lparr>fonts := (fonts s)(k \<mapsto> ?obj b d), next_object := k + 1\<rparr>)) (\<lambda>_. jret (JRef k)))))
      (jpost (font_good [] 0) (\<lambda>_. font_good [] 0))" for b d
    using attach by (intro jspec_bind [OF spec_free_cstring]
        jspec_bind [OF jspec_get [where Q = "\<lambda>k s. font_good [Block b, Block d] 0 s \<and> k = next_object s"]]
        jspec_bind [OF jspec_modify [where Q = "\<lambda>_. font_good [] 0"]] jspec_ret) auto
  have data: "jspec (font_good [Block d] (Suc 0)) (jbind (js_alloc env) (\<lambda>name.
           case name of
             None \<Rightarrow> jbind free_cstring (\<lambda>_. jbind (js_dealloc d) (\<lambda>_. jthrow Pending))
           | Some b \<Rightarrow>
             jbind free_cstring (\<lambda>_. jbind (jget next_object) (\<lambda>k. jbind (jmodify (\<lambda>s. s\<lparr>fonts := (fonts s)(k \<mapsto> ?obj b d), next_object := k + 1\<rparr>)) (\<lambda>_. jret (JRef k))))))
      (jpost (font_good [] 0) (\<lambda>_. font_good [] 0))" for d
    unfolding js_alloc_def
  proof (rule jspec_bind [OF spec_new_res], goal_cases)
    case (3 name)
    show ?case
    proof (cases name)
      case None
      then show ?thesis by (auto intro!: jspec_bind [OF spec_free_cstring] jspec_bind [OF spec_dealloc] jspec_throw)
    next
      case (Some b)
      then show ?thesis using done2 [of b d] by simp
    qed
  qed simp_all
  show ?thesis unfolding new_font_object_def js_alloc_def
  proof (rule jspec_bind [OF spec_new_res], goal_cases)
    case (3 r)
    show ?case
    proof (cases r)
      case None
      then show ?thesis by (auto intro!: jspec_bind [OF spec_free_cstring] jspec_throw)
    next
      case (Some d)
      show ?thesis using data [of d, unfolded js_alloc_def] unfolding Some by (simp only: option.case)
    qed
  qed simp_all
qed

lemma load_font_keeps:
  assumes "quiet_scripts env"
  shows "jkeeps (font_good [] 0) (vitajs_load_font_file js env argv)"
proof -
  have "jspec (font_good [] (Suc 0)) (jbind (load_instance env filename) (\<lambda>probe.
          case probe of
            None \<Rightarrow> jbind free_cstring (\<lambda>_. jthrow (InternalError ''Unable to load font file''))
          | Some h \<Rightarrow>
            jbind (free_instance h) (\<lambda>_.
            jbind (jget (\<lambda>s. ask (f_ok env) s FontNewObject)) (\<lambda>ok.
            jbind (jmodify (did FontNewObject)) (\<lambda>_.
              if \<not> ok then jbind free_cstring (\<lambda>_. jthrow Pending)
              else new_font_object env filename)))))
      (jpost (font_good [] 0) (\<lambda>_. font_good [] 0))" for filename
    unfolding load_instance_def
  proof (rule jspec_bind [OF spec_new_res], goal_cases)
    case (3 probe)
    show ?case
    proof (cases probe)
      case None
      then show ?thesis by (auto intro!: jspec_bind [OF spec_free_cstring] jspec_throw)
    next
      case (Some h)
      have "jspec (font_good [] (Suc 0)) (if \<not> ok then jbind free_cstring (\<lambda>_. jthrow Pending) else new_font_object env filename)
          (jpost (font_good [] 0) (\<lambda>_. font_good [] 0))" for ok
        by (auto intro!: jspec_bind [OF spec_free_cstring] jspec_throw new_object_spec)
      with Some show ?thesis
        by (auto intro!: jspec_bind [OF spec_free_instance] jspec_bind [OF jspec_get [where Q = "\<lambda>_. font_good [] (Suc 0)"]] jspec_bind [OF spec_did])
    qed
  qed simp_all
  with assms show ?thesis unfolding vitajs_load_font_file_def jkeeps_post
    by (auto intro!: jspec_throw jspec_bind [OF spec_cstring [where Q = "font_good [] (Suc 0)"]] simp: font_good_cstrings)
qed

lemma font_exec_keeps: "quiet_scripts env \<Longrightarrow> jkeeps (font_good [] 0) (font_exec js env op)"
  by (cases op) (auto intro: load_font_keeps free_font_keeps draw_text_keeps draw_text_ls_keeps dimensions_keeps width_keeps height_keeps
      intro!: jkeeps_bind finalize_keeps)

definition font_step_in :: "js_engine \<Rightarrow> font_env \<Rightarrow> font_state \<Rightarrow> font_state \<Rightarrow> bool" where
  "font_step_in js env s s' \<longleftrightarrow> quiet_scripts env \<and> font_step js env s s'"

interpretation font: module_inv font_start "font_step_in js env" "font_good [] 0" for js env
proof unfold_locales
  show "font_good [] 0 font_start" by (rule font_good_start)
next
  fix s t
  assume "font_step_in js env s t" "font_good [] 0 s"
  then show "font_good [] 0 t" using jkeeps_result [OF font_exec_keeps] by (auto simp: font_step_in_def elim!: font_stepE)
qed

lemma font_reachable: "quiet_scripts env \<Longrightarrow> (font_step js env)\<^sup>*\<^sup>* font_start s \<Longrightarrow> font_good [] 0 s"
proof -
  assume w: "quiet_scripts env" and "(font_step js env)\<^sup>*\<^sup>* font_start s"
  moreover have "font_step js env = font_step_in js env" using w by (intro ext) (simp add: font_step_in_def)
  ultimately show ?thesis using font.inv_reachable [of js env s] by simp
qed

subsection \<open>Properties\<close>

text \<open>A world in which every call succeeds, with a script that frees a font while its text is converted.\<close>

definition demo_font_env :: "(jsval \<Rightarrow> nat list) \<Rightarrow> font_env" where
  "demo_font_env frees = \<lparr>f_ok = (\<lambda>h c. True), f_int = (\<lambda>h c. 7), f_dims = (\<lambda>h c. (7, 9)), conv_frees = frees\<rparr>"

definition demo_font_state :: font_state where
  "demo_font_state = snd (the (font_exec js_prim (demo_font_env (\<lambda>_. [])) (F_load [JString ''a.ttf'']) font_start))"

lemmas demo_font_eval = demo_font_state_def demo_font_env_def vitajs_load_font_file_def convert_cstring_def convert_def js_prim_def
  load_instance_def new_res_def free_instance_def free_res_def new_font_object_def js_alloc_def free_cstring_def jm_defs font_start_def
  ask_def did_def

lemma demo_font_exec:
  "font_exec js_prim (demo_font_env (\<lambda>_. [])) (F_load [JString ''a.ttf'']) font_start = Some (Inr (JRef 0), demo_font_state)"
  by (simp add: demo_font_eval)

lemma demo_font_reachable: "(font_step js_prim (demo_font_env (\<lambda>_. [])))\<^sup>*\<^sup>* font_start demo_font_state"
  using demo_font_exec by (intro r_into_rtranclp) (rule font_step.font_call)

lemma demo_font_quiet: "quiet_scripts (demo_font_env (\<lambda>_. []))"
  by (simp add: quiet_scripts_def demo_font_env_def)



text \<open>
  C30.  One instance, one size: in every reachable state, any two calls that drew or measured text
  with the same instance of libvita2d did so at the same pixel size.
\<close>

theorem font_instance_one_size:
  assumes "quiet_scripts env" and "(font_step js env)\<^sup>*\<^sup>* font_start s"
    and "(h, p) \<in> text_uses (trace s)" and "(h, q) \<in> text_uses (trace s)"
  shows "p = q"
  using font_reachable [OF assms(1,2)] assms(3,4) unfolding font_good_def font_frame_def one_size_def by blast

lemma demo_font_used:
  "\<exists>s'. font_exec js_prim (demo_font_env (\<lambda>_. [])) (F_width [JRef 0, JInt 12, JString ''x'']) demo_font_state = Some (Inr (JInt 7), s') \<and>
     (4, 12) \<in> text_uses (trace s')"
  by (simp add: demo_font_eval vitajs_font_text_width_def measure_text_def vitajs_get_font_data_def vitajs_get_sized_font_def add_size_def
      use_instance_def to_u32_def)

theorem font_instance_one_size_witness:
  "\<exists>s :: font_state. (4, 12) \<in> text_uses (trace s) \<and> (\<forall>q. (4, q) \<in> text_uses (trace s) \<longrightarrow> q = 12)"
proof -
  obtain s where s: "font_exec js_prim (demo_font_env (\<lambda>_. [])) (F_width [JRef 0, JInt 12, JString ''x'']) demo_font_state = Some (Inr (JInt 7), s)"
      "(4, 12) \<in> text_uses (trace s)" using demo_font_used by blast
  have "(font_step js_prim (demo_font_env (\<lambda>_. [])))\<^sup>*\<^sup>* font_start s"
    using demo_font_reachable font_step.font_call [OF s(1)] by (rule rtranclp.rtrancl_into_rtrancl)
  then have "\<forall>q. (4, q) \<in> text_uses (trace s) \<longrightarrow> q = 12"
    using font_instance_one_size [OF demo_font_quiet _ _ s(2)] by blast
  with s(2) show ?thesis by blast
qed


end
