(* ===== verification/Sfo.thy ===== *)
theory Sfo
  imports Js_Api
begin

text \<open>
  The application manifest (src/src/modules/system.c, \<open>parse_manifest\<close>): the file
  \<open>param.sfo\<close> is a header, an index of entries, a table of key strings and a table of data.
  The file is a list of bytes; a read outside it is undefined behaviour, the outcome \<open>None\<close>.
  Offsets are \<open>size_t\<close>, 32 bits wide.
\<close>

subsection \<open>Reading numbers\<close>

fun le_value :: "nat list \<Rightarrow> nat" where
  "le_value [] = 0"
| "le_value (b # bs) = b + 256 * le_value bs"

text \<open>\<open>n\<close> bytes of the buffer at \<open>off\<close>.\<close>

definition bytes_at :: "nat list \<Rightarrow> nat \<Rightarrow> nat \<Rightarrow> nat list option" where
  "bytes_at b off n = (if off + n \<le> length b then Some (take n (drop off b)) else None)"

definition le_at :: "nat list \<Rightarrow> nat \<Rightarrow> nat \<Rightarrow> nat option" where
  "le_at b off n = map_option le_value (bytes_at b off n)"

subsection \<open>The file\<close>

record SfoHeader =
  magic :: nat
  sfo_version :: nat
  key_off :: nat
  data_off :: nat
  sfo_count :: nat

record SfoEntry =
  e_key_off :: nat
  e_fmt :: nat
  e_len :: nat
  e_max_len :: nat
  e_data_off :: nat

definition sizeof_SfoHeader :: nat where "sizeof_SfoHeader = 20"
definition sizeof_SfoEntry :: nat where "sizeof_SfoEntry = 16"

definition read_header :: "nat list \<Rightarrow> SfoHeader option" where
  "read_header b =
     (case (le_at b 0 4, le_at b 4 4, le_at b 8 4, le_at b 12 4, le_at b 16 4) of
        (Some m, Some v, Some k, Some d, Some c) \<Rightarrow>
          Some \<lparr>magic = m, sfo_version = v, key_off = k, data_off = d, sfo_count = c\<rparr>
      | _ \<Rightarrow> None)"

definition read_entry :: "nat list \<Rightarrow> nat \<Rightarrow> SfoEntry option" where
  "read_entry b p =
     (case (le_at b p 2, le_at b (p + 2) 2, le_at b (p + 4) 4, le_at b (p + 8) 4, le_at b (p + 12) 4) of
        (Some k, Some f, Some l, Some m, Some d) \<Rightarrow>
          Some \<lparr>e_key_off = k, e_fmt = f, e_len = l, e_max_len = m, e_data_off = d\<rparr>
      | _ \<Rightarrow> None)"

subsection \<open>Values\<close>

text \<open>\<open>while (len && b[dp + len - 1] == 0) len--;\<close>\<close>

fun strip_zeros :: "nat list \<Rightarrow> nat \<Rightarrow> nat \<Rightarrow> nat option" where
  "strip_zeros b dp 0 = Some 0"
| "strip_zeros b dp (Suc len) =
     (case bytes_at b (dp + len) 1 of
        Some [x] \<Rightarrow> if x = 0 then strip_zeros b dp len else Some (Suc len)
      | _ \<Rightarrow> None)"

definition sfo_value :: "nat list \<Rightarrow> nat \<Rightarrow> nat \<Rightarrow> nat \<Rightarrow> jsval option" where
  "sfo_value b fmt len dp =
     (if fmt = 0x0404 \<and> len \<ge> 4 then map_option (\<lambda>x. JInt (int x)) (le_at b dp 4)
      else if fmt = 0x0204 then
        Option.bind (strip_zeros b dp len) (\<lambda>len. map_option (\<lambda>bs. JString (map char_of bs)) (bytes_at b dp len))
      else map_option JBuffer (bytes_at b dp len))"

text \<open>The key: \<open>memchr\<close> for its terminator, then a C string.\<close>

definition sfo_key :: "nat list \<Rightarrow> nat \<Rightarrow> string option" where
  "sfo_key b kp = (if 0 \<in> set (drop kp b) then Some (map char_of (takeWhile (\<lambda>x. x \<noteq> 0) (drop kp b))) else None)"

text \<open>\<open>JS_SetPropertyStr\<close> on a fresh object: a new property at the end, or a new value.\<close>

fun set_prop :: "string \<Rightarrow> jsval \<Rightarrow> (string \<times> jsval) list \<Rightarrow> (string \<times> jsval) list" where
  "set_prop k v [] = [(k, v)]"
| "set_prop k v (p # ps) = (if fst p = k then (k, v) # ps else p # set_prop k v ps)"

text \<open>One pass of the loop over the entries.\<close>

definition sfo_pass :: "nat list \<Rightarrow> SfoHeader \<Rightarrow> nat \<Rightarrow> (string \<times> jsval) list \<Rightarrow> (string \<times> jsval) list option" where
  "sfo_pass b h n obj =
     (case read_entry b (sizeof_SfoHeader + n * sizeof_SfoEntry) of
        None \<Rightarrow> None
      | Some e \<Rightarrow>
        let kp = size_t (key_off h + e_key_off e); dp = size_t (data_off h + e_data_off e) in
        if kp \<ge> length b \<or> dp \<ge> length b \<or> e_len e > length b - dp then Some obj
        else case sfo_key b kp of
          None \<Rightarrow> Some obj
        | Some key \<Rightarrow> map_option (\<lambda>v. set_prop key v obj) (sfo_value b (e_fmt e) (e_len e) dp))"

fun sfo_loop :: "nat list \<Rightarrow> SfoHeader \<Rightarrow> nat \<Rightarrow> nat \<Rightarrow> (string \<times> jsval) list \<Rightarrow> (string \<times> jsval) list option" where
  "sfo_loop b h n 0 obj = Some obj"
| "sfo_loop b h n (Suc left) obj = Option.bind (sfo_pass b h n obj) (sfo_loop b h (Suc n) left)"

subsection \<open>Reading the file\<close>

text \<open>
  \<open>read_entire_file\<close>: NULL when the file cannot be opened, sought or read, is empty, or there
  is no memory for it; \<open>readable\<close> says that the calls succeed.
\<close>

definition read_entire_file :: "(nat list \<Rightarrow> bool) \<Rightarrow> nat list option \<Rightarrow> nat list option" where
  "read_entire_file readable f =
     (case f of None \<Rightarrow> None | Some b \<Rightarrow> if length b = 0 \<or> \<not> readable b then None else Some b)"

definition SFO_PATH :: string where "SFO_PATH = ''app0:/sce_sys/param.sfo''"

definition parse_manifest :: "(nat list \<Rightarrow> bool) \<Rightarrow> nat list option \<Rightarrow> jsval js_result option" where
  "parse_manifest readable f =
     (case read_entire_file readable f of
        None \<Rightarrow> Some (Inl (InternalError (''Unable to read '' @ SFO_PATH)))
      | Some b \<Rightarrow>
        if length b < sizeof_SfoHeader then Some (Inl (InternalError ''Invalid param.sfo''))
        else case read_header b of
          None \<Rightarrow> None
        | Some h \<Rightarrow>
          if magic h \<noteq> 0x46535000 \<or> sfo_count h > 1024 then Some (Inl (InternalError ''Invalid param.sfo header''))
          else let entries_end = size_t (sizeof_SfoHeader + sfo_count h * sizeof_SfoEntry) in
          if entries_end > length b \<or> key_off h \<ge> length b \<or> data_off h \<ge> length b
          then Some (Inl (InternalError ''Invalid param.sfo offsets''))
          else map_option (\<lambda>ps. Inr (JObject ps)) (sfo_loop b h 0 (sfo_count h) []))"

definition manifest_field :: "(nat list \<Rightarrow> bool) \<Rightarrow> nat list option \<Rightarrow> string \<Rightarrow> jsval js_result option" where
  "manifest_field readable f key =
     map_option (\<lambda>r. case r of Inl e \<Rightarrow> Inl e | Inr o' \<Rightarrow> Inr (prim_get o' key)) (parse_manifest readable f)"

subsection \<open>No read outside the file\<close>

lemma bytes_at_Some: "off + n \<le> length b \<Longrightarrow> bytes_at b off n = Some (take n (drop off b))"
  by (simp add: bytes_at_def)








subsection \<open>A reference encoder\<close>

datatype sfo_item = SfoNumber nat | SfoText "nat list"

fun le_bytes :: "nat \<Rightarrow> nat \<Rightarrow> nat list" where
  "le_bytes 0 n = []"
| "le_bytes (Suc k) n = n mod 256 # le_bytes k (n div 256)"

fun item_data :: "sfo_item \<Rightarrow> nat list" where
  "item_data (SfoNumber n) = le_bytes 4 n"
| "item_data (SfoText t) = t @ [0]"

fun item_fmt :: "sfo_item \<Rightarrow> nat" where
  "item_fmt (SfoNumber n) = 0x0404"
| "item_fmt (SfoText t) = 0x0204"

fun item_js :: "sfo_item \<Rightarrow> jsval" where
  "item_js (SfoNumber n) = JInt (int n)"
| "item_js (SfoText t) = JString (map char_of t)"

text \<open>Numbers of 32 bits; texts that do not end in a zero byte.\<close>

fun item_ok :: "sfo_item \<Rightarrow> bool" where
  "item_ok (SfoNumber n) \<longleftrightarrow> n < 2 ^ 32"
| "item_ok (SfoText t) \<longleftrightarrow> (t \<noteq> [] \<longrightarrow> last t \<noteq> 0)"

type_synonym sfo_items = "(nat list \<times> sfo_item) list"

fun index_entry :: "nat \<Rightarrow> nat \<Rightarrow> sfo_item \<Rightarrow> nat list" where
  "index_entry ko d v = le_bytes 2 ko @ le_bytes 2 (item_fmt v) @ le_bytes 4 (length (item_data v)) @
     le_bytes 4 (length (item_data v)) @ le_bytes 4 d"

fun sfo_index :: "sfo_items \<Rightarrow> nat \<Rightarrow> nat \<Rightarrow> nat list" where
  "sfo_index [] ko d = []"
| "sfo_index ((k, v) # es) ko d = index_entry ko d v @ sfo_index es (ko + length k + 1) (d + length (item_data v))"

definition sfo_keys :: "sfo_items \<Rightarrow> nat list" where
  "sfo_keys es = concat (map (\<lambda>(k, v). k @ [0]) es)"

definition sfo_datas :: "sfo_items \<Rightarrow> nat list" where
  "sfo_datas es = concat (map (\<lambda>(k, v). item_data v) es)"

definition sfo_file :: "sfo_items \<Rightarrow> nat list" where
  "sfo_file es =
     (let n = length es; k = 20 + n * 16 in
      le_bytes 4 0x46535000 @ le_bytes 4 0x101 @ le_bytes 4 k @ le_bytes 4 (k + length (sfo_keys es)) @ le_bytes 4 n @
      sfo_index es 0 0 @ sfo_keys es @ sfo_datas es)"

subsection \<open>Decoding what was encoded\<close>

lemma length_le_bytes [simp]: "length (le_bytes k n) = k"
  by (induction k arbitrary: n) simp_all

lemma le_value_bytes: "n < 256 ^ k \<Longrightarrow> le_value (le_bytes k n) = n"
proof (induction k arbitrary: n)
  case (Suc k)
  then have "n div 256 < 256 ^ k" by (simp add: less_mult_imp_div_less mult.commute)
  with Suc.IH show ?case by simp
qed simp

lemma length_index_entry [simp]: "length (index_entry ko d v) = 16"
  by simp

declare index_entry.simps [simp del]

lemma length_sfo_index [simp]: "length (sfo_index es ko d) = length es * 16"
  by (induction es ko d rule: sfo_index.induct) simp_all

text \<open>A number in the middle of the file.\<close>

lemma le_at_middle:
  assumes "drop off b = le_bytes k n @ r" and "off \<le> length b" and "n < 256 ^ k"
  shows "le_at b off k = Some n"
proof -
  have "length (drop off b) \<ge> k" using assms(1) by simp
  then have "off + k \<le> length b" using assms(2) by simp
  then show ?thesis using assms by (simp add: le_at_def bytes_at_def le_value_bytes)
qed

lemma drop_more: "drop off b = xs @ ys \<Longrightarrow> off' = off + length xs \<Longrightarrow> drop off' b = ys"
  by (metis add.commute append_eq_conv_conj drop_drop)

lemma read_entry_encoded:
  assumes "drop p b = index_entry ko d v @ r" and "p + 16 \<le> length b" and "ko < 2 ^ 16" and "d < 2 ^ 32" and "length (item_data v) < 2 ^ 32"
  shows "read_entry b p = Some \<lparr>e_key_off = ko, e_fmt = item_fmt v, e_len = length (item_data v), e_max_len = length (item_data v), e_data_off = d\<rparr>"
proof -
  let ?l = "le_bytes 4 (length (item_data v))"
  have 0: "drop p b = le_bytes 2 ko @ le_bytes 2 (item_fmt v) @ ?l @ ?l @ le_bytes 4 d @ r" using assms(1) by (simp add: index_entry.simps)
  have 1: "drop (p + 2) b = le_bytes 2 (item_fmt v) @ ?l @ ?l @ le_bytes 4 d @ r" by (rule drop_more [OF 0]) simp
  have 2: "drop (p + 4) b = ?l @ ?l @ le_bytes 4 d @ r" by (rule drop_more [OF 1]) simp
  have 3: "drop (p + 8) b = ?l @ le_bytes 4 d @ r" by (rule drop_more [OF 2]) simp
  have 4: "drop (p + 12) b = le_bytes 4 d @ r" by (rule drop_more [OF 3]) simp
  have "item_fmt v < 256 ^ 2" by (cases v) simp_all
  then show ?thesis using assms(2-) le_at_middle [OF 0] le_at_middle [OF 1] le_at_middle [OF 2] le_at_middle [OF 3] le_at_middle [OF 4]
    by (simp add: read_entry_def)
qed

text \<open>Texts lose their terminator and nothing else.\<close>

lemma strip_zeros_text:
  assumes "drop dp b = t @ 0 # r" and "dp \<le> length b" and "t \<noteq> [] \<longrightarrow> last t \<noteq> 0"
  shows "strip_zeros b dp (Suc (length t)) = Some (length t)"
proof -
  have one: "bytes_at b (dp + n) 1 = Some [(t @ 0 # r) ! n]" if "n < length (t @ 0 # r)" for n
  proof -
    have len: "length b = dp + length (t @ 0 # r)" using arg_cong [OF assms(1), of length] assms(2) by simp
    have "b ! (dp + n) = (t @ 0 # r) ! n" using assms(1,2) nth_drop [of dp b n] by simp
    with len that show ?thesis by (simp add: bytes_at_def take_Suc hd_drop_conv_nth)
  qed
  have "strip_zeros b dp (length t) = Some (length t)"
  proof (cases "length t")
    case (Suc n)
    then have "(t @ 0 # r) ! n = last t" by (cases t rule: rev_cases) (simp_all add: nth_append)
    with Suc one [of n] assms(3) show ?thesis by auto
  qed simp
  then show ?thesis using one [of "length t"] by simp
qed

lemma sfo_value_encoded:
  assumes "drop dp b = item_data v @ r" and "dp \<le> length b" and "item_ok v"
  shows "sfo_value b (item_fmt v) (length (item_data v)) dp = Some (item_js v)"
proof (cases v)
  case (SfoNumber n)
  have "le_at b dp 4 = Some n" using assms SfoNumber by (intro le_at_middle) auto
  with SfoNumber show ?thesis by (simp add: sfo_value_def)
next
  case (SfoText t)
  have d: "drop dp b = t @ 0 # r" using assms(1) SfoText by simp
  have "length b = dp + length (t @ 0 # r)" using arg_cong [OF d, of length] assms(2) by simp
  then have "bytes_at b dp (length t) = Some t" using d by (simp add: bytes_at_def)
  moreover have "strip_zeros b dp (Suc (length t)) = Some (length t)" using assms(3) SfoText by (intro strip_zeros_text [OF d assms(2)]) simp
  ultimately show ?thesis using SfoText by (simp add: sfo_value_def)
qed

lemma sfo_key_encoded:
  assumes "drop kp b = k @ 0 # r" and "0 \<notin> set k"
  shows "sfo_key b kp = Some (map char_of k)"
proof -
  have "takeWhile (\<lambda>x. x \<noteq> 0) (k @ 0 # r) = k" using assms(2) by (induction k) auto
  with assms show ?thesis by (simp add: sfo_key_def)
qed

lemma item_data_nonempty: "0 < length (item_data v)"
  by (cases v) simp_all

lemma sfo_pass_encoded:
  assumes "drop (20 + n * 16) b = index_entry ko d v @ ra" and "drop (key_off h + ko) b = k @ 0 # rb" and "drop (data_off h + d) b = item_data v @ rc"
    and "20 + Suc n * 16 \<le> length b" and "ko < 2 ^ 16" and "key_off h + ko \<le> length b" and "data_off h + d \<le> length b" and "length b < 2 ^ 31"
    and "item_ok v" and "0 \<notin> set k"
  shows "sfo_pass b h n obj = Some (set_prop (map char_of k) (item_js v) obj)"
proof -
  have lk: "length b = key_off h + ko + length (k @ 0 # rb)" using arg_cong [OF assms(2), of length] assms(6) by simp
  have ld: "length b = data_off h + d + length (item_data v @ rc)" using arg_cong [OF assms(3), of length] assms(7) by simp
  have "read_entry b (20 + n * 16) = Some \<lparr>e_key_off = ko, e_fmt = item_fmt v, e_len = length (item_data v), e_max_len = length (item_data v), e_data_off = d\<rparr>"
    using assms(1,4,5,8) ld by (intro read_entry_encoded) auto
  moreover have "size_t (key_off h + ko) = key_off h + ko" "size_t (data_off h + d) = data_off h + d"
    using assms(6-8) by (simp_all add: size_t_def)
  moreover have "sfo_key b (key_off h + ko) = Some (map char_of k)" by (rule sfo_key_encoded [OF assms(2,10)])
  moreover have "sfo_value b (item_fmt v) (length (item_data v)) (data_off h + d) = Some (item_js v)" by (rule sfo_value_encoded [OF assms(3,7,9)])
  moreover have "\<not> (key_off h + ko \<ge> length b \<or> data_off h + d \<ge> length b \<or> length (item_data v) > length b - (data_off h + d))"
    using lk ld item_data_nonempty [of v] unfolding length_append list.size by linarith
  ultimately show ?thesis by (simp add: sfo_pass_def sizeof_SfoHeader_def sizeof_SfoEntry_def Let_def)
qed

text \<open>Entries with different keys are appended one after the other.\<close>

lemma set_prop_new: "k \<notin> fst ` set obj \<Longrightarrow> set_prop k v obj = obj @ [(k, v)]"
  by (induction obj) auto

definition key_text :: "nat list \<Rightarrow> string" where
  "key_text k = map char_of k"

lemma sfo_loop_encoded:
  assumes "drop (20 + n * 16) b = sfo_index es ko d @ ra" and "drop (key_off h + ko) b = sfo_keys es @ rb" and "drop (data_off h + d) b = sfo_datas es"
    and "20 + (n + length es) * 16 \<le> length b" and "ko + length (sfo_keys es) \<le> 2 ^ 16" and "key_off h + ko \<le> length b" and "data_off h + d \<le> length b"
    and "length b < 2 ^ 31" and "\<forall>(k, v)\<in>set es. item_ok v \<and> 0 \<notin> set k"
    and "distinct (map (key_text \<circ> fst) es)" and "\<forall>(k, v)\<in>set es. key_text k \<notin> fst ` set obj"
  shows "sfo_loop b h n (length es) obj = Some (obj @ map (\<lambda>(k, v). (key_text k, item_js v)) es)"
  using assms
proof (induction es arbitrary: n ko d obj)
  case (Cons p es)
  obtain k v where p: "p = (k, v)" by fastforce
  have keys: "sfo_keys (p # es) = k @ 0 # sfo_keys es" and datas: "sfo_datas (p # es) = item_data v @ sfo_datas es"
    using p by (simp_all add: sfo_keys_def sfo_datas_def)
  have i: "drop (20 + n * 16) b = index_entry ko d v @ (sfo_index es (ko + length k + 1) (d + length (item_data v)) @ ra)" using Cons.prems(1) p by simp
  have kk: "drop (key_off h + ko) b = k @ 0 # (sfo_keys es @ rb)" using Cons.prems(2) keys by simp
  have dd: "drop (data_off h + d) b = item_data v @ sfo_datas es" using Cons.prems(3) datas by simp
  have bound: "ko < 2 ^ 16" using Cons.prems(5) keys by simp
  have ok: "item_ok v" "0 \<notin> set k" "key_text k \<notin> fst ` set obj" using Cons.prems(9,11) p by auto
  have "sfo_pass b h n obj = Some (obj @ [(key_text k, item_js v)])"
    using sfo_pass_encoded [OF i kk dd _ bound Cons.prems(6,7,8) ok(1,2), of obj] Cons.prems(4) set_prop_new [OF ok(3)]
    by (simp add: key_text_def)
  moreover have "sfo_loop b h (Suc n) (length es) (obj @ [(key_text k, item_js v)]) =
      Some ((obj @ [(key_text k, item_js v)]) @ map (\<lambda>(k, v). (key_text k, item_js v)) es)"
  proof (rule Cons.IH)
    show "drop (20 + Suc n * 16) b = sfo_index es (ko + length k + 1) (d + length (item_data v)) @ ra" by (rule drop_more [OF i]) simp
    have kk': "drop (key_off h + ko) b = (k @ [0]) @ sfo_keys es @ rb" using kk by simp
    show "drop (key_off h + (ko + length k + 1)) b = sfo_keys es @ rb" by (rule drop_more [OF kk']) simp
    show "drop (data_off h + (d + length (item_data v))) b = sfo_datas es" by (rule drop_more [OF dd]) simp
    show "20 + (Suc n + length es) * 16 \<le> length b" using Cons.prems(4) by simp
    show "ko + length k + 1 + length (sfo_keys es) \<le> 2 ^ 16" using Cons.prems(5) keys by simp
    show "key_off h + (ko + length k + 1) \<le> length b" using arg_cong [OF kk, of length] Cons.prems(6) by simp
    show "data_off h + (d + length (item_data v)) \<le> length b" using arg_cong [OF dd, of length] Cons.prems(7) by simp
    have fresh: "key_text k \<notin> set (map (key_text \<circ> fst) es)" using Cons.prems(10) p by simp
    have "key_text k' \<noteq> key_text k" if e: "(k', v') \<in> set es" for k' v'
    proof -
      have "key_text k' \<in> set (map (key_text \<circ> fst) es)" using e by (auto intro: rev_image_eqI)
      with fresh show ?thesis by metis
    qed
    moreover have "\<forall>(k', v')\<in>set es. key_text k' \<notin> fst ` set obj" using Cons.prems(11) by simp
    ultimately show "\<forall>(k', v')\<in>set es. key_text k' \<notin> fst ` set (obj @ [(key_text k, item_js v)])" by auto
    show "length b < 2 ^ 31" by (rule Cons.prems(8))
    show "\<forall>(k, v)\<in>set es. item_ok v \<and> 0 \<notin> set k" using Cons.prems(9) by simp
    show "distinct (map (key_text \<circ> fst) es)" using Cons.prems(10) by (simp add: comp_def)
  qed
  ultimately show ?case using p by simp
qed simp

text \<open>The header of an encoded file.\<close>

lemma sfo_file_parts:
  "length (sfo_file es) = 20 + length es * 16 + length (sfo_keys es) + length (sfo_datas es)"
  "drop (20 + 0 * 16) (sfo_file es) = sfo_index es 0 0 @ sfo_keys es @ sfo_datas es"
  "drop (20 + length es * 16 + 0) (sfo_file es) = sfo_keys es @ sfo_datas es"
  "drop (20 + length es * 16 + length (sfo_keys es) + 0) (sfo_file es) = sfo_datas es"
  by (simp_all add: sfo_file_def Let_def)

lemma read_header_encoded:
  assumes "length es \<le> 1024" and "length (sfo_file es) < 2 ^ 31"
  shows "read_header (sfo_file es) = Some \<lparr>magic = 0x46535000, sfo_version = 0x101, key_off = 20 + length es * 16,
    data_off = 20 + length es * 16 + length (sfo_keys es), sfo_count = length es\<rparr>"
proof -
  let ?b = "sfo_file es" and ?k = "20 + length es * 16"
  let ?r = "sfo_index es 0 0 @ sfo_keys es @ sfo_datas es"
  have 0: "drop 0 ?b = le_bytes 4 0x46535000 @ le_bytes 4 0x101 @ le_bytes 4 ?k @ le_bytes 4 (?k + length (sfo_keys es)) @ le_bytes 4 (length es) @ ?r"
    by (simp add: sfo_file_def Let_def)
  have 1: "drop 4 ?b = le_bytes 4 0x101 @ le_bytes 4 ?k @ le_bytes 4 (?k + length (sfo_keys es)) @ le_bytes 4 (length es) @ ?r" by (rule drop_more [OF 0]) simp
  have 2: "drop 8 ?b = le_bytes 4 ?k @ le_bytes 4 (?k + length (sfo_keys es)) @ le_bytes 4 (length es) @ ?r" by (rule drop_more [OF 1]) simp
  have 3: "drop 12 ?b = le_bytes 4 (?k + length (sfo_keys es)) @ le_bytes 4 (length es) @ ?r" by (rule drop_more [OF 2]) simp
  have 4: "drop 16 ?b = le_bytes 4 (length es) @ ?r" by (rule drop_more [OF 3]) simp
  have "?k + length (sfo_keys es) < 256 ^ 4" "length es < 256 ^ 4" "20 \<le> length ?b" using assms sfo_file_parts(1) [of es] by simp_all
  then show ?thesis
    using le_at_middle [OF 0] le_at_middle [OF 1] le_at_middle [OF 2] le_at_middle [OF 3] le_at_middle [OF 4] by (simp add: read_header_def)
qed


subsection \<open>Properties\<close>


text \<open>
  C13.  Round trip: the file a reference encoder writes for a list of entries with different keys
  (numbers of 32 bits, and texts) is parsed into the object that has exactly these properties, in
  this order.
\<close>

theorem parse_manifest_roundtrip:
  assumes "es \<noteq> []" and "length es \<le> 1024" and "length (sfo_keys es) \<le> 2 ^ 16" and "length (sfo_file es) < 2 ^ 31"
    and "\<forall>(k, v)\<in>set es. item_ok v \<and> 0 \<notin> set k" and "distinct (map (key_text \<circ> fst) es)" and "readable (sfo_file es)"
  shows "parse_manifest readable (Some (sfo_file es)) = Some (Inr (JObject (map (\<lambda>(k, v). (key_text k, item_js v)) es)))"
proof -
  let ?b = "sfo_file es"
  let ?h = "\<lparr>magic = 0x46535000, sfo_version = 0x101, key_off = 20 + length es * 16,
    data_off = 20 + length es * 16 + length (sfo_keys es), sfo_count = length es\<rparr>"
  have h: "read_header ?b = Some ?h" by (rule read_header_encoded [OF assms(2,4)])
  obtain k v es' where es: "es = (k, v) # es'" using assms(1) by (metis list.exhaust surj_pair)
  have datas: "0 < length (sfo_datas es)" using es item_data_nonempty [of v] by (simp add: sfo_datas_def)
  have "sfo_loop ?b ?h 0 (length es) [] = Some ([] @ map (\<lambda>(k, v). (key_text k, item_js v)) es)"
    using assms sfo_file_parts [of es] by (intro sfo_loop_encoded [where ko = 0 and d = 0 and ra = "sfo_keys es @ sfo_datas es" and rb = "sfo_datas es"]) auto
  moreover have "size_t (20 + length es * 16) = 20 + length es * 16" using assms(2) by (simp add: size_t_def)
  moreover have "read_entire_file readable (Some ?b) = Some ?b" using assms(7) sfo_file_parts(1) [of es] by (auto simp: read_entire_file_def)
  ultimately show ?thesis using h assms(2) sfo_file_parts(1) [of es] datas
    by (simp add: parse_manifest_def sizeof_SfoHeader_def sizeof_SfoEntry_def Let_def)
qed

definition demo_items :: sfo_items where
  "demo_items = [([65, 80, 80], SfoText [49, 46, 48]), ([66], SfoNumber 513)]"

theorem parse_manifest_roundtrip_witness:
  "parse_manifest (\<lambda>_. True) (Some (sfo_file demo_items)) = Some (Inr (JObject [(map char_of [65 :: nat, 80, 80], JString (map char_of [49 :: nat, 46, 48])), (map char_of [66 :: nat], JInt 513)]))"
proof -
  have "length (sfo_file demo_items) = 20 + 32 + 6 + 8" by (simp add: sfo_file_parts demo_items_def sfo_keys_def sfo_datas_def)
  then have "parse_manifest (\<lambda>_. True) (Some (sfo_file demo_items)) = Some (Inr (JObject (map (\<lambda>(k, v). (key_text k, item_js v)) demo_items)))"
    by (intro parse_manifest_roundtrip) (simp_all add: demo_items_def sfo_keys_def key_text_def)
  then show ?thesis by (simp add: demo_items_def key_text_def)
qed

end
