(* ===== verification/System_Files.thy ===== *)
theory System_Files
  imports Js_Monad Sfo
begin

text \<open>
  The system module (src/src/modules/system.c) except for the manifest, which is in \<open>Sfo\<close>:
  files and directories, the language of the system, memory counters (src/src/env.c), and the
  values the module exports.

  The state is the history of system calls and the number of borrowed C strings.  The answers
  of the system are parameters: results, the bytes a read delivers, directory listings.  A block
  of \<open>malloc\<close> is its size in bytes; writing past it is undefined behaviour.
\<close>

subsection \<open>System calls\<close>

datatype sys_call =
    GetLang | AppUtilIsLoaded | AppUtilLoad | AppUtilUnload | AppUtilInit | AppUtilShutdown
  | KernelGetModel
  | Getcwd | Chdir string | Opendir string | Closedir
  | Mkdir string | Rmdir string | Remove string
  | IoOpen string bool | IoRead int nat | IoWrite int "nat list" | IoClose int | IoRemove string | IoRename string string
  | PosixOpen string int | PosixRead int nat | PosixWrite int "nat list" | PosixClose int | PosixLseek int int int
  | SysMalloc nat
  | DelayThread int
  | GetBudgetInfo
  | SetModuleExportList
  | SetModuleExport string jsval

record budget =
  total_user_rw_mem :: nat
  free_user_rw :: nat
  total_cdram_mem :: nat
  free_cdram_mem :: nat

record sys_env =
  y_ret :: "sys_call list \<Rightarrow> sys_call \<Rightarrow> int"
  y_lang :: "sys_call list \<Rightarrow> int option"
  y_cwd :: "sys_call list \<Rightarrow> string option"
  y_dir :: "sys_call list \<Rightarrow> (string \<times> nat \<times> bool) list option"
  y_bytes :: "sys_call list \<Rightarrow> nat list"
  y_alloc :: "sys_call list \<Rightarrow> nat \<Rightarrow> bool"
  y_budget :: "sys_call list \<Rightarrow> budget"
  y_buffer :: "jsval \<Rightarrow> nat list option"
  y_sfo :: "nat list option"
  y_readable :: "nat list \<Rightarrow> bool"
  apputil_not_initialized :: int
  apputil_busy :: int
  model_vitatv :: int

type_synonym sys_state = "sys_call native"
type_synonym 'a sys_m = "(sys_state, 'a) jsm"

definition sys_start :: sys_state where
  "sys_start = \<lparr>trace = [], cstrings = 0\<rparr>"

abbreviation sys :: "sys_env \<Rightarrow> sys_call \<Rightarrow> int sys_m" where
  "sys env c \<equiv> jcall (y_ret env) c"

subsection \<open>Language and model\<close>

definition languages :: "string list" where
  "languages = [''ja-JP'', ''en-US'', ''fr-FR'', ''es-ES'', ''de-DE'', ''it-IT'', ''nl-NL'', ''pt-PT'', ''ru-RU'', ''ko-KR'',
     ''zh-TW'', ''zh-CN'', ''fi-FI'', ''sv-SE'', ''da-DK'', ''no-NO'', ''pl-PL'', ''pt-BR'', ''en-GB'', ''tr-TR'']"

definition language_name :: "int \<Rightarrow> string" where
  "language_name l = (if l \<ge> 0 \<and> l < int (length languages) then languages ! nat l else ''unknown'')"

text \<open>The result and the variable the call writes its answer to, if it writes one.\<close>

definition get_lang :: "sys_env \<Rightarrow> int \<Rightarrow> (int \<times> int) sys_m" where
  "get_lang env l = jcall (\<lambda>h c. (y_ret env h c, case y_lang env h of None \<Rightarrow> l | Some x \<Rightarrow> x)) GetLang"

definition apputil_query :: "sys_env \<Rightarrow> bool \<Rightarrow> bool \<Rightarrow> int \<Rightarrow> (int \<times> int) sys_m" where
  "apputil_query env loaded_here initialized_here l =
     jbind (get_lang env l) (\<lambda>r.
       if initialized_here
       then jbind (sys env AppUtilShutdown) (\<lambda>_.
            jbind (if loaded_here then sys env AppUtilUnload else jret 0) (\<lambda>_. jret r))
       else jret r)"

definition read_language :: "sys_env \<Rightarrow> int \<Rightarrow> (int \<times> int) sys_m" where
  "read_language env l =
     jbind (get_lang env l) (\<lambda>(r, l).
       if r \<ge> 0 \<or> r \<noteq> apputil_not_initialized env then jret (r, l)
       else jbind (sys env AppUtilIsLoaded) (\<lambda>loaded.
            jbind (if loaded < 0 then sys env AppUtilLoad else jret 0) (\<lambda>r.
              if r < 0 then jret (r, l)
              else jbind (sys env AppUtilInit) (\<lambda>r.
                if r \<ge> 0 then apputil_query env (loaded < 0) True l
                else if r \<noteq> apputil_busy env
                then jbind (if loaded < 0 then sys env AppUtilUnload else jret 0) (\<lambda>_. jret (r, l))
                else apputil_query env (loaded < 0) False l))))"

definition language_error :: "int \<Rightarrow> js_error" where
  "language_error r = InternalError (''Unable to read system language: 0x'' @ hex08 r)"

definition get_language :: "sys_env \<Rightarrow> jsval sys_m" where
  "get_language env = jbind (read_language env 0) (\<lambda>(r, l). if r < 0 then jthrow (language_error r) else jret (JString (language_name l)))"

definition get_language_id :: "sys_env \<Rightarrow> jsval sys_m" where
  "get_language_id env = jbind (read_language env 0) (\<lambda>(r, l). if r < 0 then jthrow (language_error r) else jret (JInt l))"

definition get_model_id :: "sys_env \<Rightarrow> jsval sys_m" where
  "get_model_id env = jbind (sys env KernelGetModel) (\<lambda>m. jret (JInt m))"

definition model_name :: "bool \<Rightarrow> string" where
  "model_name pstv = (if pstv then ''PS Vita TV'' else ''PS Vita'')"

definition get_model :: "sys_env \<Rightarrow> jsval sys_m" where
  "get_model env = jbind (sys env KernelGetModel) (\<lambda>m. jret (JString (model_name (m = model_vitatv env))))"

definition get_is_pstv :: "sys_env \<Rightarrow> jsval sys_m" where
  "get_is_pstv env = jbind (sys env KernelGetModel) (\<lambda>m. jret (JBool (m = model_vitatv env)))"

subsection \<open>Directories\<close>

text \<open>\<open>getcwd\<close> into a buffer of 256 bytes, which stays uninitialised when it fails.\<close>

definition read_cwd :: "sys_env \<Rightarrow> string sys_m" where
  "read_cwd env = jbind (jcall (\<lambda>h c. y_cwd env h) Getcwd) (\<lambda>path. case path of None \<Rightarrow> jundef | Some p \<Rightarrow> jret p)"

definition vitajs_getCurrentDirectory :: "sys_env \<Rightarrow> jsval sys_m" where
  "vitajs_getCurrentDirectory env = jbind (read_cwd env) (\<lambda>p. jret (JString p))"

definition vitajs_setCurrentDirectory :: "js_engine \<Rightarrow> sys_env \<Rightarrow> jsval list \<Rightarrow> jsval sys_m" where
  "vitajs_setCurrentDirectory js env v =
     jbind (get_text js (v ! 0)) (\<lambda>p.
     jbind (sys env (Chdir p)) (\<lambda>r.
     jbind free_cstring (\<lambda>_. if r < 0 then jthrow (InternalError ''chdir failed'') else jret JUndefined)))"

definition vitajs_curdir :: "js_engine \<Rightarrow> sys_env \<Rightarrow> jsval list \<Rightarrow> jsval sys_m" where
  "vitajs_curdir js env argv =
     (if length argv = 0 then vitajs_getCurrentDirectory env
      else if length argv = 1 then vitajs_setCurrentDirectory js env argv
      else jthrow (SyntaxError ''currentDir([path]) expects 0-1 arguments''))"

definition MAX_DIR_FILES :: nat where "MAX_DIR_FILES = 1024"

fun dir_entry :: "string \<times> nat \<times> bool \<Rightarrow> jsval" where
  "dir_entry (name, bytes, isdir) = JObject [(''name'', JString name), (''size'', JInt (int bytes)), (''dir'', JBool isdir)]"

definition vitajs_dir :: "js_engine \<Rightarrow> sys_env \<Rightarrow> jsval list \<Rightarrow> jsval sys_m" where
  "vitajs_dir js env argv =
     (if length argv > 1 then jthrow (SyntaxError ''listDir([path]) expects 0-1 arguments'')
      else jbind (if argv \<noteq> [] then jbind (get_text js (argv ! 0)) (\<lambda>p. jbind free_cstring (\<lambda>_. jret (take 255 p))) else read_cwd env) (\<lambda>path.
        jbind (jcall (\<lambda>h c. y_dir env h) (Opendir path)) (\<lambda>d.
          case d of
            None \<Rightarrow> jret (JArray [])
          | Some es \<Rightarrow> jbind (sys env Closedir) (\<lambda>_. jret (JArray (map dir_entry (take MAX_DIR_FILES es)))))))"

text \<open>\<open>one_path\<close>, with its operation 0, 1 or 2.\<close>

definition one_path :: "js_engine \<Rightarrow> sys_env \<Rightarrow> nat \<Rightarrow> jsval list \<Rightarrow> jsval sys_m" where
  "one_path js env op argv =
     (if length argv \<noteq> 1 then jthrow (SyntaxError ''one path expected'')
      else jbind (get_text js (argv ! 0)) (\<lambda>p.
        jbind (sys env (if op = 0 then Mkdir p else if op = 1 then Rmdir p else Remove p)) (\<lambda>r.
        jbind free_cstring (\<lambda>_. if r < 0 then jthrow (InternalError ''filesystem operation failed'') else jret JUndefined))))"

subsection \<open>Copying and moving\<close>

definition COPY_CHUNK :: nat where "COPY_CHUNK = 16384"

text \<open>The loop of \<open>two_path\<close>: its result is what \<open>ret\<close> is after it.\<close>

partial_function (option) copy_loop :: "sys_env \<Rightarrow> int \<Rightarrow> int \<Rightarrow> sys_state \<Rightarrow> (int \<times> sys_state) option" where
  "copy_loop env i out s =
     (let n = ask (y_ret env) s (IoRead i COPY_CHUNK); b = y_bytes env (trace s); s = did (IoRead i COPY_CHUNK) s in
      if n > 0 then
        (let c = IoWrite out (take (nat n) b); w = ask (y_ret env) s c; s = did c s in
         if w \<noteq> n then Some (- 1, s) else copy_loop env i out s)
      else Some (if n < 0 then n else 0, s))"

definition copy_data :: "sys_env \<Rightarrow> int \<Rightarrow> int \<Rightarrow> int sys_m" where
  "copy_data env i out s = map_option (\<lambda>(r, s). (Inr r, s)) (copy_loop env i out s)"

definition copy_file :: "sys_env \<Rightarrow> string \<Rightarrow> string \<Rightarrow> int sys_m" where
  "copy_file env src dst =
     jbind (sys env (IoOpen src False)) (\<lambda>i.
       if i < 0 then jret i
       else jbind (sys env (IoOpen dst True)) (\<lambda>out.
            jbind (if out < 0 then jret out else copy_data env i out) (\<lambda>ret.
            jbind (sys env (IoClose i)) (\<lambda>_.
            jbind (if out \<ge> 0 then sys env (IoClose out) else jret 0) (\<lambda>_. jret ret)))))"

text \<open>Both conversions come first; \<open>move\<close> is 0 to copy, 1 to move, 2 to rename.\<close>

definition two_texts :: "js_engine \<Rightarrow> jsval \<Rightarrow> jsval \<Rightarrow> (string \<times> string) sys_m" where
  "two_texts js a b =
     (case (ToCString js a, ToCString js b) of
        (Some x, Some y) \<Rightarrow> jbind (jmodify (\<lambda>s. s\<lparr>cstrings := cstrings s + 2\<rparr>)) (\<lambda>_. jret (x, y))
      | _ \<Rightarrow> jthrow Pending)"

definition two_path :: "js_engine \<Rightarrow> sys_env \<Rightarrow> nat \<Rightarrow> jsval list \<Rightarrow> jsval sys_m" where
  "two_path js env move argv =
     (if length argv \<noteq> 2 then jthrow (SyntaxError ''source and destination expected'')
      else jbind (two_texts js (argv ! 0) (argv ! 1)) (\<lambda>(src, dst).
        jbind (if move = 2 then sys env (IoRename src dst)
               else jbind (copy_file env src dst) (\<lambda>ret.
                      if move = 1 \<and> ret = 0 then sys env (IoRemove src) else jret ret)) (\<lambda>ret.
        jbind free_cstring (\<lambda>_.
        jbind free_cstring (\<lambda>_.
          if ret < 0 then jthrow (InternalError ''filesystem operation failed'') else jret JUndefined)))))"

subsection \<open>Open files\<close>

definition vitajs_openfile :: "js_engine \<Rightarrow> sys_env \<Rightarrow> jsval list \<Rightarrow> jsval sys_m" where
  "vitajs_openfile js env v =
     (if length v \<noteq> 2 then jthrow (SyntaxError ''openFile(path,type) expects two arguments'')
      else jbind (get_text js (v ! 0)) (\<lambda>p.
        case ToInt32 js (v ! 1) of
          None \<Rightarrow> jbind free_cstring (\<lambda>_. jthrow Pending)
        | Some ty \<Rightarrow>
          jbind (sys env (PosixOpen p ty)) (\<lambda>fd.
          jbind free_cstring (\<lambda>_. if fd < 0 then jthrow (InternalError ''cannot open requested file'') else jret (JInt fd)))))"

text \<open>The buffer of \<open>readFile\<close>: \<open>size + 1\<close> is computed in 32 bits.\<close>

definition read_block :: "nat \<Rightarrow> nat" where
  "read_block n = size_t (n + 1)"

definition vitajs_readfile :: "js_engine \<Rightarrow> sys_env \<Rightarrow> jsval list \<Rightarrow> jsval sys_m" where
  "vitajs_readfile js env v =
     (if length v \<noteq> 2 then jthrow (SyntaxError ''readFile(fd,size) expects two arguments'')
      else jbind (jlift (ToInt32 js (v ! 0))) (\<lambda>fd.
        jbind (jlift (ToUint32 js (v ! 1))) (\<lambda>sz.
        jbind (jcall (\<lambda>h c. y_alloc env h (read_block sz)) (SysMalloc (read_block sz))) (\<lambda>ok.
          if \<not> ok then jthrow OutOfMemory
          else jbind (jcall (\<lambda>h c. (y_ret env h c, y_bytes env h)) (PosixRead fd sz)) (\<lambda>(n, b).
            if n < 0 then jthrow (InternalError ''read failed'')
            else if nat n + 1 > read_block sz then jundef
            else jret (JString (map char_of (take (nat n) b))))))))"

definition vitajs_writefile :: "js_engine \<Rightarrow> sys_env \<Rightarrow> jsval list \<Rightarrow> jsval sys_m" where
  "vitajs_writefile js env v =
     (if length v \<noteq> 3 then jthrow (SyntaxError ''writeFile(fd,data,size) expects three arguments'')
      else jbind (jlift (ToInt32 js (v ! 0))) (\<lambda>fd.
        jbind (jlift (ToUint32 js (v ! 2))) (\<lambda>sz.
          case y_buffer env (v ! 1) of
            None \<Rightarrow> jthrow (TypeError ''data must be ArrayBuffer'')
          | Some d \<Rightarrow>
            let sz = (if sz > length d then length d else sz) in
            jbind (sys env (PosixWrite fd (take sz d))) (\<lambda>n.
              if n < 0 then jthrow (InternalError ''write failed'') else jret JUndefined))))"

definition vitajs_closefile :: "js_engine \<Rightarrow> sys_env \<Rightarrow> jsval list \<Rightarrow> jsval sys_m" where
  "vitajs_closefile js env v =
     (if length v \<noteq> 1 then jthrow (SyntaxError ''closeFile(fd) expects one argument'')
      else jbind (jlift (ToInt32 js (v ! 0))) (\<lambda>fd.
        jbind (sys env (PosixClose fd)) (\<lambda>r. if r < 0 then jthrow (InternalError ''close failed'') else jret JUndefined)))"

definition vitajs_seekfile :: "js_engine \<Rightarrow> sys_env \<Rightarrow> jsval list \<Rightarrow> jsval sys_m" where
  "vitajs_seekfile js env v =
     (if length v \<noteq> 3 then jthrow (SyntaxError ''seekFile(fd,pos,type) expects three arguments'')
      else jbind (jlift (ToInt32 js (v ! 0))) (\<lambda>fd.
        jbind (jlift (ToInt32 js (v ! 1))) (\<lambda>pos.
        jbind (jlift (ToInt32 js (v ! 2))) (\<lambda>ty.
        jbind (sys env (PosixLseek fd pos ty)) (\<lambda>r. if r < 0 then jthrow (InternalError ''seek failed'') else jret JUndefined)))))"

definition SEEK_SET :: int where "SEEK_SET = 0"
definition SEEK_CUR :: int where "SEEK_CUR = 1"
definition SEEK_END :: int where "SEEK_END = 2"

definition vitajs_sizefile :: "js_engine \<Rightarrow> sys_env \<Rightarrow> jsval list \<Rightarrow> jsval sys_m" where
  "vitajs_sizefile js env v =
     (if length v \<noteq> 1 then jthrow (SyntaxError ''sizeFile(fd) expects one argument'')
      else jbind (jlift (ToInt32 js (v ! 0))) (\<lambda>fd.
        jbind (sys env (PosixLseek fd 0 SEEK_CUR)) (\<lambda>cur.
        jbind (sys env (PosixLseek fd 0 SEEK_END)) (\<lambda>sz.
        jbind (sys env (PosixLseek fd cur SEEK_SET)) (\<lambda>_. jret (JInt sz))))))"

definition vitajs_checkexist :: "js_engine \<Rightarrow> sys_env \<Rightarrow> jsval list \<Rightarrow> jsval sys_m" where
  "vitajs_checkexist js env v =
     (if length v \<noteq> 1 then jthrow (SyntaxError ''doesFileExist(path) expects one argument'')
      else jbind (get_text js (v ! 0)) (\<lambda>p.
        jbind (sys env (PosixOpen p 0)) (\<lambda>fd.
        jbind free_cstring (\<lambda>_.
          if fd < 0 then jret (JBool False) else jbind (sys env (PosixClose fd)) (\<lambda>_. jret (JBool True))))))"

subsection \<open>Delay and memory\<close>

text \<open>\<open>delayMiliseconds\<close> (src/src/env.c): the product of two \<open>int\<close>s must be an \<open>int\<close>.\<close>

definition delayMiliseconds :: "sys_env \<Rightarrow> int \<Rightarrow> int sys_m" where
  "delayMiliseconds env timer =
     (if timer * 1000 < - (2 ^ 31) \<or> timer * 1000 \<ge> 2 ^ 31 then jundef else sys env (DelayThread (timer * 1000)))"

definition vitajs_delay :: "js_engine \<Rightarrow> sys_env \<Rightarrow> jsval list \<Rightarrow> jsval sys_m" where
  "vitajs_delay js env v =
     (if length v \<noteq> 1 then jthrow (SyntaxError ''delay(milliseconds) expects one argument'')
      else jbind (jlift (ToInt32 js (v ! 0))) (\<lambda>ms. jbind (delayMiliseconds env ms) (\<lambda>_. jret JUndefined)))"

definition budget_info :: "sys_env \<Rightarrow> budget sys_m" where
  "budget_info env = jcall (\<lambda>h c. y_budget env h) GetBudgetInfo"

definition get_used_memory :: "budget \<Rightarrow> int" where
  "get_used_memory b = to_u32 (int (total_user_rw_mem b) - int (free_user_rw b))"

definition get_free_memory :: "budget \<Rightarrow> int" where
  "get_free_memory b = int (total_user_rw_mem b)"

definition get_used_vram :: "budget \<Rightarrow> int" where
  "get_used_vram b = to_u32 (int (total_cdram_mem b) - int (free_cdram_mem b))"

definition get_free_vram :: "budget \<Rightarrow> int" where
  "get_free_vram b = int (total_cdram_mem b)"

text \<open>The functions of \<open>MEM_FN\<close>.\<close>

definition mem_fn :: "sys_env \<Rightarrow> string \<Rightarrow> (budget \<Rightarrow> int) \<Rightarrow> jsval list \<Rightarrow> jsval sys_m" where
  "mem_fn env name fn argv =
     (if argv \<noteq> [] then jthrow (SyntaxError (name @ '' expects no arguments''))
      else jbind (budget_info env) (\<lambda>b. jret (JInt (fn b))))"

definition vitajs_exit :: "jsval list \<Rightarrow> jsval sys_m" where
  "vitajs_exit v = jret JUndefined"

definition vitajs_loadELF :: "jsval list \<Rightarrow> jsval sys_m" where
  "vitajs_loadELF v = jthrow (InternalError ''LoadELFFromFile not implemented yet'')"

subsection \<open>Values of the module\<close>

text \<open>\<open>parse_manifest\<close> in a state: it opens, reads and closes the file without a trace.\<close>

definition manifest_m :: "sys_env \<Rightarrow> jsval js_result sys_m" where
  "manifest_m env s = map_option (\<lambda>r. (Inr r, s)) (parse_manifest (y_readable env) (y_sfo env))"

definition manifest_property_or_undefined :: "jsval \<Rightarrow> string \<Rightarrow> jsval" where
  "manifest_property_or_undefined m key = (if \<not> js_is_object m then JUndefined else prim_get m key)"

definition set_system_export :: "sys_env \<Rightarrow> string \<Rightarrow> jsval \<Rightarrow> int sys_m" where
  "set_system_export env name v = sys env (SetModuleExport name (if v = JException then JUndefined else v))"

fun set_exports :: "sys_env \<Rightarrow> (string \<times> jsval) list \<Rightarrow> int sys_m" where
  "set_exports env [] = jret 0"
| "set_exports env ((name, v) # es) =
     jbind (set_system_export env name v) (\<lambda>r. if r < 0 then jret (- 1) else set_exports env es)"

definition system_info_exports :: "string list" where
  "system_info_exports =
     [''manifest'', ''titleId'', ''title'', ''shortTitle'', ''version'', ''category'', ''contentId'',
      ''language'', ''languageId'', ''model'', ''modelId'', ''isPSTV'']"

definition system_exports :: "jsval \<Rightarrow> string \<Rightarrow> int \<Rightarrow> int \<Rightarrow> bool \<Rightarrow> (string \<times> jsval) list" where
  "system_exports manifest language language_id model_id is_pstv =
     (let field = manifest_property_or_undefined manifest in
      [(''manifest'', manifest), (''titleId'', field ''TITLE_ID''), (''title'', field ''TITLE''),
       (''shortTitle'', field ''STITLE''), (''version'', field ''APP_VER''), (''category'', field ''CATEGORY''),
       (''contentId'', field ''CONTENT_ID''), (''language'', JString language), (''languageId'', JInt language_id),
       (''model'', JString (model_name is_pstv)), (''modelId'', JInt model_id), (''isPSTV'', JBool is_pstv)])"

definition system_init :: "sys_env \<Rightarrow> int sys_m" where
  "system_init env =
     jbind (sys env SetModuleExportList) (\<lambda>ret.
       if ret < 0 then jret ret
       else jbind (manifest_m env) (\<lambda>r.
       let manifest = (case r of Inl e \<Rightarrow> JObject [] | Inr m \<Rightarrow> m) in
       jbind (read_language env (- 1)) (\<lambda>(r, language_id).
       let language = (if r \<ge> 0 then language_name language_id else ''unknown'') in
       jbind (sys env KernelGetModel) (\<lambda>model_id.
         set_exports env (system_exports manifest language language_id model_id (model_id = model_vitatv env))))))"

subsection \<open>The functions of the module\<close>

datatype system_op =
    OpenFile | ReadFile | WriteFile | CloseFile | SeekFile | SizeFile | DoesFileExist
  | CurrentDir | ListDir | CreateDirectory | RemoveDirectory | MoveFile | CopyFile | RemoveFile | Rename
  | Delay | GetFreeMemory | GetUsedMemory | GetFreeVram | GetUsedVram | SystemExit | LoadELF

fun system_exec :: "js_engine \<Rightarrow> sys_env \<Rightarrow> system_op \<Rightarrow> jsval list \<Rightarrow> jsval sys_m" where
  "system_exec js env OpenFile = vitajs_openfile js env"
| "system_exec js env ReadFile = vitajs_readfile js env"
| "system_exec js env WriteFile = vitajs_writefile js env"
| "system_exec js env CloseFile = vitajs_closefile js env"
| "system_exec js env SeekFile = vitajs_seekfile js env"
| "system_exec js env SizeFile = vitajs_sizefile js env"
| "system_exec js env DoesFileExist = vitajs_checkexist js env"
| "system_exec js env CurrentDir = vitajs_curdir js env"
| "system_exec js env ListDir = vitajs_dir js env"
| "system_exec js env CreateDirectory = one_path js env 0"
| "system_exec js env RemoveDirectory = one_path js env 1"
| "system_exec js env RemoveFile = one_path js env 2"
| "system_exec js env CopyFile = two_path js env 0"
| "system_exec js env MoveFile = two_path js env 1"
| "system_exec js env Rename = two_path js env 2"
| "system_exec js env Delay = vitajs_delay js env"
| "system_exec js env GetFreeMemory = mem_fn env ''get_free_memory'' get_free_memory"
| "system_exec js env GetUsedMemory = mem_fn env ''get_used_memory'' get_used_memory"
| "system_exec js env GetFreeVram = mem_fn env ''get_free_vram'' get_free_vram"
| "system_exec js env GetUsedVram = mem_fn env ''get_used_vram'' get_used_vram"
| "system_exec js env SystemExit = vitajs_exit"
| "system_exec js env LoadELF = vitajs_loadELF"

end
