(* ===== verification/System_Props.thy ===== *)
theory System_Props
  imports System_Files "HOL-Library.Multiset"
begin

text \<open>
  What the file functions of the system module promise: a copy ends with the whole source in
  the destination or with an error, closes what it opened and gives back its strings; a move
  removes its source only after a whole copy; \<open>readFile\<close> stays in its buffer but for one
  size; the values the module exports.
\<close>

subsection \<open>What a history says of a handle\<close>





fun reads_of :: "int \<Rightarrow> sys_call list \<Rightarrow> nat" where
  "reads_of i [] = 0"
| "reads_of i (IoRead j k # h) = reads_of i h + (if j = i then 1 else 0)"
| "reads_of i (c # h) = reads_of i h"



subsection \<open>The copy loop\<close>






subsection \<open>Properties of copying and moving\<close>



text \<open>A system with one file of three bytes.\<close>

fun small_ret :: "sys_call list \<Rightarrow> sys_call \<Rightarrow> int" where
  "small_ret h (IoOpen p w) = (if w then 4 else 3)"
| "small_ret h (IoRead i k) = (if reads_of i h = 0 \<and> k \<ge> 3 then 3 else 0)"
| "small_ret h (IoWrite i b) = int (length b)"
| "small_ret h c = 0"

definition small_env :: sys_env where
  "small_env = \<lparr>y_ret = small_ret, y_lang = (\<lambda>h. Some 1), y_cwd = (\<lambda>h. Some ''app0:''), y_dir = (\<lambda>h. Some []),
     y_bytes = (\<lambda>h. [7, 8, 9]), y_alloc = (\<lambda>h n. True),
     y_budget = (\<lambda>h. \<lparr>total_user_rw_mem = 100, free_user_rw = 60, total_cdram_mem = 50, free_cdram_mem = 20\<rparr>),
     y_buffer = (\<lambda>v. None), y_sfo = None, y_readable = (\<lambda>b. True),
     apputil_not_initialized = - 1, apputil_busy = - 2, model_vitatv = 131072\<rparr>"



subsection \<open>Reading a file\<close>

text \<open>C34.
  For a size below 2^32 - 1 \<open>readFile\<close> stays in its buffer and returns exactly the bytes that
  were read.  For 2^32 - 1 (or -1) the buffer is \<open>malloc(0)\<close>, and a read that does not fail
  writes past it.
\<close>

theorem readfile_exact:
  assumes "engine_typed js" and "ToInt32 js a = Some fd" and "ToUint32 js b = Some sz"
    and "\<And>h. y_ret env h (PosixRead fd sz) \<le> int sz"
  shows "vitajs_readfile js env [a, b] s =
    (let block = if sz = 2 ^ 32 - 1 then 0 else sz + 1; s1 = did (SysMalloc block) s; n = y_ret env (trace s1) (PosixRead fd sz);
         s2 = did (PosixRead fd sz) s1 in
     if \<not> y_alloc env (trace s) block then Some (Inl OutOfMemory, s1)
     else if n < 0 then Some (Inl (InternalError ''read failed''), s2)
     else if sz = 2 ^ 32 - 1 then None
     else Some (Inr (JString (map char_of (take (nat n) (y_bytes env (trace s1))))), s2))"
proof -
  have "sz < 2 ^ 32" using assms(1,3) by (auto simp: engine_typed_def)
  then have block: "read_block sz = (if sz = 2 ^ 32 - 1 then 0 else sz + 1)" by (auto simp: read_block_def size_t_def)
  have "nat (y_ret env h (PosixRead fd sz)) \<le> sz" for h using assms(4) [of h] by linarith
  then have "nat (y_ret env h (PosixRead fd sz)) + 1 > read_block sz \<longleftrightarrow> sz = 2 ^ 32 - 1" for h
    using le_imp_less_Suc [of "nat (y_ret env h (PosixRead fd sz))" sz] by (simp add: block not_less)
  then show ?thesis
    using assms(2,3) by (simp add: vitajs_readfile_def jm_defs jcall_def ask_def Let_def block [symmetric] block)
qed

theorem readfile_exact_witness:
  "vitajs_readfile js_prim small_env [JInt 3, JInt (- 1)] sys_start = None \<and>
   vitajs_readfile js_prim small_env [JInt 3, JInt 4] sys_start = Some (Inr (JString []), did (PosixRead 3 4) (did (SysMalloc 5) sys_start))"
proof -
  have c: "ToInt32 js_prim (JInt 3) = Some 3" "ToUint32 js_prim (JInt (- 1)) = Some (2 ^ 32 - 1)" "ToUint32 js_prim (JInt 4) = Some 4"
    by (simp_all add: js_prim_def to_s32_def to_u32_def)
  have r: "\<And>h n. y_ret small_env h (PosixRead 3 n) \<le> int n" by (simp add: small_env_def)
  show ?thesis
    using readfile_exact [OF engine_typed_prim c(1,2) r] readfile_exact [OF engine_typed_prim c(1,3) r]
    by (simp add: small_env_def)
qed

subsection \<open>The values of the module\<close>











subsection \<open>Every function returns\<close>






















text \<open>A longer delay overflows \<open>int\<close>.\<close>

lemma delay_overflows:
  assumes "ToInt32 js a = Some ms"
  shows "vitajs_delay js env [a] s = None \<longleftrightarrow> ms < - 2147483 \<or> ms > 2147483"
  using assms by (auto simp: vitajs_delay_def delayMiliseconds_def jbind_def jundef_def jret_def jcall_def)

end
