(* ===== verification/Script.thy ===== *)
theory Script
  imports Js_Monad
begin

text \<open>
  Running a script (src/src/env.c from \<open>JS_NewCustomContext\<close> on, src/src/main.c and
  \<open>vitajs_error_screen\<close> of src/src/graphics.c): the file is read into a growing buffer and
  handed to the engine with its terminator, a bootstrap module first; \<open>main\<close> repeats this until
  a run reports no error.

  The state keeps how many resources of each kind are live.  Freeing what is not, or the runtime
  while something of it is left, is undefined behaviour, as is a write past the buffer.  Whether
  the calls succeed and what the file holds are parameters (\<open>run_env\<close>).
\<close>

subsection \<open>State\<close>

datatype run_res = Runtime | Handlers | Context | SourceFile | Buffer | EngineValue | EngineString | Graphics | DialogSystem

datatype run_call =
    NewRuntime | SetWorkerContextFunc | InitHandlers | NewContext | InitModule string | SetModuleLoader
  | Fopen string | Malloc nat | Realloc nat | Fread nat
  | AddHelpers
  | Eval "nat list" string | SetImportMeta bool | EvalFunction
  | StdLoop
  | GetException | GetStack | MessageToCString | StackToCString
  | DialogSystemInit | Vita2dInit | ErrorScreen "string option" | DrawError nat string | PeekButtons

record run_state = "run_call traced" +
  run_live :: "run_res \<Rightarrow> nat"

record run_env =
  r_ok :: "run_call list \<Rightarrow> run_call \<Rightarrow> bool"
  r_int :: "run_call list \<Rightarrow> run_call \<Rightarrow> int"
  r_bytes :: "run_call list \<Rightarrow> nat \<Rightarrow> nat list"
  r_text :: "run_call list \<Rightarrow> run_call \<Rightarrow> string option"
  sce_ctrl_start :: int

type_synonym 'a run_m = "(run_state, 'a) jsm"

definition run_start :: run_state where
  "run_start = \<lparr>trace = [], run_live = (\<lambda>_. 0)\<rparr>"

definition hold :: "run_res \<Rightarrow> unit run_m" where
  "hold r = jmodify (\<lambda>s. s\<lparr>run_live := (run_live s)(r := run_live s r + 1)\<rparr>)"

definition drop_res :: "run_res \<Rightarrow> unit run_m" where
  "drop_res r s = (if run_live s r = 0 then None else Some (Inr (), s\<lparr>run_live := (run_live s)(r := run_live s r - 1)\<rparr>))"

text \<open>A call that makes a resource or fails, and one that only returns.\<close>

definition acquire :: "run_env \<Rightarrow> run_call \<Rightarrow> run_res \<Rightarrow> bool run_m" where
  "acquire env c r = jbind (jcall (r_ok env) c) (\<lambda>ok. if ok then jbind (hold r) (\<lambda>_. jret True) else jret False)"

definition act :: "run_call \<Rightarrow> unit run_m" where
  "act c = jmodify (did c)"

text \<open>\<open>JS_FreeRuntime\<close> checks that nothing of the runtime is left.\<close>

definition free_runtime :: "unit run_m" where
  "free_runtime =
     jbind (jget run_live) (\<lambda>l.
       if l Context > 0 \<or> l Handlers > 0 \<or> l EngineValue > 0 \<or> l EngineString > 0 then jundef else drop_res Runtime)"

subsection \<open>The modules\<close>

text \<open>src/src/modules/modules.def.\<close>

definition module_names :: "string list" where
  "module_names = [''System'', ''Screen'', ''Pads'', ''Touch'', ''Font'', ''Net'', ''Audio'', ''App'', ''Dialog'', ''Power'']"

fun init_modules :: "string list \<Rightarrow> unit run_m" where
  "init_modules [] = jret ()"
| "init_modules (m # ms) = jbind (act (InitModule m)) (\<lambda>_. init_modules ms)"

definition JS_NewCustomContext :: "run_env \<Rightarrow> bool run_m" where
  "JS_NewCustomContext env =
     jbind (acquire env NewContext Context) (\<lambda>ok.
       if \<not> ok then jret False
       else jbind (init_modules ([''std'', ''os''] @ module_names)) (\<lambda>_. jret True))"

definition newline :: string where "newline = [CHR 0x0A]"

definition import_line :: "string \<Rightarrow> string" where
  "import_line m = ''import * as '' @ m @ '' from '' @ [CHR 0x27] @ m @ [CHR 0x27] @ '';'' @ newline"

definition global_line :: "string \<Rightarrow> string" where
  "global_line m = ''globalThis.'' @ m @ '' = '' @ m @ '';'' @ newline"

definition bootstrap :: string where
  "bootstrap =
     (let ms = [''std'', ''os''] @ module_names in concat (map import_line ms) @ concat (map global_line ms))"

subsection \<open>Evaluating\<close>

text \<open>\<open>JS_FreeValue\<close> does nothing to an exception.\<close>

definition free_value :: "bool \<Rightarrow> unit run_m" where
  "free_value ok = (if ok then drop_res EngineValue else jret ())"

definition bootstrap_name :: string where "bootstrap_name = ''<vitajs-bootstrap>''"

definition qjs_eval_buf :: "run_env \<Rightarrow> nat list \<Rightarrow> string \<Rightarrow> bool \<Rightarrow> int run_m" where
  "qjs_eval_buf env src filename is_module =
     jbind (acquire env (Eval src filename) EngineValue) (\<lambda>ok.
       if is_module \<and> ok then
         jbind (jcall (r_int env) (SetImportMeta (filename \<noteq> bootstrap_name))) (\<lambda>r.
           if r < 0 then jbind (free_value ok) (\<lambda>_. jret (- 1))
           else jbind (drop_res EngineValue) (\<lambda>_.
                jbind (acquire env EvalFunction EngineValue) (\<lambda>ok.
                jbind (free_value ok) (\<lambda>_. jret (if ok then 0 else - 1)))))
       else jbind (free_value ok) (\<lambda>_. jret (if ok then 0 else - 1)))"

subsection \<open>Reading the file\<close>

text \<open>
  The start of a pass of the loop of \<open>qjs_handle_fh\<close>: the buffer grows when less than 1024
  bytes are left.  The result is its size, or nothing when it had to be given up.
\<close>

definition grow :: "run_env \<Rightarrow> nat \<Rightarrow> nat \<Rightarrow> nat option run_m" where
  "grow env bufsz bufoff =
     (if bufsz - bufoff < 1024 then
        let newsz = size_t (bufsz + bufsz div 4 + 1024) in
        if newsz < bufsz then jbind (drop_res Buffer) (\<lambda>_. jret None)
        else jbind (jcall (r_ok env) (Realloc newsz)) (\<lambda>ok.
          if ok then jret (Some newsz) else jbind (drop_res Buffer) (\<lambda>_. jret None))
      else jret (Some bufsz))"

text \<open>The first \<open>bufoff\<close> bytes of the buffer are \<open>content\<close>.\<close>

partial_function (option) fh_loop :: "run_env \<Rightarrow> nat \<Rightarrow> nat list \<Rightarrow> run_state \<Rightarrow> ((nat \<times> nat list) option \<times> run_state) option" where
  "fh_loop env bufsz content s =
     (case grow env bufsz (length content) s of
        Some (Inr (Some bufsz), s) \<Rightarrow>
          let avail = bufsz - length content; got = r_bytes env (trace s) avail; s = did (Fread avail) s in
          if length got > avail then None
          else if got = [] then Some (Some (bufsz, content), s)
          else fh_loop env bufsz (content @ got) s
      | Some (Inr None, s) \<Rightarrow> Some (None, s)
      | _ \<Rightarrow> None)"

definition fh_read :: "run_env \<Rightarrow> nat \<Rightarrow> (nat \<times> nat list) option run_m" where
  "fh_read env bufsz s = map_option (\<lambda>(r, s). (Inr r, s)) (fh_loop env bufsz [] s)"

definition char_codes :: "string \<Rightarrow> nat list" where
  "char_codes t = map of_char t"

definition qjs_handle_fh :: "run_env \<Rightarrow> string \<Rightarrow> int run_m" where
  "qjs_handle_fh env filename =
     jbind (acquire env (Malloc 1024) Buffer) (\<lambda>ok.
       if \<not> ok then jret (- 1)
       else jbind (fh_read env 1024) (\<lambda>r.
         case r of
           None \<Rightarrow> jret (- 1)
         | Some (bufsz, content) \<Rightarrow>
           if length content \<ge> bufsz then jundef
           else jbind (act AddHelpers) (\<lambda>_.
             jbind (qjs_eval_buf env (char_codes bootstrap) bootstrap_name True) (\<lambda>rc.
               if rc \<noteq> 0 then jbind (drop_res Buffer) (\<lambda>_. jret (- 1))
               else jbind (qjs_eval_buf env content filename True) (\<lambda>rc.
                    jbind (drop_res Buffer) (\<lambda>_. jret (if rc \<noteq> 0 then - 1 else 0)))))))"

definition qjs_handle_file :: "run_env \<Rightarrow> string \<Rightarrow> int run_m" where
  "qjs_handle_file env filename =
     jbind (acquire env (Fopen filename) SourceFile) (\<lambda>ok.
       if \<not> ok then jret (- 1)
       else jbind (qjs_handle_fh env filename) (\<lambda>retval. jbind (drop_res SourceFile) (\<lambda>_. jret retval)))"

subsection \<open>Running\<close>

definition ERROR_BUF :: nat where "ERROR_BUF = 4096"

text \<open>\<open>snprintf\<close> into \<open>error_buf\<close>.\<close>

definition error_text :: "string option \<Rightarrow> string option \<Rightarrow> string" where
  "error_text exception stack =
     take (ERROR_BUF - 1)
       ((case exception of None \<Rightarrow> ''JavaScript exception'' | Some e \<Rightarrow> e) @
        (case stack of None \<Rightarrow> [] | Some t \<Rightarrow> newline @ t))"

definition to_cstring :: "run_env \<Rightarrow> run_call \<Rightarrow> string option run_m" where
  "to_cstring env c =
     jbind (jcall (r_text env) c) (\<lambda>t. if t = None then jret None else jbind (hold EngineString) (\<lambda>_. jret t))"

definition free_text :: "string option \<Rightarrow> unit run_m" where
  "free_text t = (if t = None then jret () else drop_res EngineString)"

definition take_exception :: "run_env \<Rightarrow> string run_m" where
  "take_exception env =
     jbind (act GetException) (\<lambda>_. jbind (hold EngineValue) (\<lambda>_.
     jbind (act GetStack) (\<lambda>_. jbind (hold EngineValue) (\<lambda>_.
     jbind (to_cstring env MessageToCString) (\<lambda>exception.
     jbind (to_cstring env StackToCString) (\<lambda>stack.
     jbind (free_text exception) (\<lambda>_. jbind (free_text stack) (\<lambda>_.
     jbind (drop_res EngineValue) (\<lambda>_. jbind (drop_res EngineValue) (\<lambda>_.
     jret (error_text exception stack)))))))))))"

definition close_engine :: "unit run_m" where
  "close_engine = jbind (drop_res Handlers) (\<lambda>_. jbind (drop_res Context) (\<lambda>_. free_runtime))"

text \<open>The result is the error message, \<open>None\<close> for NULL.\<close>

definition runScript :: "run_env \<Rightarrow> string \<Rightarrow> string option run_m" where
  "runScript env script =
     jbind (acquire env NewRuntime Runtime) (\<lambda>ok.
       if \<not> ok then jret (Some ''Runtime creation failed.'')
       else jbind (act SetWorkerContextFunc) (\<lambda>_.
         jbind (act InitHandlers) (\<lambda>_. jbind (hold Handlers) (\<lambda>_.
         jbind (JS_NewCustomContext env) (\<lambda>ok.
           if \<not> ok then jbind (drop_res Handlers) (\<lambda>_. jbind free_runtime (\<lambda>_. jret (Some ''Context creation failed.'')))
           else jbind (act SetModuleLoader) (\<lambda>_.
             jbind (qjs_handle_file env script) (\<lambda>r.
               if r \<ge> 0 then jbind (act StdLoop) (\<lambda>_. jbind close_engine (\<lambda>_. jret None))
               else jbind (take_exception env) (\<lambda>msg. jbind close_engine (\<lambda>_. jret (Some msg))))))))))"

subsection \<open>The main function\<close>

fun is_prefix :: "string \<Rightarrow> string \<Rightarrow> bool" where
  "is_prefix [] ys = True"
| "is_prefix (x # xs) [] = False"
| "is_prefix (x # xs) (y # ys) = (x = y \<and> is_prefix xs ys)"

text \<open>\<open>strstr(t, w) != NULL\<close>.\<close>

fun strstr :: "string \<Rightarrow> string \<Rightarrow> bool" where
  "strstr [] w = is_prefix w []"
| "strstr (x # xs) w = (is_prefix w (x # xs) \<or> strstr xs w)"

definition error_colour :: "string \<Rightarrow> nat" where
  "error_colour e =
     (if strstr e ''EvalError'' then RGBA8 0x56 0x71 0x7D 0xFF
      else if strstr e ''SyntaxError'' then RGBA8 0x20 0x60 0xB0 0xFF
      else if strstr e ''TypeError'' then RGBA8 0x3b 0x81 0x32 0xFF
      else if strstr e ''ReferenceError'' then RGBA8 0xE5 0xDE 0x00 0xFF
      else if strstr e ''RangeError'' then RGBA8 0xD0 0x31 0x3D 0xFF
      else if strstr e ''InternalError'' then RGBA8 0x8A 0x00 0xC2 0xFF
      else if strstr e ''URIError'' then RGBA8 0xFF 0x78 0x1F 0xFF
      else if strstr e ''AggregateError'' then RGBA8 0xE2 0x61 0x9F 0xFF
      else RGBA8 0x20 0x20 0x20 0xFF)"

text \<open>
  \<open>ctrl\<close> is a static variable of env.h, so every C file has its own: the loop of the error
  screen reads the one of graphics.c, which no code writes, and which is 0.
\<close>

definition graphics_ctrl_buttons :: int where "graphics_ctrl_buttons = 0"

partial_function (option) error_loop :: "run_env \<Rightarrow> nat \<Rightarrow> string \<Rightarrow> run_state \<Rightarrow> (unit \<times> run_state) option" where
  "error_loop env colour msg s =
     (if graphics_ctrl_buttons = sce_ctrl_start env then Some ((), s) else error_loop env colour msg (did (DrawError colour msg) s))"

definition vitajs_error_screen :: "run_env \<Rightarrow> string option \<Rightarrow> unit run_m" where
  "vitajs_error_screen env msg s =
     (case msg of
        None \<Rightarrow> Some (Inr (), did (ErrorScreen msg) s)
      | Some e \<Rightarrow> map_option (\<lambda>(_, s). (Inr (), s)) (error_loop env (error_colour e) e (did (ErrorScreen msg) s)))"

partial_function (option) script_loop :: "run_env \<Rightarrow> run_state \<Rightarrow> (string option \<times> run_state) option" where
  "script_loop env s =
     (case runScript env ''app0:/assets/main.js'' s of
        Some (Inr errMsg, s) \<Rightarrow> if errMsg \<noteq> None then script_loop env s else Some (errMsg, s)
      | _ \<Rightarrow> None)"

text \<open>Waiting for the start button, alone.\<close>

partial_function (option) button_loop :: "run_env \<Rightarrow> run_state \<Rightarrow> (unit \<times> run_state) option" where
  "button_loop env s =
     (let b = ask (r_int env) s PeekButtons; s = did PeekButtons s in
      if b \<noteq> sce_ctrl_start env then button_loop env s else Some ((), s))"

definition run_loop :: "(run_state \<Rightarrow> ('a \<times> run_state) option) \<Rightarrow> 'a run_m" where
  "run_loop f s = map_option (\<lambda>(x, s). (Inr x, s)) (f s)"

definition main :: "run_env \<Rightarrow> int run_m" where
  "main env =
     jbind (jcall (r_int env) DialogSystemInit) (\<lambda>d.
       if d < 0 then jret d
       else jbind (hold DialogSystem) (\<lambda>_.
         jbind (jcall (r_int env) Vita2dInit) (\<lambda>g.
           if g < 0 then jbind (drop_res DialogSystem) (\<lambda>_. jret g)
           else jbind (hold Graphics) (\<lambda>_.
             jbind (run_loop (script_loop env)) (\<lambda>errMsg.
             jbind (vitajs_error_screen env errMsg) (\<lambda>_.
             jbind (run_loop (button_loop env)) (\<lambda>_.
             jbind (drop_res Graphics) (\<lambda>_.
             jbind (drop_res DialogSystem) (\<lambda>_. jret 0)))))))))"

end
