(* ===== verification/Script_Props.thy ===== *)
theory Script_Props
  imports Script
begin

text \<open>
  A run of a script reads the whole file in bounds, evaluates exactly its bytes after the
  bootstrap module, and leaves nothing of the engine, no file and no memory behind, whichever
  call fails.  \<open>main\<close> starts over after every error, so its error screen never shows one.
\<close>

subsection \<open>What a history says\<close>








lemma run_live_did [simp]: "run_live (did c s) = run_live s"
  by (simp add: did_def)

lemma did_live [simp]: "did c (s\<lparr>run_live := l\<rparr>) = (did c s)\<lparr>run_live := l\<rparr>"
  by (simp add: did_def)

subsection \<open>Reading\<close>



subsection \<open>Evaluating and running\<close>

lemma live_back [simp]: "n = l r \<Longrightarrow> l(r := n) = l"
  by simp











subsection \<open>The main function\<close>










end
