(* ===== verification/Screen.thy ===== *)
theory Screen
  imports Js_Monad
begin

text \<open>
  The screen module (src/src/modules/screen.c): a table of 255 textures, which scripts know by
  their index, and the drawing functions of libvita2d.

  The state keeps the table, the textures that are live in libvita2d, and the strings borrowed
  from the engine.  The calls of libvita2d are a trace; whether it makes a texture is a parameter.
  \<open>JS_FreeValue\<close> on an argument gives up a reference the function does not own: harmless for
  numbers, which are not counted, and undefined behaviour for strings and objects.
\<close>

subsection \<open>State\<close>

datatype screen_call =
    SetClearColor nat | ClearScreen | StartDrawing | EndDrawing | DialogUpdate | SwapBuffers | WaitRenderingDone | WaitVblank
  | GetContext | SetRegionClip nat nat nat nat nat | DisableClipping | GetClippingEnabled | SetClipRectangle int int int int
  | SetBlendModeAdd nat | DrawPixel flt flt nat | DrawLine flt flt flt flt nat | DrawRectangle flt flt flt flt nat
  | DrawFillCircle flt flt flt nat
  | CreateTexture nat nat | CreateTextureFormat nat nat nat | CreateTextureTarget nat nat nat
  | LoadPNG string | LoadJPEG string | LoadBMP string
  | FreeTexture "nat option" | DrawTexture nat flt flt

definition MAX_TEXTURES :: nat where "MAX_TEXTURES = 255"

record TextureData =
  tx_id :: int
  tx_texture :: "nat option"

record screen_state = "screen_call native" +
  textures :: "TextureData list"
  numTextures :: nat
  live_tex :: "nat \<Rightarrow> bool"
  next_tex :: nat

record screen_env =
  sc_ok :: "screen_call list \<Rightarrow> screen_call \<Rightarrow> bool"

type_synonym 'a screen_m = "(screen_state, 'a) jsm"

definition no_texture :: TextureData where
  "no_texture = \<lparr>tx_id = - 1, tx_texture = None\<rparr>"

text \<open>\<open>screen_init\<close> clears the table, but not the number of its entries in use.\<close>

definition screen_start :: screen_state where
  "screen_start = \<lparr>trace = [], cstrings = 0, textures = replicate MAX_TEXTURES no_texture, numTextures = 0,
     live_tex = (\<lambda>_. False), next_tex = 0\<rparr>"

definition screen_init :: "unit screen_m" where
  "screen_init = jmodify (\<lambda>s. s\<lparr>textures := replicate MAX_TEXTURES no_texture\<rparr>)"

subsection \<open>The table of textures\<close>

definition new_texture :: "nat option \<Rightarrow> int screen_m" where
  "new_texture t =
     jbind (jget numTextures) (\<lambda>n.
       if n \<ge> MAX_TEXTURES then jret (- 1)
       else jbind (jmodify (\<lambda>s. s\<lparr>numTextures := n + 1, textures := (textures s)[n := \<lparr>tx_id = int n, tx_texture = t\<rparr>]\<rparr>)) (\<lambda>_.
            jret (int n)))"

definition get_texture :: "int \<Rightarrow> TextureData screen_m" where
  "get_texture textureId =
     jget (\<lambda>s. if textureId < 0 \<or> textureId \<ge> int (numTextures s) then no_texture else textures s ! nat textureId)"

text \<open>\<open>vita2d_free_texture\<close>, which accepts NULL.\<close>

definition vita2d_free_texture :: "nat option \<Rightarrow> unit screen_m" where
  "vita2d_free_texture t s =
     (case t of
        None \<Rightarrow> Some (Inr (), did (FreeTexture t) s)
      | Some k \<Rightarrow> if live_tex s k then Some (Inr (), (did (FreeTexture t) s)\<lparr>live_tex := (live_tex s)(k := False)\<rparr>) else None)"

definition del_texture :: "int \<Rightarrow> int screen_m" where
  "del_texture textureId =
     jbind (jget (\<lambda>s. (numTextures s, textures s))) (\<lambda>(n, ts).
       if textureId < 0 \<or> textureId \<ge> int n then jret (- 1)
       else jbind (vita2d_free_texture (tx_texture (ts ! nat textureId))) (\<lambda>_.
            jbind (jmodify (\<lambda>s. s\<lparr>textures := (textures s)[nat textureId := no_texture]\<rparr>)) (\<lambda>_. jret 0)))"

subsection \<open>Arguments\<close>

text \<open>
  The engine fills missing arguments up to the declared number with undefined.  The functions
  ignore the result of a conversion: an argument that cannot be converted is 0.
\<close>

definition arg :: "jsval list \<Rightarrow> nat \<Rightarrow> jsval" where
  "arg argv i = (if i < length argv then argv ! i else JUndefined)"

definition uint_arg :: "js_engine \<Rightarrow> jsval list \<Rightarrow> nat \<Rightarrow> nat" where
  "uint_arg js argv i = (case ToUint32 js (arg argv i) of None \<Rightarrow> 0 | Some n \<Rightarrow> n)"

definition int_arg :: "js_engine \<Rightarrow> jsval list \<Rightarrow> nat \<Rightarrow> int" where
  "int_arg js argv i = (case ToInt32 js (arg argv i) of None \<Rightarrow> 0 | Some n \<Rightarrow> n)"

definition uint_float :: "nat \<Rightarrow> flt" where
  "uint_float n = f32 (of_nat n)"

fun counted :: "jsval \<Rightarrow> bool" where
  "counted (JString t) = True"
| "counted v = js_is_object v"

text \<open>\<open>JS_FreeValue(ctx, argv[i])\<close> for the arguments of a list.\<close>

definition free_args :: "jsval list \<Rightarrow> unit screen_m" where
  "free_args vs = (if \<exists>v \<in> set vs. counted v then jundef else jret ())"

definition issue :: "screen_call \<Rightarrow> unit screen_m" where
  "issue c = jmodify (did c)"

definition wrong_args :: "string \<Rightarrow> 'a screen_m" where
  "wrong_args usage = jthrow (SyntaxError (''wrong number of arguments. Expected '' @ usage))"

subsection \<open>Drawing\<close>

definition vitajs_clear :: "js_engine \<Rightarrow> jsval list \<Rightarrow> jsval screen_m" where
  "vitajs_clear js argv =
     (let c = RGBA8 (uint_arg js argv 0) (uint_arg js argv 1) (uint_arg js argv 2) (uint_arg js argv 3) in
      jbind (if length argv > 0 then issue (SetClearColor c) else jret ()) (\<lambda>_. jbind (issue ClearScreen) (\<lambda>_. jret JUndefined)))"

text \<open>
  The functions that make one call of libvita2d without arguments and return undefined:
  \<open>start_drawing\<close>, \<open>end_drawing\<close>, \<open>common_dialog_update\<close>, \<open>swap_buffers\<close>,
  \<open>wait_rendering_done\<close>, \<open>wait_vblank\<close>, \<open>gmx_get_context\<close>, \<open>disable_clipping\<close> and
  \<open>get_clipping_enabled\<close>, which drops the answer.
\<close>

definition void_call :: "screen_call \<Rightarrow> jsval list \<Rightarrow> jsval screen_m" where
  "void_call c argv = jbind (issue c) (\<lambda>_. jret JUndefined)"

text \<open>\<open>start_drawing_advanced\<close>, \<open>print\<close> and \<open>draw_array\<close>.\<close>

definition unavailable :: "string \<Rightarrow> jsval list \<Rightarrow> jsval screen_m" where
  "unavailable msg argv = jthrow (InternalError msg)"

definition vitajs_set_region_clip :: "js_engine \<Rightarrow> jsval list \<Rightarrow> jsval screen_m" where
  "vitajs_set_region_clip js argv =
     (if length argv \<noteq> 5 then wrong_args ''five (mode: number, x_min: number, y_min: number, x_max: number, y_max: number)''
      else jbind (issue (SetRegionClip (uint_arg js argv 0) (uint_arg js argv 1) (uint_arg js argv 2) (uint_arg js argv 3) (uint_arg js argv 4))) (\<lambda>_.
        jbind (free_args argv) (\<lambda>_. jret JUndefined)))"

definition vitajs_set_clip_rectangle :: "js_engine \<Rightarrow> jsval list \<Rightarrow> jsval screen_m" where
  "vitajs_set_clip_rectangle js argv =
     (if length argv \<noteq> 4 then wrong_args ''four (x_min, y_min, x_max, y_max: number)''
      else jbind (issue (SetClipRectangle (int_arg js argv 0) (int_arg js argv 1) (int_arg js argv 2) (int_arg js argv 3))) (\<lambda>_.
        jbind (free_args argv) (\<lambda>_. jret JUndefined)))"

text \<open>The four numbers are handed over as the addresses to write to.\<close>

definition vitajs_get_clip_rectangle :: "jsval list \<Rightarrow> jsval screen_m" where
  "vitajs_get_clip_rectangle argv =
     (if length argv \<noteq> 4 then wrong_args ''four (x_min, y_min, x_max, y_max: number)'' else jundef)"

definition vitajs_set_blend_mode_add :: "js_engine \<Rightarrow> jsval list \<Rightarrow> jsval screen_m" where
  "vitajs_set_blend_mode_add js argv =
     (if length argv \<noteq> 1 then wrong_args ''one (enable: number)''
      else jbind (issue (SetBlendModeAdd (uint_arg js argv 0))) (\<lambda>_. jbind (free_args argv) (\<lambda>_. jret JUndefined)))"

definition vitajs_draw_pixel :: "js_engine \<Rightarrow> jsval list \<Rightarrow> jsval screen_m" where
  "vitajs_draw_pixel js argv =
     (if length argv \<noteq> 3 then wrong_args ''three (x, y, color: number)''
      else jbind (issue (DrawPixel (uint_float (uint_arg js argv 0)) (uint_float (uint_arg js argv 1)) (uint_arg js argv 2))) (\<lambda>_.
        jbind (free_args argv) (\<lambda>_. jret JUndefined)))"

definition vitajs_draw_line :: "js_engine \<Rightarrow> jsval list \<Rightarrow> jsval screen_m" where
  "vitajs_draw_line js argv =
     (if length argv \<noteq> 5 then wrong_args ''one (enable: number)''
      else jbind (issue (DrawLine (uint_float (uint_arg js argv 0)) (uint_float (uint_arg js argv 1)) (uint_float (uint_arg js argv 2))
          (uint_float (uint_arg js argv 3)) (uint_arg js argv 4))) (\<lambda>_.
        jbind (free_args argv) (\<lambda>_. jret JUndefined)))"

definition vitajs_draw_rectangle :: "js_engine \<Rightarrow> jsval list \<Rightarrow> jsval screen_m" where
  "vitajs_draw_rectangle js argv =
     (if length argv \<noteq> 5 then jthrow (SyntaxError ''draw_rectangle(x, y, width, height, color) expects 5 arguments'')
      else jbind (jlift (ToFloat64 js (argv ! 0))) (\<lambda>x.
        jbind (jlift (ToFloat64 js (argv ! 1))) (\<lambda>y.
        jbind (jlift (ToFloat64 js (argv ! 2))) (\<lambda>w.
        jbind (jlift (ToFloat64 js (argv ! 3))) (\<lambda>h.
        jbind (jlift (ToUint32 js (argv ! 4))) (\<lambda>color.
          if flt_ge (Fin 0) w \<or> flt_ge (Fin 0) h then jret JUndefined
          else jbind (issue (DrawRectangle (fcvt f32 x) (fcvt f32 y) (fcvt f32 w) (fcvt f32 h) color)) (\<lambda>_. jret JUndefined)))))))"

definition float_arg :: "js_engine \<Rightarrow> jsval list \<Rightarrow> nat \<Rightarrow> flt \<Rightarrow> flt" where
  "float_arg js argv i initial = (case ToFloat64 js (arg argv i) of None \<Rightarrow> initial | Some x \<Rightarrow> fcvt f32 x)"

definition vitajs_draw_fill_circle :: "js_engine \<Rightarrow> jsval list \<Rightarrow> jsval screen_m" where
  "vitajs_draw_fill_circle js argv =
     (if length argv \<noteq> 4 then wrong_args ''four (radius: float, x, y, color: number)''
      else jbind (issue (DrawFillCircle (uint_float (uint_arg js argv 1)) (uint_float (uint_arg js argv 2)) (float_arg js argv 0 (Fin 0)) (uint_arg js argv 3))) (\<lambda>_.
        jbind (free_args argv) (\<lambda>_. jret JUndefined)))"

text \<open>\<open>draw_array2\<close> hands over a pointer it never set.\<close>

definition vitajs_draw_array2 :: "jsval list \<Rightarrow> jsval screen_m" where
  "vitajs_draw_array2 argv =
     (if length argv \<noteq> 3 then wrong_args ''three (mode: number, vertices: vita2d_color_vertex, count: number)'' else jundef)"

subsection \<open>Textures\<close>

text \<open>A function of libvita2d that makes a texture, or fails.\<close>

definition make_texture :: "screen_env \<Rightarrow> screen_call \<Rightarrow> nat option screen_m" where
  "make_texture env c s =
     (if ask (sc_ok env) s c
      then Some (Inr (Some (next_tex s)), (did c s)\<lparr>live_tex := (live_tex s)(next_tex s := True), next_tex := next_tex s + 1\<rparr>)
      else Some (Inr None, did c s))"

text \<open>
  \<open>if (textureId = new_texture(texture) < 0)\<close> assigns the result of the comparison, so the
  number handed to the script is 0 whenever there is no error.
\<close>

definition register_texture :: "string \<Rightarrow> nat option \<Rightarrow> jsval screen_m" where
  "register_texture msg texture =
     jbind (new_texture texture) (\<lambda>r.
       let textureId = (if r < 0 then 1 else 0 :: int) in
       if textureId \<noteq> 0 then jthrow (InternalError msg) else jret (JInt textureId))"

definition vitajs_create_empty_texture :: "js_engine \<Rightarrow> screen_env \<Rightarrow> jsval list \<Rightarrow> jsval screen_m" where
  "vitajs_create_empty_texture js env argv =
     (if length argv \<noteq> 2 then wrong_args ''two (w, h: number)''
      else jbind (free_args argv) (\<lambda>_.
        jbind (make_texture env (CreateTexture (uint_arg js argv 0) (uint_arg js argv 1))) (\<lambda>texture.
        register_texture ''failed to create empty texture (1)'' texture)))"

definition vitajs_create_empty_texture_format :: "js_engine \<Rightarrow> screen_env \<Rightarrow> jsval list \<Rightarrow> jsval screen_m" where
  "vitajs_create_empty_texture_format js env argv =
     (if length argv \<noteq> 3 then wrong_args ''three (w, h, format: number)''
      else jbind (free_args argv) (\<lambda>_.
        jbind (make_texture env (CreateTextureFormat (uint_arg js argv 0) (uint_arg js argv 1) (uint_arg js argv 2))) (\<lambda>texture.
        register_texture ''failed to create empty texture with format (1)'' texture)))"

definition vitajs_create_empty_texture_rendertarget :: "js_engine \<Rightarrow> screen_env \<Rightarrow> jsval list \<Rightarrow> jsval screen_m" where
  "vitajs_create_empty_texture_rendertarget js env argv =
     (if length argv \<noteq> 3 then wrong_args ''three (width, height, format: number)''
      else jbind (free_args argv) (\<lambda>_.
        jbind (make_texture env (CreateTextureTarget (uint_arg js argv 0) (uint_arg js argv 1) (uint_arg js argv 2))) (\<lambda>texture.
        register_texture ''failed to create empty render target texture (1)'' texture)))"

definition range_error :: "'a screen_m" where
  "range_error = jthrow (RangeError ''textureId must be greater than 0 and lesser than 255.'')"

definition vitajs_free_texture :: "js_engine \<Rightarrow> jsval list \<Rightarrow> jsval screen_m" where
  "vitajs_free_texture js argv =
     (if length argv \<noteq> 1 then wrong_args ''one (textureId: number)''
      else let textureId = to_s32 (int (uint_arg js argv 0)) in
        jbind (jget numTextures) (\<lambda>n.
          if textureId < 0 \<or> textureId \<ge> int n then range_error
          else jbind (del_texture textureId) (\<lambda>r.
            if r < 0 then jthrow (InternalError (''trying to free a null texture, id '' @ dec textureId @ ''.''))
            else jret (JBool True))))"

text \<open>
  The other functions on textures (\<open>texture_get_width\<close> and the rest of the getters,
  \<open>texture_set_filters\<close>, \<open>draw_texture_rotate\<close> and the other variants,
  \<open>draw_array_textured\<close>) pass \<open>textureId\<close>, which is 0, where \<open>JS_ToUint32\<close> wants its
  address: the store goes through NULL, and what follows it is never reached.
\<close>

definition texture_fn :: "nat \<Rightarrow> string \<Rightarrow> jsval list \<Rightarrow> jsval screen_m" where
  "texture_fn arity usage argv = (if length argv \<noteq> arity then wrong_args usage else jundef)"

definition vitajs_draw_texture :: "js_engine \<Rightarrow> jsval list \<Rightarrow> jsval screen_m" where
  "vitajs_draw_texture js argv =
     (if length argv \<noteq> 3 then wrong_args ''three (textureId: number, x, y: number)''
      else let textureId = uint_arg js argv 0 in
        jbind (free_args [argv ! 0]) (\<lambda>_.
        jbind (jget numTextures) (\<lambda>n.
          if textureId \<ge> n then range_error
          else jbind (get_texture (int textureId)) (\<lambda>textureData.
            case tx_texture textureData of
              None \<Rightarrow> jthrow (InternalError (''trying to access a null texture, id '' @ dec (int textureId) @ ''.''))
            | Some t \<Rightarrow>
              jbind (jget (\<lambda>s. live_tex s t)) (\<lambda>ok.
                if \<not> ok then jundef
                else jbind (issue (DrawTexture t (uint_float (uint_arg js argv 1)) (uint_float (uint_arg js argv 2)))) (\<lambda>_.
                  jbind (free_args [argv ! 1, argv ! 2]) (\<lambda>_. jret JUndefined)))))))"

text \<open>
  \<open>JS_ToCString\<close> of an ASCII string points into the string of the argument, which outlives
  \<open>JS_FreeCString\<close>; any other text is a copy, gone after it.
\<close>

fun text_outlives :: "jsval \<Rightarrow> bool" where
  "text_outlives (JString t) = (\<forall>c \<in> set t. of_char c < (128 :: nat))"
| "text_outlives v = False"

text \<open>The PNG loader puts the file name into its message after giving it back.\<close>

definition vitajs_load_PNG_file :: "js_engine \<Rightarrow> screen_env \<Rightarrow> jsval list \<Rightarrow> jsval screen_m" where
  "vitajs_load_PNG_file js env argv =
     (if length argv \<noteq> 1 then wrong_args ''one (filename: string)''
      else jbind (get_text js (argv ! 0)) (\<lambda>filename.
        jbind (make_texture env (LoadPNG filename)) (\<lambda>texture.
        jbind free_cstring (\<lambda>_.
          if texture = None
          then if text_outlives (argv ! 0) then jthrow (InternalError (''failed to create png image ('' @ filename @ '').'')) else jundef
          else jbind (new_texture texture) (\<lambda>textureId.
            if textureId < 0 then jthrow (InternalError (''failed to create png texture ('' @ dec textureId @ '')''))
            else jret (JInt textureId))))))"

definition load_image :: "js_engine \<Rightarrow> screen_env \<Rightarrow> (string \<Rightarrow> screen_call) \<Rightarrow> string \<Rightarrow> jsval list \<Rightarrow> jsval screen_m" where
  "load_image js env call kind argv =
     (if length argv \<noteq> 1 then wrong_args ''one (filename: string)''
      else jbind (get_text js (argv ! 0)) (\<lambda>filename.
        jbind (make_texture env (call filename)) (\<lambda>texture.
        jbind free_cstring (\<lambda>_.
          if texture = None then jthrow (InternalError (''failed to create '' @ kind @ '' image.''))
          else register_texture (''failed to create '' @ kind @ '' texture.'') texture))))"

definition vitajs_load_JPEG_file :: "js_engine \<Rightarrow> screen_env \<Rightarrow> jsval list \<Rightarrow> jsval screen_m" where
  "vitajs_load_JPEG_file js env = load_image js env LoadJPEG ''jpg''"

definition vitajs_load_BMP_file :: "js_engine \<Rightarrow> screen_env \<Rightarrow> jsval list \<Rightarrow> jsval screen_m" where
  "vitajs_load_BMP_file js env = load_image js env LoadBMP ''bmp''"

subsection \<open>The module as a transition system\<close>

datatype screen_op =
    S_clear | S_call screen_call | S_unavailable string | S_region_clip | S_set_clip | S_get_clip | S_blend
  | S_pixel | S_line | S_rectangle | S_circle | S_array2 | S_create | S_create_format | S_create_target
  | S_free | S_texture nat string | S_draw | S_png | S_jpg | S_bmp | S_init

text \<open>The calls \<open>void_call\<close> is used for.\<close>

definition plain_calls :: "screen_call list" where
  "plain_calls = [StartDrawing, EndDrawing, DialogUpdate, SwapBuffers, WaitRenderingDone, WaitVblank, GetContext, DisableClipping, GetClippingEnabled]"

fun screen_exec :: "js_engine \<Rightarrow> screen_env \<Rightarrow> screen_op \<Rightarrow> jsval list \<Rightarrow> jsval screen_m" where
  "screen_exec js env S_clear = vitajs_clear js"
| "screen_exec js env (S_call c) = (if c \<in> set plain_calls then void_call c else unavailable ''not a function'')"
| "screen_exec js env (S_unavailable msg) = unavailable msg"
| "screen_exec js env S_region_clip = vitajs_set_region_clip js"
| "screen_exec js env S_set_clip = vitajs_set_clip_rectangle js"
| "screen_exec js env S_get_clip = vitajs_get_clip_rectangle"
| "screen_exec js env S_blend = vitajs_set_blend_mode_add js"
| "screen_exec js env S_pixel = vitajs_draw_pixel js"
| "screen_exec js env S_line = vitajs_draw_line js"
| "screen_exec js env S_rectangle = vitajs_draw_rectangle js"
| "screen_exec js env S_circle = vitajs_draw_fill_circle js"
| "screen_exec js env S_array2 = vitajs_draw_array2"
| "screen_exec js env S_create = vitajs_create_empty_texture js env"
| "screen_exec js env S_create_format = vitajs_create_empty_texture_format js env"
| "screen_exec js env S_create_target = vitajs_create_empty_texture_rendertarget js env"
| "screen_exec js env S_free = vitajs_free_texture js"
| "screen_exec js env (S_texture arity usage) = texture_fn arity usage"
| "screen_exec js env S_draw = vitajs_draw_texture js"
| "screen_exec js env S_png = vitajs_load_PNG_file js env"
| "screen_exec js env S_jpg = vitajs_load_JPEG_file js env"
| "screen_exec js env S_bmp = vitajs_load_BMP_file js env"
| "screen_exec js env S_init = (\<lambda>argv. jbind screen_init (\<lambda>_. jret JUndefined))"

inductive screen_step :: "js_engine \<Rightarrow> screen_env \<Rightarrow> screen_state \<Rightarrow> screen_state \<Rightarrow> bool" for js env where
  screen_call: "screen_exec js env op argv s = Some (r, s') \<Longrightarrow> screen_step js env s s'"

inductive_cases screen_stepE: "screen_step js env s s'"

end
