(* ===== verification/Screen_Props.thy ===== *)
theory Screen_Props
  imports Screen
begin

text \<open>
  The texture table: every texture in it is live and in one place, nothing that is not live is
  drawn or freed; the numbers of textures are never used again, and creating an empty texture
  does not tell its number.
\<close>

subsection \<open>Functions that keep an invariant when they return\<close>

definition jpart :: "('s \<Rightarrow> bool) \<Rightarrow> ('s, 'a) jsm \<Rightarrow> bool" where
  "jpart I m \<longleftrightarrow> (\<forall>s r s'. I s \<longrightarrow> m s = Some (r, s') \<longrightarrow> I s')"

lemma jpart_bind:
  assumes "jpart I m" and "\<And>x. jpart I (k x)"
  shows "jpart I (jbind m k)"
  unfolding jpart_def
proof (intro allI impI)
  fix s r s'
  assume s: "I s" and run: "jbind m k s = Some (r, s')"
  then obtain q s1 where m: "m s = Some (q, s1)" by (cases "m s") (auto simp: jbind_def)
  with assms(1) s have "I s1" unfolding jpart_def by blast
  with m run assms(2) show "I s'" by (cases q) (auto simp: jbind_def jpart_def)
qed

lemma jpart_simps [simp]:
  "jpart I (jret x)" "jpart I (jthrow e)" "jpart I jundef" "jpart I (jget f)" "jpart I (jlift r)"
  by (cases r; simp add: jpart_def jm_defs)+

lemma jpart_modify: "(\<And>s. I s \<Longrightarrow> I (f s)) \<Longrightarrow> jpart I (jmodify f)"
  by (simp add: jpart_def jmodify_def)

lemma jpart_if: "jpart I m \<Longrightarrow> jpart I m' \<Longrightarrow> jpart I (if b then m else m')"
  by simp

lemma jpart_option: "jpart I a \<Longrightarrow> (\<And>x. jpart I (b x)) \<Longrightarrow> jpart I (case v of None \<Rightarrow> a | Some x \<Rightarrow> b x)"
  by (cases v) auto

subsection \<open>The invariant\<close>

definition slot :: "screen_state \<Rightarrow> nat \<Rightarrow> nat option" where
  "slot s i = tx_texture (textures s ! i)"

definition tex_inv :: "screen_state \<Rightarrow> bool" where
  "tex_inv s \<longleftrightarrow> length (textures s) = 255 \<and> numTextures s \<le> 255 \<and>
     (\<forall>i < 255. \<forall>t. slot s i = Some t \<longrightarrow> i < numTextures s \<and> live_tex s t) \<and>
     (\<forall>i < 255. \<forall>j < 255. \<forall>t. slot s i = Some t \<longrightarrow> slot s j = Some t \<longrightarrow> i = j) \<and>
     (\<forall>t. live_tex s t \<longrightarrow> t < next_tex s)"

text \<open>The texture a function holds before it is in the table.\<close>

definition fresh_tex :: "nat option \<Rightarrow> screen_state \<Rightarrow> bool" where
  "fresh_tex x s \<longleftrightarrow> (\<forall>t. x = Some t \<longrightarrow> live_tex s t \<and> (\<forall>i < 255. slot s i \<noteq> Some t))"

lemma tex_inv_start: "tex_inv screen_start"
  by (simp add: tex_inv_def screen_start_def slot_def no_texture_def MAX_TEXTURES_def)

lemma did_screen [simp]:
  "textures (did c s) = textures s" "numTextures (did c s) = numTextures s" "live_tex (did c s) = live_tex s" "next_tex (did c s) = next_tex s"
  by (simp_all add: did_def)

lemma slot_did [simp]: "slot (did c s) = slot s"
  by (simp add: slot_def fun_eq_iff)

lemma slot_same [simp]:
  "slot (s\<lparr>cstrings := n\<rparr>) = slot s" "slot (s\<lparr>numTextures := n\<rparr>) = slot s" "slot (s\<lparr>live_tex := l\<rparr>) = slot s" "slot (s\<lparr>next_tex := n\<rparr>) = slot s"
  by (simp_all add: slot_def fun_eq_iff)

lemma slot_update:
  "n < length (textures s) \<Longrightarrow> slot (s\<lparr>numTextures := m, textures := (textures s)[n := d]\<rparr>) i = (if i = n then tx_texture d else slot s i)"
  "n < length (textures s) \<Longrightarrow> slot (s\<lparr>textures := (textures s)[n := d]\<rparr>) i = (if i = n then tx_texture d else slot s i)"
  by (simp_all add: slot_def)

lemma tex_invI:
  assumes "length (textures s) = 255" and "numTextures s \<le> 255" and "\<And>i t. i < 255 \<Longrightarrow> slot s i = Some t \<Longrightarrow> i < numTextures s \<and> live_tex s t"
    and "\<And>i j t. i < 255 \<Longrightarrow> j < 255 \<Longrightarrow> slot s i = Some t \<Longrightarrow> slot s j = Some t \<Longrightarrow> i = j"
    and "\<And>t. live_tex s t \<Longrightarrow> t < next_tex s"
  shows "tex_inv s"
  using assms unfolding tex_inv_def by blast

lemma tex_invD:
  assumes "tex_inv s"
  shows "length (textures s) = 255" and "numTextures s \<le> 255" and "i < 255 \<Longrightarrow> slot s i = Some t \<Longrightarrow> i < numTextures s \<and> live_tex s t"
    and "i < 255 \<Longrightarrow> j < 255 \<Longrightarrow> slot s i = Some t \<Longrightarrow> slot s j = Some t \<Longrightarrow> i = j"
    and "live_tex s t \<Longrightarrow> t < next_tex s"
  using assms unfolding tex_inv_def by blast+

subsection \<open>The table keeps it\<close>

lemma new_texture_runs:
  assumes "tex_inv s" and "fresh_tex x s"
  shows "\<exists>r s'. new_texture x s = Some (Inr r, s') \<and> tex_inv s' \<and> cstrings s' = cstrings s \<and> live_tex s' = live_tex s \<and>
    numTextures s \<le> numTextures s' \<and>
    (if numTextures s = 255 then r < 0 \<and> s' = s else r = int (numTextures s) \<and>
       numTextures s' = Suc (numTextures s) \<and> slot s' (numTextures s) = x \<and> (\<forall>i < 255. i \<noteq> numTextures s \<longrightarrow> slot s' i = slot s i))"
proof (cases "numTextures s = 255")
  case True
  with assms show ?thesis by (simp add: new_texture_def jm_defs MAX_TEXTURES_def)
next
  case False
  note inv = tex_invD [OF assms(1)]
  with False have n: "numTextures s < 255" by simp
  define s' where "s' = s\<lparr>numTextures := numTextures s + 1, textures := (textures s)[numTextures s := \<lparr>tx_id = int (numTextures s), tx_texture = x\<rparr>]\<rparr>"
  have sl: "slot s' i = (if i = numTextures s then x else slot s i)" for i using n inv(1) by (simp add: s'_def slot_update)
  have rest: "length (textures s') = 255" "numTextures s' = numTextures s + 1" "live_tex s' = live_tex s" "next_tex s' = next_tex s" "cstrings s' = cstrings s"
    using inv(1) by (simp_all add: s'_def)
  have "tex_inv s'"
  proof (rule tex_invI)
    show "length (textures s') = 255" "numTextures s' \<le> 255" using rest n by simp_all
    show "i < numTextures s' \<and> live_tex s' t" if "i < 255" "slot s' i = Some t" for i t
      using that inv(3) [of i t] assms(2) rest by (auto simp: sl fresh_tex_def split: if_splits)
    show "i = j" if "i < 255" "j < 255" "slot s' i = Some t" "slot s' j = Some t" for i j t
      using that inv(4) [of i j t] assms(2) n by (auto simp: sl fresh_tex_def split: if_splits)
    show "t < next_tex s'" if "live_tex s' t" for t using that inv(5) rest by simp
  qed
  moreover have "new_texture x s = Some (Inr (int (numTextures s)), s')"
    using n by (simp add: new_texture_def jm_defs MAX_TEXTURES_def s'_def)
  ultimately show ?thesis using n rest sl by simp
qed

lemma del_texture_runs:
  assumes "tex_inv s" and "0 \<le> k" and "k < int (numTextures s)"
  shows "\<exists>s'. del_texture k s = Some (Inr 0, s') \<and> tex_inv s' \<and> cstrings s' = cstrings s \<and> numTextures s' = numTextures s"
proof -
  note inv = tex_invD [OF assms(1)]
  define n where "n = nat k"
  have n: "n < 255" "n < length (textures s)" using assms(2,3) inv(1,2) by (simp_all add: n_def)
  define s1 where "s1 = (case slot s n of None \<Rightarrow> did (FreeTexture None) s | Some t \<Rightarrow> (did (FreeTexture (Some t)) s)\<lparr>live_tex := (live_tex s)(t := False)\<rparr>)"
  define s2 where "s2 = s1\<lparr>textures := (textures s1)[n := no_texture]\<rparr>"
  have s1: "textures s1 = textures s" "numTextures s1 = numTextures s" "next_tex s1 = next_tex s" "cstrings s1 = cstrings s"
    "live_tex s1 = (case slot s n of None \<Rightarrow> live_tex s | Some t \<Rightarrow> (live_tex s)(t := False))"
    by (simp_all add: s1_def split: option.splits)
  have sl: "slot s2 i = (if i = n then None else slot s i)" for i
    using n(2) s1(1) slot_update(2) [of n s1 no_texture i] by (simp add: s2_def no_texture_def) (simp add: slot_def)
  have s2: "length (textures s2) = 255" "numTextures s2 = numTextures s" "next_tex s2 = next_tex s" "live_tex s2 = live_tex s1"
    using inv(1) s1 by (simp_all add: s2_def)
  have "vita2d_free_texture (tx_texture (textures s ! n)) s = Some (Inr (), s1)"
    using inv(3) [OF n(1)] by (simp add: vita2d_free_texture_def s1_def slot_def split: option.splits)
  then have "del_texture k s = Some (Inr 0, s2)"
    using assms(2,3) by (simp add: del_texture_def jm_defs s2_def n_def)
  moreover have "tex_inv s2"
  proof (rule tex_invI)
    show "length (textures s2) = 255" "numTextures s2 \<le> 255" using inv(2) s2 by simp_all
    show "i < numTextures s2 \<and> live_tex s2 t" if "i < 255" "slot s2 i = Some t" for i t
      using that inv(3) [of i t] inv(4) [of i n] n(1) by (auto simp: sl s2 s1(5) split: if_splits option.splits)
    show "i = j" if "i < 255" "j < 255" "slot s2 i = Some t" "slot s2 j = Some t" for i j t
      using that inv(4) [of i j t] by (auto simp: sl split: if_splits)
    show "t < next_tex s2" if "live_tex s2 t" for t
      using that inv(5) [of t] by (auto simp: s2 s1(5) split: option.splits if_splits)
  qed
  ultimately show ?thesis using s1 by (simp add: s2_def)
qed

lemma make_texture_runs:
  assumes "tex_inv s"
  shows "\<exists>x s'. make_texture env c s = Some (Inr x, s') \<and> tex_inv s' \<and> fresh_tex x s' \<and> cstrings s' = cstrings s \<and>
    numTextures s' = numTextures s \<and> slot s' = slot s \<and> x = (if sc_ok env (trace s) c then Some (next_tex s) else None)"
proof (cases "sc_ok env (trace s) c")
  case False
  with assms show ?thesis by (simp add: make_texture_def ask_def fresh_tex_def tex_inv_def)
next
  case True
  note inv = tex_invD [OF assms]
  define s' where "s' = (did c s)\<lparr>live_tex := (live_tex s)(next_tex s := True), next_tex := next_tex s + 1\<rparr>"
  have new: "slot s i \<noteq> Some (next_tex s)" if "i < 255" for i using inv(3) [OF that] inv(5) by blast
  have "tex_inv s'"
    using inv(1,2) inv(3) inv(4) less_SucI [OF inv(5)] by (intro tex_invI) (auto simp: s'_def split: if_splits)
  moreover have "fresh_tex (Some (next_tex s)) s'" using new by (simp add: fresh_tex_def s'_def)
  ultimately show ?thesis using True by (simp add: make_texture_def ask_def s'_def)
qed

subsection \<open>Every operation keeps it\<close>

definition tex_ok :: "nat \<Rightarrow> screen_state \<Rightarrow> bool" where
  "tex_ok k s \<longleftrightarrow> tex_inv s \<and> cstrings s = 0 \<and> k \<le> numTextures s"

lemma tex_inv_did [simp]: "tex_inv (did c s) = tex_inv s"
  by (simp add: tex_inv_def)

lemma tex_ok_did [simp]: "tex_ok k (did c s) = tex_ok k s"
  by (simp add: tex_ok_def)

lemma part_issue [simp]: "jpart (tex_ok k) (issue c)"
  unfolding issue_def by (rule jpart_modify) simp

lemma part_free_args [simp]: "jpart I (free_args vs)"
  by (simp add: free_args_def)

lemma part_wrong_args [simp]: "jpart I (wrong_args usage)" "jpart I range_error"
  by (simp_all add: wrong_args_def range_error_def)

lemmas part_rules = jpart_bind jpart_if jpart_option jpart_simps part_issue part_free_args part_wrong_args

lemma part_drawing:
  "jpart (tex_ok k) (vitajs_clear js argv)" "jpart (tex_ok k) (void_call c argv)" "jpart (tex_ok k) (unavailable msg argv)"
  "jpart (tex_ok k) (vitajs_set_region_clip js argv)" "jpart (tex_ok k) (vitajs_set_clip_rectangle js argv)"
  "jpart (tex_ok k) (vitajs_get_clip_rectangle argv)" "jpart (tex_ok k) (vitajs_set_blend_mode_add js argv)"
  "jpart (tex_ok k) (vitajs_draw_pixel js argv)" "jpart (tex_ok k) (vitajs_draw_line js argv)"
  "jpart (tex_ok k) (vitajs_draw_rectangle js argv)" "jpart (tex_ok k) (vitajs_draw_fill_circle js argv)"
  "jpart (tex_ok k) (vitajs_draw_array2 argv)" "jpart (tex_ok k) (texture_fn n usage argv)"
  "jpart (tex_ok k) (vitajs_draw_texture js argv)"
  unfolding vitajs_clear_def void_call_def unavailable_def vitajs_set_region_clip_def vitajs_set_clip_rectangle_def
    vitajs_get_clip_rectangle_def vitajs_set_blend_mode_add_def vitajs_draw_pixel_def vitajs_draw_line_def
    vitajs_draw_rectangle_def vitajs_draw_fill_circle_def vitajs_draw_array2_def texture_fn_def vitajs_draw_texture_def
    get_texture_def Let_def
  by (intro part_rules)+

text \<open>A texture made and put into the table, and the loaders, which borrow a string meanwhile.\<close>

lemma register_runs:
  assumes "tex_ok k s" and "fresh_tex x s"
  shows "\<exists>r s'. register_texture msg x s = Some (r, s') \<and> tex_ok k s' \<and>
    (if numTextures s = 255 then r = Inl (InternalError msg) \<and> s' = s
     else r = Inr (JInt 0) \<and> numTextures s' = Suc (numTextures s) \<and> slot s' (numTextures s) = x \<and> (\<forall>i < 255. i \<noteq> numTextures s \<longrightarrow> slot s' i = slot s i))"
  using new_texture_runs [OF _ assms(2)] assms(1)
  by (cases "numTextures s = 255") (auto simp: tex_ok_def register_texture_def jbind_def jret_def jthrow_def)

lemma create_runs:
  assumes "tex_ok k s"
  shows "\<exists>r s'. jbind (make_texture env c) (register_texture msg) s = Some (r, s') \<and> tex_ok k s' \<and>
    (sc_ok env (trace s) c \<and> numTextures s < 255 \<longrightarrow>
       r = Inr (JInt 0) \<and> slot s' (numTextures s) = Some (next_tex s) \<and> (\<forall>i < 255. i \<noteq> numTextures s \<longrightarrow> slot s' i = slot s i))"
proof -
  obtain x s1 where m: "make_texture env c s = Some (Inr x, s1)" "tex_inv s1" "fresh_tex x s1" "cstrings s1 = cstrings s"
    "numTextures s1 = numTextures s" "slot s1 = slot s" "x = (if sc_ok env (trace s) c then Some (next_tex s) else None)"
    using make_texture_runs assms unfolding tex_ok_def by blast
  with assms have "tex_ok k s1" by (simp add: tex_ok_def)
  from register_runs [OF this m(3), of msg] m show ?thesis by (auto simp: jbind_def split: if_splits)
qed

lemma part_create:
  "jpart (tex_ok k) (vitajs_create_empty_texture js env argv)" "jpart (tex_ok k) (vitajs_create_empty_texture_format js env argv)"
  "jpart (tex_ok k) (vitajs_create_empty_texture_rendertarget js env argv)"
proof -
  have create: "jpart (tex_ok k) (jbind (make_texture env c) (register_texture msg))" for c msg
    unfolding jpart_def
  proof (intro allI impI)
    fix s :: screen_state and r s'
    assume "tex_ok k s" "jbind (make_texture env c) (register_texture msg) s = Some (r, s')"
    with create_runs [of k s env c msg] show "tex_ok k s'" by auto
  qed
  show "jpart (tex_ok k) (vitajs_create_empty_texture js env argv)" "jpart (tex_ok k) (vitajs_create_empty_texture_format js env argv)"
    "jpart (tex_ok k) (vitajs_create_empty_texture_rendertarget js env argv)"
    unfolding vitajs_create_empty_texture_def vitajs_create_empty_texture_format_def vitajs_create_empty_texture_rendertarget_def
    by (intro jpart_if part_wrong_args jpart_bind [OF part_free_args] create)+
qed

lemma part_free: "jpart (tex_ok k) (vitajs_free_texture js argv)"
proof -
  have del: "tex_ok k s'" if "tex_ok k s" "0 \<le> i" "i < int (numTextures s)" "del_texture i s = Some (r, s')" for s s' i r
    using del_texture_runs [of s i] that by (auto simp: tex_ok_def)
  show ?thesis
    unfolding jpart_def
  proof (intro allI impI)
    fix s :: screen_state and r s'
    assume s: "tex_ok k s" and run: "vitajs_free_texture js argv s = Some (r, s')"
    let ?id = "to_s32 (int (uint_arg js argv 0))"
    show "tex_ok k s'"
    proof (cases "length argv = 1 \<and> 0 \<le> ?id \<and> ?id < int (numTextures s)")
      case False
      with run have "s' = s" by (auto simp: vitajs_free_texture_def wrong_args_def range_error_def jm_defs Let_def split: if_splits)
      with s show ?thesis by simp
    next
      case True
      from del_texture_runs [of s ?id] s True obtain s1 where "del_texture ?id s = Some (Inr 0, s1)" by (auto simp: tex_ok_def)
      with del [OF s _ _ this] True run show ?thesis by (auto simp: vitajs_free_texture_def jm_defs Let_def)
    qed
  qed
qed

lemma load_start:
  assumes "tex_ok k s" and "ToCString js v = Some path"
  shows "\<exists>x s1. jbind (get_text js v) (\<lambda>f. jbind (make_texture env (c f)) (\<lambda>x. jbind free_cstring (\<lambda>_. K f x))) s = K path x s1 \<and>
    tex_ok k s1 \<and> fresh_tex x s1 \<and> slot s1 = slot s \<and> numTextures s1 = numTextures s \<and>
    x = (if sc_ok env (trace s) (c path) then Some (next_tex s) else None)"
proof -
  define s0 where "s0 = s\<lparr>cstrings := cstrings s + 1\<rparr>"
  have s0: "tex_inv s0" "cstrings s0 = 1" "numTextures s0 = numTextures s" "slot s0 = slot s" "trace s0 = trace s" "next_tex s0 = next_tex s"
    using assms(1) by (simp_all add: s0_def tex_ok_def tex_inv_def)
  obtain x s1 where m: "make_texture env (c path) s0 = Some (Inr x, s1)" "tex_inv s1" "fresh_tex x s1" "cstrings s1 = cstrings s0"
    "numTextures s1 = numTextures s0" "slot s1 = slot s0" "x = (if sc_ok env (trace s0) (c path) then Some (next_tex s0) else None)"
    using make_texture_runs [OF s0(1)] by blast
  have "get_text js v s = Some (Inr path, s0)" using assms(2) by (simp add: get_text_def jm_defs s0_def)
  then have "jbind (get_text js v) (\<lambda>f. jbind (make_texture env (c f)) (\<lambda>x. jbind free_cstring (\<lambda>_. K f x))) s = K path x (s1\<lparr>cstrings := 0\<rparr>)"
    using m(1,4) s0(2) by (simp add: jbind_def free_cstring_def)
  moreover have "tex_ok k (s1\<lparr>cstrings := 0\<rparr>)" using m(2,5) s0 assms(1) by (simp add: tex_ok_def tex_inv_def)
  moreover have "fresh_tex x (s1\<lparr>cstrings := 0\<rparr>)" using m(3) by (simp add: fresh_tex_def)
  ultimately show ?thesis using m s0 by (intro exI [of _ x] exI [of _ "s1\<lparr>cstrings := 0\<rparr>"]) simp
qed

lemma load_fails: "ToCString js v = None \<Longrightarrow> jbind (get_text js v) K s = Some (Inl Pending, s)"
  by (simp add: get_text_def jm_defs)

lemma part_load:
  assumes "\<And>f x s r s'. tex_ok k s \<Longrightarrow> fresh_tex x s \<Longrightarrow> K f x s = Some (r, s') \<Longrightarrow> tex_ok k s'"
  shows "jpart (tex_ok k) (jbind (get_text js v) (\<lambda>f. jbind (make_texture env (c f)) (\<lambda>x. jbind free_cstring (\<lambda>_. K f x))))"
  unfolding jpart_def
proof (intro allI impI)
  fix s :: screen_state and r s'
  assume s: "tex_ok k s" and run: "jbind (get_text js v) (\<lambda>f. jbind (make_texture env (c f)) (\<lambda>x. jbind free_cstring (\<lambda>_. K f x))) s = Some (r, s')"
  show "tex_ok k s'"
  proof (cases "ToCString js v")
    case None
    with s run show ?thesis by (simp add: load_fails)
  next
    case (Some path)
    obtain x s1 where l: "jbind (get_text js v) (\<lambda>f. jbind (make_texture env (c f)) (\<lambda>x. jbind free_cstring (\<lambda>_. K f x))) s = K path x s1"
      "tex_ok k s1" "fresh_tex x s1" using load_start [where K = K, OF s Some] by blast
    from l(1) run have "K path x s1 = Some (r, s')" by simp
    then show ?thesis by (rule assms [OF l(2,3)])
  qed
qed

lemma part_images:
  "jpart (tex_ok k) (vitajs_load_PNG_file js env argv)" "jpart (tex_ok k) (load_image js env call kind argv)"
proof -
  have png: "tex_ok k s'" if h: "tex_ok k s" "fresh_tex x s"
    "(if x = None then if text_outlives v then jthrow e else jundef
      else jbind (new_texture x) (\<lambda>i. if i < 0 then jthrow (e' i) else jret (JInt i))) s = Some (r, s')" for s x v e e' r s'
  proof (cases "x = None")
    case True
    with h show ?thesis by (auto simp: jthrow_def jundef_def split: if_splits)
  next
    case False
    obtain i s1 where "new_texture x s = Some (Inr i, s1)" "tex_inv s1" "cstrings s1 = cstrings s" "numTextures s \<le> numTextures s1"
      using new_texture_runs [OF _ h(2)] h(1) unfolding tex_ok_def by blast
    with False h show ?thesis by (auto simp: jbind_def jthrow_def jret_def tex_ok_def split: if_splits)
  qed
  have image: "tex_ok k s'" if h: "tex_ok k s" "fresh_tex x s"
    "(if x = None then jthrow e else register_texture msg x) s = Some (r, s')" for s x e msg r s'
  proof (cases "x = None")
    case True
    with h show ?thesis by (auto simp: jthrow_def)
  next
    case False
    with register_runs [OF h(1,2), of msg] h(3) show ?thesis by auto
  qed
  show "jpart (tex_ok k) (vitajs_load_PNG_file js env argv)"
    unfolding vitajs_load_PNG_file_def by (intro jpart_if part_wrong_args part_load) (rule png)
  show "jpart (tex_ok k) (load_image js env call kind argv)"
    unfolding load_image_def by (intro jpart_if part_wrong_args part_load) (rule image)
qed

lemma part_init: "jpart (tex_ok k) (jbind screen_init (\<lambda>_. jret JUndefined))"
  unfolding screen_init_def
  by (intro jpart_bind jpart_modify jpart_simps)
    (auto simp: tex_ok_def tex_inv_def slot_def no_texture_def MAX_TEXTURES_def)

lemma screen_step_ok: "screen_step js env s t \<Longrightarrow> tex_ok k s \<Longrightarrow> tex_ok k t"
proof (erule screen_stepE)
  fix op argv r
  assume s: "tex_ok k s" and run: "screen_exec js env op argv s = Some (r, t)"
  have "jpart (tex_ok k) (screen_exec js env op argv)"
    using part_drawing part_create part_free part_images part_init
    by (cases op) (simp_all add: vitajs_load_JPEG_file_def vitajs_load_BMP_file_def)
  with s run show "tex_ok k t" by (auto simp: jpart_def)
qed

lemma tex_ok_start: "tex_ok 0 screen_start"
  using tex_inv_start by (simp add: tex_ok_def) (simp add: screen_start_def)

interpretation screen_mod: module_inv screen_start "screen_step js env" "tex_ok 0" for js env
  by unfold_locales (rule tex_ok_start, rule screen_step_ok)

subsection \<open>What is defined\<close>











subsection \<open>Properties\<close>


text \<open>A system on which every call succeeds, and a script that makes two textures.\<close>

definition demo_screen_env :: screen_env where
  "demo_screen_env = \<lparr>sc_ok = (\<lambda>h c. True)\<rparr>"

definition demo_screen :: "nat \<Rightarrow> screen_state" where
  "demo_screen n = (screen_start\<lparr>trace := replicate n (CreateTexture 8 8), numTextures := n,
     textures := map (\<lambda>i. if i < n then \<lparr>tx_id = int i, tx_texture = Some i\<rparr> else no_texture) [0 ..< 255],
     live_tex := (\<lambda>i. i < n), next_tex := n\<rparr>)"

lemma demo_screen_step: "n < 255 \<Longrightarrow> screen_step js_prim demo_screen_env (demo_screen n) (demo_screen (Suc n))"
proof (rule screen_step.screen_call [of _ _ S_create "[JInt 8, JInt 8]" _ "Inr (JInt 0)"])
  assume n: "n < 255"
  have args: "uint_arg js_prim [JInt 8, JInt 8] 0 = 8" "uint_arg js_prim [JInt 8, JInt 8] 1 = 8"
    by (simp_all add: uint_arg_def arg_def js_prim_def to_u32_def)
  have "(map (\<lambda>i. if i < n then \<lparr>tx_id = int i, tx_texture = Some i\<rparr> else no_texture) [0 ..< 255])
      [n := \<lparr>tx_id = int n, tx_texture = Some n\<rparr>]
    = map (\<lambda>i. if i < Suc n then \<lparr>tx_id = int i, tx_texture = Some i\<rparr> else no_texture) [0 ..< 255]"
    using n by (intro nth_equalityI) (auto simp: nth_list_update less_Suc_eq)
  moreover have "(\<lambda>i. i < n)(n := True) = (\<lambda>i. i < Suc n)" by (auto simp: less_Suc_eq)
  ultimately show "screen_exec js_prim demo_screen_env S_create [JInt 8, JInt 8] (demo_screen n) = Some (Inr (JInt 0), demo_screen (Suc n))"
    using n args
    by (simp add: vitajs_create_empty_texture_def free_args_def make_texture_def register_texture_def new_texture_def demo_screen_def
        demo_screen_env_def jm_defs ask_def did_def MAX_TEXTURES_def Let_def)
qed

lemma demo_screen_reachable: "n \<le> 255 \<Longrightarrow> (screen_step js_prim demo_screen_env)\<^sup>*\<^sup>* screen_start (demo_screen n)"
proof (induction n)
  case 0
  have "demo_screen 0 = screen_start"
    by (simp add: demo_screen_def screen_start_def MAX_TEXTURES_def map_replicate_const)
  then show ?case by simp
next
  case (Suc n)
  then show ?case using demo_screen_step [of n] by (auto intro: rtranclp.rtrancl_into_rtrancl)
qed


text \<open>
  C37.  Once 255 textures have been made, freeing them does not help: in every later state a PNG
  that libvita2d loads is refused, and the texture it was loaded into stays live in no slot, out
  of reach of any script.
\<close>

theorem texture_slots_exhausted:
  assumes "(screen_step js env)\<^sup>*\<^sup>* screen_start s" and "numTextures s = 255" and "(screen_step js env)\<^sup>*\<^sup>* s s'"
    and "ToCString js v = Some path" and "sc_ok env (trace s') (LoadPNG path)"
  shows "\<exists>e s2. vitajs_load_PNG_file js env [v] s' = Some (Inl e, s2) \<and> live_tex s2 (next_tex s') \<and>
    (\<forall>i < 255. slot s2 i \<noteq> Some (next_tex s'))"
proof -
  have "tex_ok 255 s" using screen_mod.inv_reachable [OF assms(1)] assms(2) by (simp add: tex_ok_def)
  with assms(3) have ok: "tex_ok 255 s'" by (induction rule: rtranclp_induct) (auto intro: screen_step_ok)
  then have full: "numTextures s' = 255" by (auto simp: tex_ok_def tex_inv_def)
  define K where "K = (\<lambda>filename texture. if texture = None
          then if text_outlives v then jthrow (InternalError (''failed to create png image ('' @ filename @ '').'')) else jundef
          else jbind (new_texture texture) (\<lambda>textureId.
            if textureId < 0 then jthrow (InternalError (''failed to create png texture ('' @ dec textureId @ '')''))
            else jret (JInt textureId)))"
  have png: "vitajs_load_PNG_file js env [v] s' =
      jbind (get_text js v) (\<lambda>f. jbind (make_texture env (LoadPNG f)) (\<lambda>x. jbind free_cstring (\<lambda>_. K f x))) s'"
    by (simp add: vitajs_load_PNG_file_def K_def cong: if_cong)
  obtain x s1 where l: "vitajs_load_PNG_file js env [v] s' = K path x s1"
    "tex_ok 255 s1" "fresh_tex x s1" "numTextures s1 = numTextures s'" "x = Some (next_tex s')"
    using load_start [OF ok assms(4), of env LoadPNG K] assms(5) unfolding png by auto
  obtain r where "new_texture x s1 = Some (Inr r, s1)" "r < 0"
    using new_texture_runs [OF _ l(3)] l(2,4) full by (auto simp: tex_ok_def)
  with l show ?thesis by (simp add: K_def jbind_def jthrow_def fresh_tex_def)
qed

theorem texture_slots_exhausted_witness:
  "\<exists>e s2. vitajs_load_PNG_file js_prim demo_screen_env [JString ''a.png''] (demo_screen 255) = Some (Inl e, s2) \<and> live_tex s2 255"
  using texture_slots_exhausted [OF demo_screen_reachable [OF order.refl] _ rtranclp.rtrancl_refl, of "JString ''a.png''" "''a.png''"]
  by (simp add: demo_screen_def demo_screen_env_def js_prim_def) blast

text \<open>
  C38.  Creating an empty texture stores it in the next slot but answers 0, the number of the
  first texture, so drawing the answer draws another texture.
\<close>

theorem create_answers_zero:
  assumes "(screen_step js env)\<^sup>*\<^sup>* screen_start s" and "0 < numTextures s" and "numTextures s < 255"
    and "\<not> counted w" and "\<not> counted h"
    and "sc_ok env (trace s) (CreateTexture (uint_arg js [w, h] 0) (uint_arg js [w, h] 1))"
  shows "\<exists>s'. vitajs_create_empty_texture js env [w, h] s = Some (Inr (JInt 0), s') \<and>
    slot s' (numTextures s) = Some (next_tex s) \<and> slot s' 0 = slot s 0 \<and> slot s' 0 \<noteq> Some (next_tex s)"
proof -
  have ok: "tex_ok 0 s" using assms(1) by (rule screen_mod.inv_reachable)
  then have inv: "tex_inv s" by (simp add: tex_ok_def)
  have "slot s 0 \<noteq> Some (next_tex s)" using tex_invD(3) [OF inv, of 0 "next_tex s"] tex_invD(5) [OF inv, of "next_tex s"] by auto
  moreover have "free_args [w, h] = jret ()" using assms(4,5) by (simp add: free_args_def)
  ultimately show ?thesis
    using create_runs [OF ok, of env "CreateTexture (uint_arg js [w, h] 0) (uint_arg js [w, h] 1)" "''failed to create empty texture (1)''"] assms(2,3,6)
    by (auto simp: vitajs_create_empty_texture_def)
qed

theorem create_answers_zero_witness:
  "\<exists>s'. vitajs_create_empty_texture js_prim demo_screen_env [JInt 8, JInt 8] (demo_screen 1) = Some (Inr (JInt 0), s') \<and>
    slot s' 1 = Some 1 \<and> slot s' 0 = Some 0"
  using create_answers_zero [OF demo_screen_reachable, of 1 "JInt 8" "JInt 8"]
  by (simp add: demo_screen_def demo_screen_env_def slot_def) blast

end
