(* ===== verification/Input.thy ===== *)
theory Input
  imports Js_Monad
begin

text \<open>
  Controllers and touch panels (src/src/modules/pads.c, src/src/modules/touch.c): no state of
  their own, so a function is its checks, one system call and the object it makes of the answer.
  Answers, and the data the system writes, are parameters.  Every call that reaches the system has
  a port and strengths in the documented ranges.
\<close>

subsection \<open>System calls\<close>

datatype pad_call =
    PeekBufferPositiveExt | PeekBufferPositiveExt2 int | SetActuator int nat nat | GetBatteryInfo int
  | SetSamplingMode int | GetSamplingMode
  | TouchRead int | TouchPeek int | TouchGetPanelInfo int | TouchSetSamplingState int bool | TouchGetSamplingState int
  | TouchEnableForce int | TouchDisableForce int

record SceCtrlData =
  c_buttons :: nat
  c_lx :: nat
  c_ly :: nat
  c_rx :: nat
  c_ry :: nat
  c_timeStamp :: nat

record SceTouchReport =
  tr_id :: nat
  tr_force :: nat
  tr_x :: int
  tr_y :: int
  tr_info :: nat

record SceTouchData =
  td_timeStamp :: nat
  td_status :: nat
  td_reportNum :: nat
  td_report :: "SceTouchReport list"

record pad_env =
  p_ret :: "pad_call list \<Rightarrow> pad_call \<Rightarrow> int"
  p_data :: "pad_call list \<Rightarrow> SceCtrlData"
  p_level :: "pad_call list \<Rightarrow> nat"
  p_mode :: "pad_call list \<Rightarrow> int"
  p_touch :: "pad_call list \<Rightarrow> SceTouchData"
  p_panel :: "pad_call list \<Rightarrow> (string \<times> int) list"
  p_sampling :: "pad_call list \<Rightarrow> bool"
  touch_port_front :: int
  touch_port_back :: int

type_synonym pad_state = "pad_call traced"
type_synonym 'a pad_m = "(pad_state, 'a) jsm"

text \<open>A call with what it writes.\<close>

definition ask_pad :: "pad_env \<Rightarrow> (pad_env \<Rightarrow> pad_call list \<Rightarrow> 'a) \<Rightarrow> pad_call \<Rightarrow> (int \<times> 'a) pad_m" where
  "ask_pad env f c = jcall (\<lambda>h c. (p_ret env h c, f env h)) c"

definition do_pad :: "pad_env \<Rightarrow> pad_call \<Rightarrow> int pad_m" where
  "do_pad env c = jcall (p_ret env) c"

definition pad_error :: "string \<Rightarrow> int \<Rightarrow> 'a pad_m" where
  "pad_error name r = jthrow (InternalError (name @ '' failed: 0x'' @ hex08 r))"

subsection \<open>Controllers\<close>

definition read_pad :: "pad_env \<Rightarrow> int \<Rightarrow> (int \<times> SceCtrlData) pad_m" where
  "read_pad env port = ask_pad env p_data (if port = 0 then PeekBufferPositiveExt else PeekBufferPositiveExt2 port)"

definition parse_port :: "js_engine \<Rightarrow> jsval list \<Rightarrow> nat \<Rightarrow> int \<Rightarrow> int \<Rightarrow> int pad_m" where
  "parse_port js argv index default_port min_port =
     jbind (if length argv > index then jlift (ToInt32 js (argv ! index)) else jret default_port) (\<lambda>port.
       if port < min_port \<or> port > 5
       then jthrow (RangeError (''controller port must be between '' @ dec min_port @ '' and 5''))
       else jret port)"

definition make_pad_object :: "int \<Rightarrow> SceCtrlData \<Rightarrow> jsval" where
  "make_pad_object port pad =
     JObject [(''port'', JInt port), (''btns'', JInt (int (c_buttons pad))), (''buttons'', JInt (int (c_buttons pad))),
       (''lx'', JInt (int (c_lx pad))), (''ly'', JInt (int (c_ly pad))), (''rx'', JInt (int (c_rx pad))), (''ry'', JInt (int (c_ry pad))),
       (''timestamp'', JInt (int (c_timeStamp pad)))]"

definition vitajs_read :: "js_engine \<Rightarrow> pad_env \<Rightarrow> jsval list \<Rightarrow> jsval pad_m" where
  "vitajs_read js env argv =
     (if length argv > 1 then jthrow (SyntaxError ''read([port]) expects zero or one argument'')
      else jbind (parse_port js argv 0 0 0) (\<lambda>port.
        jbind (read_pad env port) (\<lambda>(ret, pad).
          if ret < 0 then pad_error (if port = 0 then ''sceCtrlPeekBufferPositiveExt'' else ''sceCtrlPeekBufferPositiveExt2'') ret
          else jret (make_pad_object port pad))))"

definition vitajs_analog :: "js_engine \<Rightarrow> pad_env \<Rightarrow> jsval list \<Rightarrow> jsval pad_m" where
  "vitajs_analog = vitajs_read"

definition vitajs_check :: "js_engine \<Rightarrow> pad_env \<Rightarrow> jsval list \<Rightarrow> jsval pad_m" where
  "vitajs_check js env argv =
     (if length argv < 1 \<or> length argv > 2 then jthrow (SyntaxError ''check(button[, port]) expects one or two arguments'')
      else jbind (jlift (ToUint32 js (argv ! 0))) (\<lambda>button.
        jbind (parse_port js argv 1 0 0) (\<lambda>port.
        jbind (read_pad env port) (\<lambda>(ret, pad).
          if ret < 0 then pad_error ''sceCtrlPeekBufferPositiveExt/Ext2'' ret
          else jret (JBool ((c_buttons pad AND button) \<noteq> 0))))))"

definition vitajs_rumble :: "js_engine \<Rightarrow> pad_env \<Rightarrow> jsval list \<Rightarrow> jsval pad_m" where
  "vitajs_rumble js env argv =
     (if length argv < 2 \<or> length argv > 3 then jthrow (SyntaxError ''rumble(small, large[, port]) expects 2-3 arguments'')
      else jbind (jlift (ToInt32 js (argv ! 0))) (\<lambda>small.
        jbind (jlift (ToInt32 js (argv ! 1))) (\<lambda>large.
          if small < 0 \<or> small > 255 \<or> large < 0 \<or> large > 255 then jthrow (RangeError ''small and large must be 0..255'')
          else jbind (parse_port js argv 2 1 1) (\<lambda>port.
            jbind (do_pad env (SetActuator port (nat small) (nat large))) (\<lambda>ret.
              if ret < 0 then pad_error ''sceCtrlSetActuator'' ret else jret JUndefined)))))"

definition vitajs_battery_info :: "js_engine \<Rightarrow> pad_env \<Rightarrow> jsval list \<Rightarrow> jsval pad_m" where
  "vitajs_battery_info js env argv =
     (if length argv > 1 then jthrow (SyntaxError ''battery_info([port]) expects zero or one argument'')
      else jbind (parse_port js argv 0 1 1) (\<lambda>port.
        jbind (ask_pad env p_level (GetBatteryInfo port)) (\<lambda>(ret, level).
          if ret < 0 then pad_error ''sceCtrlGetBatteryInfo'' ret else jret (JInt (int level)))))"

definition vitajs_set_sampling_mode :: "js_engine \<Rightarrow> pad_env \<Rightarrow> jsval list \<Rightarrow> jsval pad_m" where
  "vitajs_set_sampling_mode js env argv =
     (if length argv \<noteq> 1 then jthrow (SyntaxError ''setSamplingMode(mode) expects one argument'')
      else jbind (jlift (ToInt32 js (argv ! 0))) (\<lambda>m.
        jbind (do_pad env (SetSamplingMode m)) (\<lambda>ret. if ret < 0 then pad_error ''sceCtrlSetSamplingMode'' ret else jret (JInt ret))))"

definition vitajs_get_sampling_mode :: "pad_env \<Rightarrow> jsval list \<Rightarrow> jsval pad_m" where
  "vitajs_get_sampling_mode env argv =
     (if length argv \<noteq> 0 then jthrow (SyntaxError ''getSamplingMode() expects no arguments'')
      else jbind (ask_pad env p_mode GetSamplingMode) (\<lambda>(ret, m).
        if ret < 0 then pad_error ''sceCtrlGetSamplingMode'' ret else jret (JInt m)))"

subsection \<open>Touch panels\<close>

definition SCE_TOUCH_MAX_REPORT :: nat where "SCE_TOUCH_MAX_REPORT = 8"

definition parse_touch_port :: "js_engine \<Rightarrow> pad_env \<Rightarrow> jsval \<Rightarrow> int pad_m" where
  "parse_touch_port js env v =
     jbind (jlift (ToInt32 js v)) (\<lambda>p.
       if p \<noteq> touch_port_front env \<and> p \<noteq> touch_port_back env
       then jthrow (RangeError ''touch port must be Touch.FRONT or Touch.BACK'') else jret p)"

definition touch_object :: "SceTouchReport \<Rightarrow> jsval" where
  "touch_object r = JObject [(''id'', JInt (int (tr_id r))), (''x'', JInt (tr_x r)), (''y'', JInt (tr_y r)),
     (''force'', JInt (int (tr_force r))), (''info'', JInt (int (tr_info r)))]"

text \<open>The loop over the reports; the array of the structure holds \<open>td_report\<close>.\<close>

fun touch_objects :: "SceTouchReport list \<Rightarrow> nat \<Rightarrow> nat \<Rightarrow> jsval list option" where
  "touch_objects report i 0 = Some []"
| "touch_objects report i (Suc left) =
     (if i \<ge> length report then None else map_option (Cons (touch_object (report ! i))) (touch_objects report (Suc i) left))"

definition make_touch_data :: "int \<Rightarrow> SceTouchData \<Rightarrow> jsval pad_m" where
  "make_touch_data port data =
     (let n = (if td_reportNum data > SCE_TOUCH_MAX_REPORT then SCE_TOUCH_MAX_REPORT else td_reportNum data) in
      case touch_objects (td_report data) 0 n of
        None \<Rightarrow> jundef
      | Some arr \<Rightarrow> jret (JObject [(''port'', JInt port), (''timestamp'', JInt (int (td_timeStamp data))), (''status'', JInt (int (td_status data))),
          (''count'', JInt (int (td_reportNum data))), (''touches'', JArray arr)]))"

definition read_touch :: "pad_env \<Rightarrow> bool \<Rightarrow> int \<Rightarrow> jsval pad_m" where
  "read_touch env blocking port =
     jbind (ask_pad env p_touch (if blocking then TouchRead port else TouchPeek port)) (\<lambda>(ret, data).
       if ret < 0 then pad_error (if blocking then ''sceTouchRead'' else ''sceTouchPeek'') ret else make_touch_data port data)"

definition do_read :: "js_engine \<Rightarrow> pad_env \<Rightarrow> bool \<Rightarrow> jsval list \<Rightarrow> jsval pad_m" where
  "do_read js env blocking argv =
     (if length argv > 1 then jthrow (SyntaxError (if blocking then ''read([port]) expects 0-1 arguments'' else ''peek([port]) expects 0-1 arguments''))
      else jbind (if length argv = 1 then parse_touch_port js env (argv ! 0) else jret (touch_port_front env)) (\<lambda>port.
        read_touch env blocking port))"

definition vitajs_front :: "pad_env \<Rightarrow> jsval list \<Rightarrow> jsval pad_m" where
  "vitajs_front env argv =
     (if argv \<noteq> [] then jthrow (SyntaxError ''front() expects no arguments'') else read_touch env False (touch_port_front env))"

definition vitajs_back :: "pad_env \<Rightarrow> jsval list \<Rightarrow> jsval pad_m" where
  "vitajs_back env argv =
     (if argv \<noteq> [] then jthrow (SyntaxError ''back() expects no arguments'') else read_touch env False (touch_port_back env))"

definition vitajs_panel :: "js_engine \<Rightarrow> pad_env \<Rightarrow> jsval list \<Rightarrow> jsval pad_m" where
  "vitajs_panel js env argv =
     (if length argv \<noteq> 1 then jthrow (SyntaxError ''getPanelInfo(port) expects one argument'')
      else jbind (parse_touch_port js env (argv ! 0)) (\<lambda>p.
        jbind (ask_pad env p_panel (TouchGetPanelInfo p)) (\<lambda>(r, i).
          if r < 0 then pad_error ''sceTouchGetPanelInfo'' r
          else let field = (\<lambda>k. (k, JInt (case map_of i k of None \<Rightarrow> 0 | Some x \<Rightarrow> x))) in
            jret (JObject (map field [''minAaX'', ''minAaY'', ''maxAaX'', ''maxAaY'', ''minDispX'', ''minDispY'', ''maxDispX'', ''maxDispY'', ''minForce'', ''maxForce''])))))"

definition vitajs_set_sampling :: "js_engine \<Rightarrow> pad_env \<Rightarrow> jsval list \<Rightarrow> jsval pad_m" where
  "vitajs_set_sampling js env argv =
     (if length argv \<noteq> 2 then jthrow (SyntaxError ''setSampling(port, enabled) expects two arguments'')
      else jbind (parse_touch_port js env (argv ! 0)) (\<lambda>p.
        jbind (jlift (ToBool js (argv ! 1))) (\<lambda>b.
        jbind (do_pad env (TouchSetSamplingState p b)) (\<lambda>r.
          if r < 0 then pad_error ''sceTouchSetSamplingState'' r else jret JUndefined))))"

definition vitajs_get_sampling :: "js_engine \<Rightarrow> pad_env \<Rightarrow> jsval list \<Rightarrow> jsval pad_m" where
  "vitajs_get_sampling js env argv =
     (if length argv \<noteq> 1 then jthrow (SyntaxError ''getSampling(port) expects one argument'')
      else jbind (parse_touch_port js env (argv ! 0)) (\<lambda>p.
        jbind (ask_pad env p_sampling (TouchGetSamplingState p)) (\<lambda>(r, b).
          if r < 0 then pad_error ''sceTouchGetSamplingState'' r else jret (JBool b))))"

definition vitajs_force :: "js_engine \<Rightarrow> pad_env \<Rightarrow> jsval list \<Rightarrow> jsval pad_m" where
  "vitajs_force js env argv =
     (if length argv \<noteq> 2 then jthrow (SyntaxError ''setForce(port, enabled) expects two arguments'')
      else jbind (parse_touch_port js env (argv ! 0)) (\<lambda>p.
        jbind (jlift (ToBool js (argv ! 1))) (\<lambda>b.
        jbind (do_pad env (if b then TouchEnableForce p else TouchDisableForce p)) (\<lambda>r.
          if r < 0 then pad_error (if b then ''sceTouchEnableTouchForce'' else ''sceTouchDisableTouchForce'') r else jret JUndefined))))"

subsection \<open>The functions of both modules\<close>

datatype pad_op =
    P_read | P_analog | P_check | P_rumble | P_battery | P_set_sampling_mode | P_get_sampling_mode
  | T_peek | T_read | T_front | T_back | T_panel | T_set_sampling | T_get_sampling | T_force

fun pad_exec :: "js_engine \<Rightarrow> pad_env \<Rightarrow> pad_op \<Rightarrow> jsval list \<Rightarrow> jsval pad_m" where
  "pad_exec js env P_read = vitajs_read js env"
| "pad_exec js env P_analog = vitajs_analog js env"
| "pad_exec js env P_check = vitajs_check js env"
| "pad_exec js env P_rumble = vitajs_rumble js env"
| "pad_exec js env P_battery = vitajs_battery_info js env"
| "pad_exec js env P_set_sampling_mode = vitajs_set_sampling_mode js env"
| "pad_exec js env P_get_sampling_mode = vitajs_get_sampling_mode env"
| "pad_exec js env T_peek = do_read js env False"
| "pad_exec js env T_read = do_read js env True"
| "pad_exec js env T_front = vitajs_front env"
| "pad_exec js env T_back = vitajs_back env"
| "pad_exec js env T_panel = vitajs_panel js env"
| "pad_exec js env T_set_sampling = vitajs_set_sampling js env"
| "pad_exec js env T_get_sampling = vitajs_get_sampling js env"
| "pad_exec js env T_force = vitajs_force js env"

subsection \<open>Legal calls\<close>

fun pad_legal :: "pad_env \<Rightarrow> pad_call \<Rightarrow> bool" where
  "pad_legal env (PeekBufferPositiveExt2 port) = (1 \<le> port \<and> port \<le> 5)"
| "pad_legal env (SetActuator port small large) = (1 \<le> port \<and> port \<le> 5 \<and> small \<le> 255 \<and> large \<le> 255)"
| "pad_legal env (GetBatteryInfo port) = (1 \<le> port \<and> port \<le> 5)"
| "pad_legal env (TouchRead p) = (p \<in> {touch_port_front env, touch_port_back env})"
| "pad_legal env (TouchPeek p) = (p \<in> {touch_port_front env, touch_port_back env})"
| "pad_legal env (TouchGetPanelInfo p) = (p \<in> {touch_port_front env, touch_port_back env})"
| "pad_legal env (TouchSetSamplingState p b) = (p \<in> {touch_port_front env, touch_port_back env})"
| "pad_legal env (TouchGetSamplingState p) = (p \<in> {touch_port_front env, touch_port_back env})"
| "pad_legal env (TouchEnableForce p) = (p \<in> {touch_port_front env, touch_port_back env})"
| "pad_legal env (TouchDisableForce p) = (p \<in> {touch_port_front env, touch_port_back env})"
| "pad_legal env c = True"

subsection \<open>Every call is legal\<close>

abbreviation pads_legal :: "pad_env \<Rightarrow> pad_state \<Rightarrow> bool" where
  "pads_legal env s \<equiv> \<forall>c \<in> set (trace s). pad_legal env c"

text \<open>A first step whose result \<open>P\<close> describes, then the rest.\<close>

lemma legal_bind:
  assumes "jspec (pads_legal env) m (jpost (pads_legal env) (\<lambda>x s. pads_legal env s \<and> P x))"
    and "\<And>x. P x \<Longrightarrow> jkeeps (pads_legal env) (k x)"
  shows "jkeeps (pads_legal env) (jbind m k)"
  unfolding jkeeps_post
proof (rule jspec_bind [OF assms(1)])
  fix x
  show "jspec (\<lambda>s. pads_legal env s \<and> P x) (k x) (jpost (pads_legal env) (\<lambda>_. pads_legal env))"
    using assms(2) [of x] unfolding jkeeps_post jspec_def by blast
qed

lemma legal_call:
  assumes "pad_legal env c" and "\<And>x. jkeeps (pads_legal env) (k x)"
  shows "jkeeps (pads_legal env) (jbind (jcall answer c) k)"
  using assms by (intro jkeeps_bind jkeeps_jcall) auto

lemma port_range:
  "jspec (pads_legal env) (parse_port js argv i d m) (jpost (pads_legal env) (\<lambda>x s. pads_legal env s \<and> m \<le> x \<and> x \<le> 5))"
  unfolding parse_port_def
  by (rule jspec_bind [where R = "\<lambda>_. pads_legal env"]; (cases "i < length argv"; simp)?)
    (auto intro: jspec_lift jspec_ret jspec_throw)

lemma touch_port_range:
  "jspec (pads_legal env) (parse_touch_port js env v)
     (jpost (pads_legal env) (\<lambda>x s. pads_legal env s \<and> x \<in> {touch_port_front env, touch_port_back env}))"
  unfolding parse_touch_port_def
  by (rule jspec_bind [where R = "\<lambda>_. pads_legal env"]) (auto intro: jspec_lift jspec_ret jspec_throw)

lemma touch_objects_defined: "i + n \<le> length report \<Longrightarrow> \<exists>ts. touch_objects report i n = Some ts \<and> length ts = n"
proof (induction n arbitrary: i)
  case (Suc n)
  from Suc.IH [of "Suc i"] Suc.prems show ?case by auto
qed simp

text \<open>The array of reports in the structure has the length the SDK declares.\<close>

definition reports_sized :: "pad_env \<Rightarrow> bool" where
  "reports_sized env \<longleftrightarrow> (\<forall>h. length (td_report (p_touch env h)) = SCE_TOUCH_MAX_REPORT)"

lemma read_touch_legal:
  assumes "reports_sized env" and "p \<in> {touch_port_front env, touch_port_back env}"
  shows "jkeeps (pads_legal env) (read_touch env b p)"
proof -
  have data: "jkeeps (pads_legal env) (make_touch_data p (p_touch env h))" for h
  proof -
    have "0 + min (td_reportNum (p_touch env h)) SCE_TOUCH_MAX_REPORT \<le> length (td_report (p_touch env h))"
      using assms(1) by (simp add: reports_sized_def)
    from touch_objects_defined [OF this] show ?thesis by (auto simp: make_touch_data_def min_def Let_def split: if_splits)
  qed
  have legal: "pad_legal env (if b then TouchRead p else TouchPeek p)" using assms(2) by simp
  show ?thesis
    unfolding jkeeps_def
  proof (rule jspecI)
    fix s :: pad_state
    assume s: "pads_legal env s"
    define c where "c = (if b then TouchRead p else TouchPeek p)"
    have s1: "pads_legal env (did c s)" using s legal by (simp add: c_def)
    have "read_touch env b p s = (if p_ret env (trace s) c < 0 then pad_error (if b then ''sceTouchRead'' else ''sceTouchPeek'') (p_ret env (trace s) c)
        else make_touch_data p (p_touch env (trace s))) (did c s)"
      by (simp add: read_touch_def ask_pad_def jcall_def ask_def jbind_def c_def)
    with jkeepsD [OF data s1, of "trace s"] s1 show "\<exists>r s'. read_touch env b p s = Some (r, s') \<and> pads_legal env s'"
      by (auto simp: pad_error_def jthrow_def)
  qed
qed

lemma pad_error_legal [simp]: "jkeeps (pads_legal env) (pad_error n r)"
  by (simp add: pad_error_def)

lemmas pad_rules = jkeeps_if jkeeps_ret jkeeps_throw jkeeps_lift pad_error_legal

lemma pads_keep_legal:
  "jkeeps (pads_legal env) (vitajs_read js env argv)" "jkeeps (pads_legal env) (vitajs_check js env argv)"
  "jkeeps (pads_legal env) (vitajs_rumble js env argv)" "jkeeps (pads_legal env) (vitajs_battery_info js env argv)"
  "jkeeps (pads_legal env) (vitajs_set_sampling_mode js env argv)" "jkeeps (pads_legal env) (vitajs_get_sampling_mode env argv)"
  unfolding vitajs_read_def vitajs_check_def vitajs_rumble_def vitajs_battery_info_def vitajs_set_sampling_mode_def
    vitajs_get_sampling_mode_def read_pad_def ask_pad_def do_pad_def case_prod_beta
  by (intro pad_rules legal_bind [OF port_range] legal_call jkeeps_bind [OF jkeeps_lift]; auto)+

lemma touch_keep_legal:
  assumes "reports_sized env"
  shows "jkeeps (pads_legal env) (do_read js env b argv)" "jkeeps (pads_legal env) (vitajs_front env argv)"
    "jkeeps (pads_legal env) (vitajs_back env argv)" "jkeeps (pads_legal env) (vitajs_panel js env argv)"
    "jkeeps (pads_legal env) (vitajs_set_sampling js env argv)" "jkeeps (pads_legal env) (vitajs_get_sampling js env argv)"
    "jkeeps (pads_legal env) (vitajs_force js env argv)"
proof -
  have front: "jspec (pads_legal env) (jret (touch_port_front env))
      (jpost (pads_legal env) (\<lambda>x s. pads_legal env s \<and> x \<in> {touch_port_front env, touch_port_back env}))"
    by (rule jspec_ret) simp
  show "jkeeps (pads_legal env) (do_read js env b argv)"
    unfolding do_read_def
    by (cases "length argv = 1") (auto intro!: legal_bind [OF touch_port_range] legal_bind [OF front] read_touch_legal [OF assms])
  show "jkeeps (pads_legal env) (vitajs_front env argv)" "jkeeps (pads_legal env) (vitajs_back env argv)"
    unfolding vitajs_front_def vitajs_back_def by (intro pad_rules read_touch_legal [OF assms]; simp)+
  show "jkeeps (pads_legal env) (vitajs_panel js env argv)" "jkeeps (pads_legal env) (vitajs_set_sampling js env argv)"
    "jkeeps (pads_legal env) (vitajs_get_sampling js env argv)" "jkeeps (pads_legal env) (vitajs_force js env argv)"
    unfolding vitajs_panel_def vitajs_set_sampling_def vitajs_get_sampling_def vitajs_force_def ask_pad_def do_pad_def case_prod_beta Let_def
    by (intro pad_rules legal_bind [OF touch_port_range] legal_call jkeeps_bind [OF jkeeps_lift]; auto)+
qed

text \<open>
  C39.  Whatever a script passes, every function of the controller and touch modules returns, and
  every call that reaches the system has a controller port from 1 to 5 (or is the call for port
  0), motor strengths up to 255, and the front or the back panel.
\<close>

theorem input_calls_in_range:
  assumes "reports_sized env" and "pads_legal env s"
  shows "\<exists>r s'. pad_exec js env op argv s = Some (r, s') \<and> (\<forall>c \<in> set (trace s'). pad_legal env c)"
proof -
  have "jkeeps (pads_legal env) (pad_exec js env op argv)"
    using pads_keep_legal touch_keep_legal [OF assms(1)] by (cases op) (simp_all add: vitajs_analog_def)
  from jkeepsD [OF this assms(2)] show ?thesis by blast
qed

definition demo_pads :: pad_env where
  "demo_pads = \<lparr>p_ret = (\<lambda>h c. 0), p_data = (\<lambda>h. \<lparr>c_buttons = 8, c_lx = 128, c_ly = 128, c_rx = 128, c_ry = 128, c_timeStamp = 0\<rparr>),
     p_level = (\<lambda>h. 3), p_mode = (\<lambda>h. 0),
     p_touch = (\<lambda>h. \<lparr>td_timeStamp = 0, td_status = 0, td_reportNum = 9, td_report = replicate 8 \<lparr>tr_id = 0, tr_force = 0, tr_x = 1, tr_y = 2, tr_info = 0\<rparr>\<rparr>),
     p_panel = (\<lambda>h. []), p_sampling = (\<lambda>h. True), touch_port_front = 0, touch_port_back = 1\<rparr>"

theorem input_calls_in_range_witness:
  "\<exists>r s'. pad_exec js_prim demo_pads T_peek [JInt 1] \<lparr>trace = []\<rparr> = Some (r, s') \<and> (\<forall>c \<in> set (trace s'). pad_legal demo_pads c)"
proof -
  have "reports_sized demo_pads" by (simp add: reports_sized_def demo_pads_def SCE_TOUCH_MAX_REPORT_def)
  then show ?thesis using input_calls_in_range [of demo_pads "\<lparr>trace = []\<rparr>" js_prim T_peek "[JInt 1]"] by simp
qed

end
