(* ===== verification/Power_App.thy ===== *)
theory Power_App
  imports Js_Monad
begin

text \<open>
  The power module (src/src/modules/power.c) and the application module (src/src/modules/app.c):
  counters of the battery, clock frequencies, power requests, launch parameters, system events and
  the information bar.  Answers of the system are parameters.
\<close>

subsection \<open>System calls\<close>

datatype clock = Arm | Bus | Gpu | GpuXbar

datatype pw_call =
    BatteryLifePercent | BatteryLifeTime | BatteryRemainCapacity | BatteryFullCapacity | BatteryTemp | BatteryVolt
  | BatterySOH | BatteryCycleCount | IsBatteryCharging | IsPowerOnline | IsLowBattery | IsSuspendRequired
  | GetClock clock | SetClock clock int
  | RequestSuspend | RequestStandby | RequestDisplayOn | RequestDisplayOff
  | NewObject | SetProperty string
  | ExitProcess int | GetAppParam | ReceiveSystemEvent | SetInfobarState bool bool bool

record pw_env =
  w_ret :: "pw_call list \<Rightarrow> pw_call \<Rightarrow> int"
  w_param :: "pw_call list \<Rightarrow> nat list"
  w_event :: "pw_call list \<Rightarrow> int"
  ev_resume :: int
  ev_store_purchase :: int
  ev_np_message_arrived :: int
  ev_store_redemption :: int

type_synonym pw_state = "pw_call native"
type_synonym 'a pw_m = "(pw_state, 'a) jsm"

abbreviation pw :: "pw_env \<Rightarrow> pw_call \<Rightarrow> int pw_m" where
  "pw env c \<equiv> jcall (w_ret env) c"

definition pw_throw_sce_error :: "string \<Rightarrow> int \<Rightarrow> 'a pw_m" where
  "pw_throw_sce_error name r = jthrow (InternalError (name @ '' failed: 0x'' @ hex08 r))"

text \<open>\<open>JS_NewObject\<close> and \<open>JS_SetPropertyStr\<close>, either of which may fail.\<close>

definition new_object :: "pw_env \<Rightarrow> unit pw_m" where
  "new_object env = jbind (pw env NewObject) (\<lambda>r. if r < 0 then jthrow Pending else jret ())"

definition set_property :: "pw_env \<Rightarrow> string \<Rightarrow> unit pw_m" where
  "set_property env name = jbind (pw env (SetProperty name)) (\<lambda>r. if r < 0 then jthrow Pending else jret ())"

text \<open>
  A list of properties set one after the other, each value computed by a call just before; the
  first that fails ends it.
\<close>

fun set_properties :: "pw_env \<Rightarrow> (string \<times> pw_call \<times> (int \<Rightarrow> jsval)) list \<Rightarrow> (string \<times> jsval) list pw_m" where
  "set_properties env [] = jret []"
| "set_properties env ((name, c, value) # ps) =
     jbind (pw env c) (\<lambda>x. jbind (set_property env name) (\<lambda>_.
     jbind (set_properties env ps) (\<lambda>rest. jret ((name, value x) # rest))))"

subsection \<open>Battery\<close>

text \<open>\<open>(double)temperature / 100.0\<close>.\<close>

definition temperature_value :: "int \<Rightarrow> jsval" where
  "temperature_value t = JFloat (f64 (of_int t / 100))"

text \<open>The values read before the object is filled.\<close>

fun read_all :: "pw_env \<Rightarrow> pw_call list \<Rightarrow> int list pw_m" where
  "read_all env [] = jret []"
| "read_all env (c # cs) = jbind (pw env c) (\<lambda>x. jbind (read_all env cs) (\<lambda>xs. jret (x # xs)))"

definition js_flag :: "int \<Rightarrow> jsval" where
  "js_flag x = JBool (x \<noteq> 0)"

definition set_value :: "pw_env \<Rightarrow> string \<Rightarrow> jsval \<Rightarrow> (string \<times> jsval) pw_m" where
  "set_value env name v = jbind (set_property env name) (\<lambda>_. jret (name, v))"

fun set_values :: "pw_env \<Rightarrow> (string \<times> jsval) list \<Rightarrow> (string \<times> jsval) list pw_m" where
  "set_values env [] = jret []"
| "set_values env ((name, v) # vs) = jbind (set_value env name v) (\<lambda>p. jbind (set_values env vs) (\<lambda>ps. jret (p # ps)))"

definition vitajs_power_get_battery_info :: "pw_env \<Rightarrow> jsval list \<Rightarrow> jsval pw_m" where
  "vitajs_power_get_battery_info env argv =
     (if length argv \<noteq> 0 then jthrow (SyntaxError ''getBatteryInfo() expects no arguments'')
      else jbind (new_object env) (\<lambda>_.
        jbind (read_all env [BatteryLifePercent, BatteryLifeTime, BatteryRemainCapacity, BatteryFullCapacity, BatteryTemp,
            BatteryVolt, BatterySOH, BatteryCycleCount]) (\<lambda>x.
        jbind (set_value env ''percent'' (JInt (x ! 0))) (\<lambda>p.
        jbind (set_properties env [(''charging'', IsBatteryCharging, js_flag), (''pluggedIn'', IsPowerOnline, js_flag), (''low'', IsLowBattery, js_flag)]) (\<lambda>ps.
        jbind (set_values env [(''remainingMinutes'', JInt (x ! 1)), (''remainingCapacity'', JInt (x ! 2)), (''fullCapacity'', JInt (x ! 3)),
            (''temperature'', temperature_value (x ! 4)), (''voltage'', JInt (x ! 5)), (''health'', JInt (x ! 6)), (''cycles'', JInt (x ! 7))]) (\<lambda>qs.
        jret (JObject (p # ps @ qs))))))))"

text \<open>The functions that ask for one number or one flag.\<close>

definition query :: "pw_env \<Rightarrow> string \<Rightarrow> pw_call \<Rightarrow> (int \<Rightarrow> jsval) \<Rightarrow> jsval list \<Rightarrow> jsval pw_m" where
  "query env name c value argv =
     (if length argv \<noteq> 0 then jthrow (SyntaxError (name @ ''() expects no arguments''))
      else jbind (pw env c) (\<lambda>x. jret (value x)))"

definition vitajs_power_get_battery_percent :: "pw_env \<Rightarrow> jsval list \<Rightarrow> jsval pw_m" where
  "vitajs_power_get_battery_percent env = query env ''getBatteryPercent'' BatteryLifePercent JInt"

definition vitajs_power_is_charging :: "pw_env \<Rightarrow> jsval list \<Rightarrow> jsval pw_m" where
  "vitajs_power_is_charging env = query env ''isCharging'' IsBatteryCharging js_flag"

definition vitajs_power_is_plugged_in :: "pw_env \<Rightarrow> jsval list \<Rightarrow> jsval pw_m" where
  "vitajs_power_is_plugged_in env = query env ''isPluggedIn'' IsPowerOnline js_flag"

definition vitajs_power_is_low_battery :: "pw_env \<Rightarrow> jsval list \<Rightarrow> jsval pw_m" where
  "vitajs_power_is_low_battery env = query env ''isLowBattery'' IsLowBattery js_flag"

definition vitajs_power_is_suspend_required :: "pw_env \<Rightarrow> jsval list \<Rightarrow> jsval pw_m" where
  "vitajs_power_is_suspend_required env = query env ''isSuspendRequired'' IsSuspendRequired js_flag"

subsection \<open>Clocks\<close>

definition vitajs_power_get_clocks :: "pw_env \<Rightarrow> jsval list \<Rightarrow> jsval pw_m" where
  "vitajs_power_get_clocks env argv =
     (if length argv \<noteq> 0 then jthrow (SyntaxError ''getClocks() expects no arguments'')
      else jbind (new_object env) (\<lambda>_.
        jbind (set_properties env [(''cpu'', GetClock Arm, JInt), (''bus'', GetClock Bus, JInt), (''gpu'', GetClock Gpu, JInt), (''gpuXbar'', GetClock GpuXbar, JInt)]) (\<lambda>ps.
        jret (JObject ps))))"

definition get_optional_clock :: "js_engine \<Rightarrow> jsval \<Rightarrow> string \<Rightarrow> int option pw_m" where
  "get_optional_clock js obj name =
     (let value = GetPropertyStr js obj name in
      if absent value then jret None else jbind (jlift (ToInt32 js value)) (\<lambda>f. jret (Some f)))"

fun clock_name :: "clock \<Rightarrow> string" where
  "clock_name Arm = ''scePowerSetArmClockFrequency''"
| "clock_name Bus = ''scePowerSetBusClockFrequency''"
| "clock_name Gpu = ''scePowerSetGpuClockFrequency''"
| "clock_name GpuXbar = ''scePowerSetGpuXbarClockFrequency''"

text \<open>\<open>if (has_cpu) { ... }\<close> and its three copies.\<close>

definition set_clock :: "pw_env \<Rightarrow> clock \<Rightarrow> int option \<Rightarrow> unit pw_m" where
  "set_clock env k f =
     (case f of
        None \<Rightarrow> jret ()
      | Some x \<Rightarrow> jbind (pw env (SetClock k x)) (\<lambda>result. if result < 0 then pw_throw_sce_error (clock_name k) result else jret ()))"

definition vitajs_power_set_clocks :: "js_engine \<Rightarrow> pw_env \<Rightarrow> jsval list \<Rightarrow> jsval pw_m" where
  "vitajs_power_set_clocks js env argv =
     (if length argv \<noteq> 1 \<or> \<not> js_is_object (argv ! 0) then jthrow (SyntaxError ''setClocks(options) expects one object argument'')
      else jbind (get_optional_clock js (argv ! 0) ''cpu'') (\<lambda>cpu.
        jbind (get_optional_clock js (argv ! 0) ''bus'') (\<lambda>bus.
        jbind (get_optional_clock js (argv ! 0) ''gpu'') (\<lambda>gpu.
        jbind (get_optional_clock js (argv ! 0) ''gpuXbar'') (\<lambda>gpu_xbar.
        jbind (set_clock env Arm cpu) (\<lambda>_.
        jbind (set_clock env Bus bus) (\<lambda>_.
        jbind (set_clock env Gpu gpu) (\<lambda>_.
        jbind (set_clock env GpuXbar gpu_xbar) (\<lambda>_.
        vitajs_power_get_clocks env [])))))))))"

subsection \<open>Power requests\<close>

definition request_power_action :: "pw_env \<Rightarrow> string \<Rightarrow> pw_call \<Rightarrow> jsval pw_m" where
  "request_power_action env name action =
     jbind (pw env action) (\<lambda>result. if result < 0 then pw_throw_sce_error name result else jret JUndefined)"

definition power_request :: "pw_env \<Rightarrow> string \<Rightarrow> string \<Rightarrow> pw_call \<Rightarrow> jsval list \<Rightarrow> jsval pw_m" where
  "power_request env fname name action argv =
     (if length argv \<noteq> 0 then jthrow (SyntaxError (fname @ ''() expects no arguments'')) else request_power_action env name action)"

definition vitajs_power_suspend :: "pw_env \<Rightarrow> jsval list \<Rightarrow> jsval pw_m" where
  "vitajs_power_suspend env = power_request env ''suspend'' ''scePowerRequestSuspend'' RequestSuspend"

definition vitajs_power_standby :: "pw_env \<Rightarrow> jsval list \<Rightarrow> jsval pw_m" where
  "vitajs_power_standby env = power_request env ''standby'' ''scePowerRequestStandby'' RequestStandby"

definition vitajs_power_display_on :: "pw_env \<Rightarrow> jsval list \<Rightarrow> jsval pw_m" where
  "vitajs_power_display_on env = power_request env ''requestDisplayOn'' ''scePowerRequestDisplayOn'' RequestDisplayOn"

definition vitajs_power_display_off :: "pw_env \<Rightarrow> jsval list \<Rightarrow> jsval pw_m" where
  "vitajs_power_display_off env = power_request env ''requestDisplayOff'' ''scePowerRequestDisplayOff'' RequestDisplayOff"

subsection \<open>The application\<close>

definition vitajs_app_exit :: "js_engine \<Rightarrow> pw_env \<Rightarrow> jsval list \<Rightarrow> jsval pw_m" where
  "vitajs_app_exit js env argv =
     (if length argv > 1 then jthrow (SyntaxError ''exit([code]) expects zero or one argument'')
      else jbind (if length argv = 1 then jlift (ToInt32 js (argv ! 0)) else jret 0) (\<lambda>code.
        jbind (pw env (ExitProcess code)) (\<lambda>result.
          if result < 0 then pw_throw_sce_error ''sceKernelExitProcess'' result else jret JUndefined)))"

definition PARAMS_SIZE :: nat where "PARAMS_SIZE = 1024"

text \<open>The buffer is zeroed, filled by the system, and its last byte set to zero again.\<close>

definition params_buffer :: "nat list \<Rightarrow> nat list" where
  "params_buffer written = (take PARAMS_SIZE (written @ replicate PARAMS_SIZE 0)) [PARAMS_SIZE - 1 := 0]"

definition vitajs_app_get_launch_params :: "pw_env \<Rightarrow> jsval list \<Rightarrow> jsval pw_m" where
  "vitajs_app_get_launch_params env argv =
     (if length argv \<noteq> 0 then jthrow (SyntaxError ''getLaunchParams() expects no arguments'')
      else jbind (jcall (\<lambda>h c. (w_ret env h c, w_param env h)) GetAppParam) (\<lambda>(result, written).
        if length written > PARAMS_SIZE then jundef
        else if result < 0 then pw_throw_sce_error ''sceAppMgrGetAppParam'' result
        else jret (JString (map char_of (takeWhile (\<lambda>b. b \<noteq> 0) (params_buffer written))))))"

definition system_event_name :: "pw_env \<Rightarrow> int \<Rightarrow> string" where
  "system_event_name env event =
     (if event = ev_resume env then ''resume''
      else if event = ev_store_purchase env then ''storePurchase''
      else if event = ev_np_message_arrived env then ''npMessageArrived''
      else if event = ev_store_redemption env then ''storeRedemption''
      else ''unknown'')"

definition vitajs_app_poll_event :: "pw_env \<Rightarrow> jsval list \<Rightarrow> jsval pw_m" where
  "vitajs_app_poll_event env argv =
     (if length argv \<noteq> 0 then jthrow (SyntaxError ''pollEvent() expects no arguments'')
      else jbind (jcall (\<lambda>h c. (w_ret env h c, w_event env h)) ReceiveSystemEvent) (\<lambda>(result, event).
        if result < 0 then jret JNull
        else jbind (new_object env) (\<lambda>_.
          jbind (set_values env [(''type'', JString (system_event_name env event)), (''rawType'', JInt event)]) (\<lambda>ps.
          jret (JObject ps)))))"

text \<open>An option of \<open>setInfoBar\<close> that is a flag.\<close>

definition flag_option :: "js_engine \<Rightarrow> jsval \<Rightarrow> string \<Rightarrow> bool \<Rightarrow> bool pw_m" where
  "flag_option js obj name initial =
     (let value = GetPropertyStr js obj name in
      if value = JUndefined then jret initial else jlift (ToBool js value))"

text \<open>The option \<open>color\<close>: the result says whether it is white.\<close>

definition colour_option :: "js_engine \<Rightarrow> jsval \<Rightarrow> bool pw_m" where
  "colour_option js obj =
     (let value = GetPropertyStr js obj ''color'' in
      if value = JUndefined then jret False
      else jbind (get_text js value) (\<lambda>t.
        if t = ''black'' then jbind free_cstring (\<lambda>_. jret False)
        else if t = ''white'' then jbind free_cstring (\<lambda>_. jret True)
        else jbind free_cstring (\<lambda>_. jthrow (RangeError (''color must be '' @ [CHR 0x27] @ ''black'' @ [CHR 0x27] @ '' or '' @ [CHR 0x27] @ ''white'' @ [CHR 0x27])))))"

definition vitajs_app_set_infobar :: "js_engine \<Rightarrow> pw_env \<Rightarrow> jsval list \<Rightarrow> jsval pw_m" where
  "vitajs_app_set_infobar js env argv =
     (if length argv \<noteq> 1 \<or> \<not> js_is_object (argv ! 0) then jthrow (SyntaxError ''setInfoBar(options) expects one object argument'')
      else jbind (flag_option js (argv ! 0) ''visible'' True) (\<lambda>visible.
        jbind (colour_option js (argv ! 0)) (\<lambda>white.
        jbind (flag_option js (argv ! 0) ''translucent'' False) (\<lambda>translucent.
        jbind (pw env (SetInfobarState visible white translucent)) (\<lambda>result.
          if result < 0 then pw_throw_sce_error ''sceAppMgrSetInfobarState'' result else jret JUndefined)))))"

subsection \<open>The functions of both modules\<close>

datatype pw_op =
    W_battery_info | W_get_clocks | W_percent | W_charging | W_plugged_in | W_low | W_suspend_required | W_set_clocks
  | W_suspend | W_standby | W_display_on | W_display_off
  | App_exit | App_params | App_poll | App_infobar

fun pw_exec :: "js_engine \<Rightarrow> pw_env \<Rightarrow> pw_op \<Rightarrow> jsval list \<Rightarrow> jsval pw_m" where
  "pw_exec js env W_battery_info = vitajs_power_get_battery_info env"
| "pw_exec js env W_get_clocks = vitajs_power_get_clocks env"
| "pw_exec js env W_percent = vitajs_power_get_battery_percent env"
| "pw_exec js env W_charging = vitajs_power_is_charging env"
| "pw_exec js env W_plugged_in = vitajs_power_is_plugged_in env"
| "pw_exec js env W_low = vitajs_power_is_low_battery env"
| "pw_exec js env W_suspend_required = vitajs_power_is_suspend_required env"
| "pw_exec js env W_set_clocks = vitajs_power_set_clocks js env"
| "pw_exec js env W_suspend = vitajs_power_suspend env"
| "pw_exec js env W_standby = vitajs_power_standby env"
| "pw_exec js env W_display_on = vitajs_power_display_on env"
| "pw_exec js env W_display_off = vitajs_power_display_off env"
| "pw_exec js env App_exit = vitajs_app_exit js env"
| "pw_exec js env App_params = vitajs_app_get_launch_params env"
| "pw_exec js env App_poll = vitajs_app_poll_event env"
| "pw_exec js env App_infobar = vitajs_app_set_infobar js env"

subsection \<open>The functions return and give back their strings\<close>

abbreviation pw_strings :: "nat \<Rightarrow> pw_state \<Rightarrow> bool" where
  "pw_strings n s \<equiv> cstrings s = n"

lemma pw_call_keeps [simp]: "jkeeps (pw_strings n) (jcall answer c)"
  by (rule jkeeps_jcall) simp

lemma pw_error_keeps [simp]: "jkeeps (pw_strings n) (pw_throw_sce_error m r)"
  by (simp add: pw_throw_sce_error_def)

lemmas pw_rules = jkeeps_bind jkeeps_if jkeeps_ret jkeeps_throw jkeeps_lift pw_call_keeps pw_error_keeps

lemma objects_keep [simp]: "jkeeps (pw_strings n) (new_object env)" "jkeeps (pw_strings n) (set_property env name)" "jkeeps (pw_strings n) (set_value env name v)"
  unfolding new_object_def set_value_def set_property_def by (intro pw_rules)+

lemma lists_keep [simp]:
  "jkeeps (pw_strings n) (set_properties env ps)" "jkeeps (pw_strings n) (read_all env cs)" "jkeeps (pw_strings n) (set_values env vs)"
  by (induction ps rule: set_properties.induct, (simp add: jkeeps_bind)+)
    (induction cs, (simp add: jkeeps_bind)+, induction vs rule: set_values.induct, (simp add: jkeeps_bind)+)

lemma power_keeps:
  "jkeeps (pw_strings n) (vitajs_power_get_battery_info env argv)" "jkeeps (pw_strings n) (query env m c f argv)"
  "jkeeps (pw_strings n) (vitajs_power_get_clocks env argv)" "jkeeps (pw_strings n) (power_request env g m c argv)"
  unfolding vitajs_power_get_battery_info_def query_def vitajs_power_get_clocks_def power_request_def request_power_action_def
  by (intro pw_rules objects_keep lists_keep)+

lemma set_clock_keeps [simp]: "jkeeps (pw_strings n) (set_clock env k f)"
  unfolding set_clock_def by (cases f) (auto intro: pw_rules)

lemma set_clocks_keeps: "jkeeps (pw_strings n) (vitajs_power_set_clocks js env argv)"
  unfolding vitajs_power_set_clocks_def get_optional_clock_def Let_def
  by (intro pw_rules set_clock_keeps power_keeps)

lemma infobar_keeps: "jkeeps (pw_strings n) (vitajs_app_set_infobar js env argv)"
proof -
  have colour: "jkeeps (pw_strings n) (colour_option js obj)" for obj
  proof -
    have "jspec (pw_strings n) (jbind (get_text js v) (\<lambda>t.
        if t = ''black'' then jbind free_cstring (\<lambda>_. jret False)
        else if t = ''white'' then jbind free_cstring (\<lambda>_. jret True)
        else jbind free_cstring (\<lambda>_. jthrow e))) (jpost (pw_strings n) (\<lambda>_. pw_strings n))" for v e
      by (rule jspec_bind [OF spec_get_text]) (auto intro!: jspec_bind [OF spec_free_text] jspec_ret jspec_throw)
    then show ?thesis unfolding colour_option_def Let_def by (intro jkeeps_if jkeeps_ret) (simp add: jkeeps_post)
  qed
  show ?thesis
    unfolding vitajs_app_set_infobar_def flag_option_def Let_def by (intro pw_rules colour)
qed

subsection \<open>Setting the clocks\<close>

text \<open>The four steps as one list of requests.\<close>

fun set_all :: "pw_env \<Rightarrow> (clock \<times> int option) list \<Rightarrow> unit pw_m" where
  "set_all env [] = jret ()"
| "set_all env ((k, f) # fs) = jbind (set_clock env k f) (\<lambda>_. set_all env fs)"

fun requested :: "(clock \<times> int option) list \<Rightarrow> pw_call list" where
  "requested [] = []"
| "requested ((k, None) # fs) = requested fs"
| "requested ((k, Some x) # fs) = SetClock k x # requested fs"

fun clock_calls :: "pw_call list \<Rightarrow> (pw_call \<times> pw_call list) list" where
  "clock_calls [] = []"
| "clock_calls (SetClock k x # h) = clock_calls h @ [(SetClock k x, h)]"
| "clock_calls (c # h) = clock_calls h"

text \<open>The clock calls of a history, and whether the system accepted one of them.\<close>

definition accepted :: "pw_env \<Rightarrow> pw_call \<times> pw_call list \<Rightarrow> bool" where
  "accepted env p \<longleftrightarrow> w_ret env (snd p) (fst p) \<ge> 0"

lemma jbind_assoc: "jbind (jbind m f) g = jbind m (\<lambda>x. jbind (f x) g)"
  by (auto simp: fun_eq_iff jbind_def split: option.splits sum.splits)

lemma set_all_runs:
  "\<exists>r s' new. set_all env fs s = Some (r, s') \<and> clock_calls (trace s') = clock_calls (trace s) @ new \<and>
     map fst new = take (length new) (requested fs) \<and>
     (case r of
        Inr _ \<Rightarrow> map fst new = requested fs \<and> (\<forall>p \<in> set new. accepted env p)
      | Inl e \<Rightarrow> new \<noteq> [] \<and> (\<forall>p \<in> set (butlast new). accepted env p) \<and> \<not> accepted env (last new) \<and>
          (\<exists>k x. fst (last new) = SetClock k x \<and> e = InternalError (clock_name k @ '' failed: 0x'' @ hex08 (w_ret env (snd (last new)) (fst (last new))))))"
proof (induction fs arbitrary: s)
  case Nil
  then show ?case by (simp add: jret_def)
next
  case (Cons p fs)
  obtain k f where p: "p = (k, f)" by (cases p)
  show ?case
  proof (cases f)
    case None
    have same: "set_all env (p # fs) = set_all env fs" "requested (p # fs) = requested fs"
      by (simp_all add: p None set_clock_def)
    show ?thesis unfolding same by (rule Cons)
  next
    case (Some x)
    define c where "c = SetClock k x"
    have calls: "clock_calls (trace (did c s)) = clock_calls (trace s) @ [(c, trace s)]" by (simp add: c_def)
    show ?thesis
    proof (cases "w_ret env (trace s) c < 0")
      case True
      then have "set_all env (p # fs) s = Some (Inl (InternalError (clock_name k @ '' failed: 0x'' @ hex08 (w_ret env (trace s) c))), did c s)"
        by (simp add: p Some set_clock_def jbind_def jcall_def ask_def pw_throw_sce_error_def jthrow_def c_def)
      moreover have "take 1 (requested (p # fs)) = [c]" by (simp add: p Some c_def)
      ultimately show ?thesis using True calls
        by (intro exI [of _ "Inl (InternalError (clock_name k @ '' failed: 0x'' @ hex08 (w_ret env (trace s) c)))"] exI [of _ "did c s"] exI [of _ "[(c, trace s)]"])
          (simp add: accepted_def c_def)
    next
      case False
      then have run: "set_all env (p # fs) s = set_all env fs (did c s)"
        by (simp add: p Some set_clock_def jbind_def jcall_def ask_def jret_def c_def)
      from Cons [of "did c s"] obtain r s' new where ih:
        "set_all env fs (did c s) = Some (r, s')" "clock_calls (trace s') = clock_calls (trace (did c s)) @ new"
        "map fst new = take (length new) (requested fs)"
        "case r of
          Inr _ \<Rightarrow> map fst new = requested fs \<and> (\<forall>p \<in> set new. accepted env p)
        | Inl e \<Rightarrow> new \<noteq> [] \<and> (\<forall>p \<in> set (butlast new). accepted env p) \<and> \<not> accepted env (last new) \<and>
            (\<exists>k x. fst (last new) = SetClock k x \<and> e = InternalError (clock_name k @ '' failed: 0x'' @ hex08 (w_ret env (snd (last new)) (fst (last new)))))"
        by blast
      have "accepted env (c, trace s)" using False by (simp add: accepted_def)
      with ih run calls show ?thesis
        by (intro exI [of _ r] exI [of _ s'] exI [of _ "(c, trace s) # new"])
          (cases r; auto simp: p Some c_def)
    qed
  qed
qed

text \<open>
  C40.  \<open>setClocks\<close> makes the requested settings in the order cpu, bus, gpu, gpuXbar and
  no other: all of them when it succeeds, and when the system refuses one, exactly those before it
  were accepted, and the error carries the name and the code of the one refused.
\<close>

theorem set_clocks_in_order:
  assumes "js_is_object v"
    and "get_optional_clock js v ''cpu'' s = Some (Inr cpu, s)" and "get_optional_clock js v ''bus'' s = Some (Inr bus, s)"
    and "get_optional_clock js v ''gpu'' s = Some (Inr gpu, s)" and "get_optional_clock js v ''gpuXbar'' s = Some (Inr xbar, s)"
  shows "\<exists>r s' new. vitajs_power_set_clocks js env [v] s = Some (r, s') \<and> clock_calls (trace s') = clock_calls (trace s) @ new \<and>
     map fst new = take (length new) (requested [(Arm, cpu), (Bus, bus), (Gpu, gpu), (GpuXbar, xbar)]) \<and>
     (map fst new = requested [(Arm, cpu), (Bus, bus), (Gpu, gpu), (GpuXbar, xbar)] \<and> (\<forall>p \<in> set new. accepted env p) \<and> (r = Inl Pending \<or> (\<exists>ps. r = Inr (JObject ps))) \<or>
      new \<noteq> [] \<and> (\<forall>p \<in> set (butlast new). accepted env p) \<and> \<not> accepted env (last new) \<and>
        (\<exists>k x. fst (last new) = SetClock k x \<and>
           r = Inl (InternalError (clock_name k @ '' failed: 0x'' @ hex08 (w_ret env (snd (last new)) (fst (last new)))))))"
proof -
  let ?fs = "[(Arm, cpu), (Bus, bus), (Gpu, gpu), (GpuXbar, xbar)]"
  have run: "vitajs_power_set_clocks js env [v] s = jbind (set_all env ?fs) (\<lambda>_. vitajs_power_get_clocks env []) s"
    using assms by (simp add: vitajs_power_set_clocks_def jbind_Some(1) jbind_assoc)
  obtain r s1 new where all: "set_all env ?fs s = Some (r, s1)" "clock_calls (trace s1) = clock_calls (trace s) @ new"
    "map fst new = take (length new) (requested ?fs)"
    "case r of
      Inr _ \<Rightarrow> map fst new = requested ?fs \<and> (\<forall>p \<in> set new. accepted env p)
    | Inl e \<Rightarrow> new \<noteq> [] \<and> (\<forall>p \<in> set (butlast new). accepted env p) \<and> \<not> accepted env (last new) \<and>
        (\<exists>k x. fst (last new) = SetClock k x \<and> e = InternalError (clock_name k @ '' failed: 0x'' @ hex08 (w_ret env (snd (last new)) (fst (last new)))))"
    using set_all_runs [of env ?fs s] by blast
  show ?thesis
  proof (cases r)
    case (Inl e)
    then have "vitajs_power_set_clocks js env [v] s = Some (Inl e, s1)" using all(1) by (simp only: run jbind_Some(2))
    with Inl all show ?thesis
      by (intro exI [of _ "Inl e"] exI [of _ s1] exI [of _ new]) simp
  next
    case (Inr u)
    have get: "\<exists>q s2. vitajs_power_get_clocks env [] s1 = Some (q, s2) \<and> clock_calls (trace s2) = clock_calls (trace s1) \<and>
        (q = Inl Pending \<or> (\<exists>ps. q = Inr (JObject ps)))"
      by (simp add: vitajs_power_get_clocks_def new_object_def set_property_def jbind_def jcall_def ask_def jret_def jthrow_def)
    then obtain q s2 where q: "vitajs_power_get_clocks env [] s1 = Some (q, s2)" "clock_calls (trace s2) = clock_calls (trace s1)"
        "q = Inl Pending \<or> (\<exists>ps. q = Inr (JObject ps))" by blast
    have "vitajs_power_set_clocks js env [v] s = Some (q, s2)" using all(1) Inr q(1) by (simp only: run jbind_Some(1))
    with Inr all q show ?thesis
      by (intro exI [of _ q] exI [of _ s2] exI [of _ new]) simp
  qed
qed

definition demo_pw :: pw_env where
  "demo_pw = \<lparr>w_ret = (\<lambda>h c. if c = SetClock Gpu 222 then - 1 else 0), w_param = (\<lambda>h. []), w_event = (\<lambda>h. 0),
     ev_resume = 1, ev_store_purchase = 2, ev_np_message_arrived = 3, ev_store_redemption = 4\<rparr>"

theorem set_clocks_in_order_witness:
  "\<exists>r s' new. vitajs_power_set_clocks js_prim demo_pw [JObject [(''cpu'', JInt 444), (''gpu'', JInt 222)]] \<lparr>trace = [], cstrings = 0\<rparr> = Some (r, s') \<and>
     clock_calls (trace s') = new \<and> map fst new = take (length new) [SetClock Arm 444, SetClock Gpu 222]"
proof -
  let ?v = "JObject [(''cpu'', JInt 444), (''gpu'', JInt 222)]" and ?s = "\<lparr>trace = [], cstrings = 0\<rparr>"
  have o': "get_optional_clock js_prim ?v ''cpu'' ?s = Some (Inr (Some 444), ?s)" "get_optional_clock js_prim ?v ''bus'' ?s = Some (Inr None, ?s)"
    "get_optional_clock js_prim ?v ''gpu'' ?s = Some (Inr (Some 222), ?s)" "get_optional_clock js_prim ?v ''gpuXbar'' ?s = Some (Inr None, ?s)"
    by (simp_all add: get_optional_clock_def js_prim_def absent_def to_s32_def jret_def)
  show ?thesis using set_clocks_in_order [OF _ o', of demo_pw] by auto
qed

text \<open>The other functions of the two modules return without a borrowed string, too.\<close>

theorem pw_functions_return:
  assumes "\<And>h. length (w_param env h) \<le> PARAMS_SIZE"
  shows "\<exists>r s'. pw_exec js env op argv s = Some (r, s') \<and> cstrings s' = cstrings s"
proof -
  have params: "jkeeps (pw_strings n) (vitajs_app_get_launch_params env argv)" for n
    using leD [OF assms] unfolding jkeeps_def
    by (intro jspecI) (auto simp: vitajs_app_get_launch_params_def jbind_def jcall_def ask_def jret_def jthrow_def pw_throw_sce_error_def)
  have poll: "jkeeps (pw_strings n) (vitajs_app_poll_event env argv)" for n
    unfolding vitajs_app_poll_event_def case_prod_beta by (intro pw_rules objects_keep lists_keep)
  have exit: "jkeeps (pw_strings n) (vitajs_app_exit js env argv)" for n
    unfolding vitajs_app_exit_def by (intro pw_rules)
  have "jkeeps (pw_strings n) (pw_exec js env op argv)" for n
    using params poll exit power_keeps set_clocks_keeps infobar_keeps
    by (cases op) (simp_all add: vitajs_power_get_battery_percent_def vitajs_power_is_charging_def vitajs_power_is_plugged_in_def
        vitajs_power_is_low_battery_def vitajs_power_is_suspend_required_def vitajs_power_suspend_def vitajs_power_standby_def
        vitajs_power_display_on_def vitajs_power_display_off_def)
  from jkeepsD [OF this refl] show ?thesis by blast
qed

end
