(* ===== verification/Spec2Isabelle.thy ===== *)
theory Spec2Isabelle
  imports Dialog Net_Async_Props Audio_Props Font_Safety System_Props Script_Props Screen_Props Input Power_App
begin

text \<open>
  VitaJS runs JavaScript programs on the PlayStation Vita: a C program (src/src/main.c, src/src/env.c)
  starts the vendored QuickJS engine, registers native modules written in C (src/src/modules/) and
  evaluates \<open>app0:/assets/main.js\<close>.  This library models the C code of the repository and
  proves what its parts promise.

  \<^bold>\<open>How the code is modelled.\<close>

  \<^item> A native function takes the arguments of the call and the state of its module and returns
    a value or a JavaScript error, and the new state; \<open>None\<close> is undefined behaviour, and for a
    loop written with \<open>partial_function\<close> also a run that does not end.  The older theories
    (\<open>Dialog\<close>, \<open>Net\<close>, \<open>Audio\<close>, \<open>Net_Async\<close>) pass the state explicitly; the others use
    the monad of \<open>Js_Monad\<close> with its triples \<open>jspec\<close> and its invariants \<open>jkeeps\<close>.
  \<^item> The engine is the record \<open>js_engine\<close> of \<open>Js_Api\<close>: its conversions are parameters that
    either give a value of the C type or raise an exception.  \<open>js_prim\<close> is an instance for
    evaluation.
  \<^item> The libraries of the console are parameters too: every module keeps the history of its
    calls, and an answer is a function of that history and the call.  What a theorem needs of the
    answers it says in a named hypothesis (\<open>reads_ok\<close>, \<open>files_end\<close>, \<open>fread_ok\<close>,
    \<open>starts_running\<close>, \<open>quiet_scripts\<close>, \<dots>), with a witness in which it holds.
  \<^item> C integers are written with their wrap-around (\<open>size_t\<close>, \<open>to_s32\<close>, \<open>to_u32\<close> of
    \<open>Vita_Prelude\<close>), floats as rationals with rounding, infinities and NaN (\<open>C_Float\<close>).
  \<^item> Memory, handles, borrowed strings and engine references are ledgers in the state; giving
    back what is not held is undefined, so a theorem that an operation is defined excludes double
    frees, and an equation for the ledger excludes leaks.

  \<^bold>\<open>The theories.\<close>

  \<^item> \<open>Vita_Prelude\<close>, \<open>C_Float\<close>, \<open>Js_Api\<close>, \<open>Js_Monad\<close>: integers, buffers, tables,
    ownership ledgers and the locale \<open>module_inv\<close> (an invariant kept by every step holds in
    every reachable state), which every module with a state interprets; floats; the engine;
    the monad.
  \<^item> \<open>Utf_Conv\<close>, \<open>Dialog\<close>: src/src/modules/dialog.c.  The converters between UTF-8 and UTF-16
    are inverse and stay in their buffers; the dialog state machine makes only legal native calls
    in every reachable state, and its shutdown gives everything back.
  \<^item> \<open>Http_Client\<close>, \<open>Net\<close>: src/src/modules/net.c.  The locale \<open>http_library\<close> is the contract
    of the HTTP library; a request ends with an error or exactly the bytes received; libraries,
    handles and buffers are released in order on every path.
  \<^item> \<open>Wav\<close>, \<open>Audio_Stream\<close>, \<open>Audio\<close>, \<open>Audio_Safety\<close>, \<open>Audio_Props\<close>:
    src/src/modules/audio.c.  The WAV parser and the resampler (round trips, bounds, termination
    and the file on which it does not terminate), the cache of a stream as a view of its file
    (locale \<open>frame_source\<close>), the tables of clips, voices and streams and their ownership, the mixer.
  \<^item> \<open>Net_Async\<close>, \<open>Net_Async_Safety\<close>, \<open>Net_Async_Props\<close>: src/src/modules/net_async.c.  The worker
    thread and the script interleave in steps that are the critical sections of the code; the
    module refines a machine that is idle, running or finished; no promise is settled twice and a
    finished request is delivered.
  \<^item> \<open>Font\<close>, \<open>Font_Safety\<close>: src/src/modules/font.c.  Font objects own one instance of libvita2d for each
    pixel size; converting an argument may run code of the script, which is where the module can
    be made to draw with a freed instance.
  \<^item> \<open>Sfo\<close>, \<open>System_Files\<close>, \<open>System_Props\<close>: src/src/modules/system.c and the memory counters and delays
    of src/src/env.c.  The parser of the manifest (in bounds for every file, inverse to a
    reference encoder), copying and moving, the file functions, the exported values.
  \<^item> \<open>Script\<close>, \<open>Script_Props\<close>: the rest of src/src/env.c, src/src/main.c, and
    \<open>vitajs_error_screen\<close> of src/src/graphics.c.
  \<^item> \<open>Screen\<close>, \<open>Screen_Props\<close>: src/src/modules/screen.c with its texture table.
  \<^item> \<open>Input\<close>: src/src/modules/pads.c and touch.c.  \<open>Power_App\<close>: power.c and app.c.

  \<^bold>\<open>Loops and fuel.\<close>  Loops over the bytes or entries of a given list are structural.
  Loops whose end depends on the system are \<open>partial_function (option)\<close>: \<open>read_loop\<close> of
  \<open>Http_Client\<close>, \<open>wav_loop\<close>, \<open>copy_loop\<close>, \<open>fh_loop\<close>, \<open>script_loop\<close>, \<open>button_loop\<close>
  and \<open>error_loop\<close>.  That they return is proved where it holds, from a hypothesis that bounds the
  reads until a file ends; no fuel is used.

  \<^bold>\<open>Assumptions of the model.\<close>
  Sections of the code under one mutex are atomic.  Reference counts of JavaScript values are
  modelled only where the code counts them itself (the functions of a promise, the values of
  \<open>qjs_eval_buf\<close>, arguments released by screen.c).  Code of a script runs inside a conversion
  only in \<open>Font\<close>.  The engine's decoding of UTF-8 in strings it makes from bytes, the
  truncation of its messages, and I/O errors in the middle of \<open>fread\<close> on audio files are not
  modelled.

  \<^bold>\<open>Not modelled.\<close>
  The vendored engine (quickjs/), which the code only calls; the registration of functions and
  classes with it, which is a table; the debug screen (src/src/common/), a copied console that
  nothing calls; src/src/memory.c, taskman.c and system.c, which are not in the build; the drawing
  helpers of graphics.c, one call of libvita2d each, which no module uses; in screen.c, the code
  after a store through NULL, which is not reached.
\<close>

end
